(* ===== verification/Griot_Prelude.thy ===== *)
theory Griot_Prelude
  imports Main "HOL-Library.Sublist" "HOL-Library.Char_ord" "HOL-Library.List_Lexorder"
begin

text \<open>
  Shared vocabulary of the development: Rust's \<open>Result\<close> as a sum (\<open>Inl\<close> the error) with the
  \<open>?\<close> operator as \<open>and_then\<close>, the parts of \<open>str\<close>/\<open>String\<close> the sources call (a Rust string is
  its list of UTF-8 bytes, one \<open>char\<close> per byte), and \<open>HashMap\<close>s as association lists in
  iteration order. The collections \<open>result_simps\<close>, \<open>str_simps\<close> and \<open>alist_simps\<close>
  carry the component proofs.
\<close>

named_theorems result_simps \<open>equations and inversions for results\<close>
named_theorems str_simps \<open>facts on the string operations\<close>
named_theorems alist_simps \<open>facts on HashMaps as association lists\<close>

section \<open>Results\<close>

definition and_then :: "'e + 'a \<Rightarrow> ('a \<Rightarrow> 'e + 'b) \<Rightarrow> 'e + 'b" where
  "and_then r f = (case r of Inl e \<Rightarrow> Inl e | Inr x \<Rightarrow> f x)"

definition map_err :: "('e \<Rightarrow> 'd) \<Rightarrow> 'e + 'a \<Rightarrow> 'd + 'a" where
  "map_err f r = (case r of Inl e \<Rightarrow> Inl (f e) | Inr x \<Rightarrow> Inr x)"

definition ok_or :: "'e \<Rightarrow> 'a option \<Rightarrow> 'e + 'a" where
  "ok_or e v = (case v of None \<Rightarrow> Inl e | Some x \<Rightarrow> Inr x)"

fun map_r :: "('a \<Rightarrow> 'e + 'b) \<Rightarrow> 'a list \<Rightarrow> 'e + 'b list" where
  "map_r f [] = Inr []"
| "map_r f (x # xs) = and_then (f x) (\<lambda>y. and_then (map_r f xs) (\<lambda>ys. Inr (y # ys)))"

definition is_ok :: "'e + 'a \<Rightarrow> bool" where
  "is_ok r = (case r of Inl _ \<Rightarrow> False | Inr _ \<Rightarrow> True)"

lemma and_then_simps [simp, result_simps]:
  "and_then (Inl e) f = Inl e" "and_then (Inr x) f = f x"
  by (simp_all add: and_then_def)

lemma map_err_simps [simp, result_simps]:
  "map_err f (Inl e) = Inl (f e)" "map_err f (Inr x) = Inr x"
  by (simp_all add: map_err_def)

lemma ok_or_simps [simp, result_simps]: "ok_or e None = Inl e" "ok_or e (Some x) = Inr x"
  by (simp_all add: ok_or_def)

lemma is_ok_simps [simp, result_simps]: "\<not> is_ok (Inl e)" "is_ok (Inr x)"
  by (simp_all add: is_ok_def)

lemma is_ok_iff [result_simps]: "is_ok r \<longleftrightarrow> (\<exists>x. r = Inr x)"
  by (cases r) auto

lemma and_then_eq_Inr [result_simps]: "and_then r f = Inr y \<longleftrightarrow> (\<exists>x. r = Inr x \<and> f x = Inr y)"
  by (cases r) auto

lemma and_then_eq_Inl [result_simps]:
  "and_then r f = Inl e \<longleftrightarrow> r = Inl e \<or> (\<exists>x. r = Inr x \<and> f x = Inl e)"
  by (cases r) auto

lemma map_err_eq_Inr [result_simps]: "map_err f r = Inr y \<longleftrightarrow> r = Inr y"
  by (cases r) auto

lemma map_err_eq_Inl [result_simps]: "map_err f r = Inl d \<longleftrightarrow> (\<exists>e. r = Inl e \<and> d = f e)"
  by (cases r) auto

lemma ok_or_eq_Inr [result_simps]: "ok_or e v = Inr x \<longleftrightarrow> v = Some x"
  by (cases v) auto

lemma map_r_cong [fundef_cong]:
  "xs = ys \<Longrightarrow> (\<And>x. x \<in> set ys \<Longrightarrow> f x = g x) \<Longrightarrow> map_r f xs = map_r g ys"
  by (induction xs arbitrary: ys) auto

lemma map_r_eq_Inr [result_simps]:
  "map_r f xs = Inr ys \<longleftrightarrow> list_all2 (\<lambda>x y. f x = Inr y) xs ys"
  by (induction xs arbitrary: ys) (auto simp: and_then_eq_Inr list_all2_Cons1)

lemma map_r_Inr_map: "map_r (\<lambda>x. Inr (g x)) xs = Inr (map g xs)"
  by (induction xs) auto

lemma map_r_total:
  "(\<And>x. x \<in> set xs \<Longrightarrow> \<exists>y. f x = Inr y) \<Longrightarrow> \<exists>ys. map_r f xs = Inr ys"
  by (induction xs) (auto simp: and_then_eq_Inr)

lemma map_r_eq_Inl: "map_r f xs = Inl e \<Longrightarrow> \<exists>x\<in>set xs. f x = Inl e"
  by (induction xs) (auto simp: and_then_eq_Inl)

section \<open>Strings\<close>

text \<open>\<open>code c\<close>: the byte (or, for text built by \<open>byte as char\<close>, the code point) of \<open>c\<close>.\<close>

abbreviation code :: "char \<Rightarrow> nat" where
  "code c \<equiv> of_char c"

definition ascii_upper :: "char \<Rightarrow> char" where
  "ascii_upper c = (if 97 \<le> code c \<and> code c \<le> 122 then char_of (code c - 32) else c)"

definition ascii_lower :: "char \<Rightarrow> char" where
  "ascii_lower c = (if 65 \<le> code c \<and> code c \<le> 90 then char_of (code c + 32) else c)"

definition to_ascii_uppercase :: "string \<Rightarrow> string" where
  "to_ascii_uppercase s = map ascii_upper s"

definition to_ascii_lowercase :: "string \<Rightarrow> string" where
  "to_ascii_lowercase s = map ascii_lower s"

text \<open>\<open>str::split(c)\<close>: the pieces between occurrences of \<open>c\<close>, always at least one.\<close>

fun split_on :: "char \<Rightarrow> string \<Rightarrow> string list" where
  "split_on d [] = [[]]"
| "split_on d (c # s) = (if c = d then [] # split_on d s
     else (case split_on d s of [] \<Rightarrow> [[c]] | p # ps \<Rightarrow> (c # p) # ps))"

text \<open>\<open>str::find(&str)\<close>: the byte offset of the first occurrence.\<close>

fun find_sub :: "string \<Rightarrow> string \<Rightarrow> nat option" where
  "find_sub pat [] = (if pat = [] then Some 0 else None)"
| "find_sub pat (c # s) = (if prefix pat (c # s) then Some 0 else map_option Suc (find_sub pat s))"

definition str_contains :: "string \<Rightarrow> string \<Rightarrow> bool" where
  "str_contains s pat \<longleftrightarrow> find_sub pat s \<noteq> None"

text \<open>\<open>str::chars\<close>: a char starts at every byte that is not a UTF-8 continuation byte.\<close>

definition is_cont :: "char \<Rightarrow> bool" where
  "is_cont c \<longleftrightarrow> 128 \<le> code c \<and> code c < 192"

function utf8_chars :: "string \<Rightarrow> string list" where
  "utf8_chars [] = []"
| "utf8_chars (c # s) = (c # takeWhile is_cont s) # utf8_chars (dropWhile is_cont s)"
  by pat_completeness auto
termination
  by (relation "measure length") (auto simp: le_imp_less_Suc length_dropWhile_le)

text \<open>\<open>char::is_whitespace\<close> (Unicode \<open>White_Space\<close>) on one UTF-8 encoded char.\<close>

definition is_ws_char :: "string \<Rightarrow> bool" where
  "is_ws_char u \<longleftrightarrow> (let n = map (of_char :: char \<Rightarrow> nat) u in
     n \<in> set [[9], [10], [11], [12], [13], [32], [194, 133], [194, 160], [225, 154, 128],
       [226, 128, 168], [226, 128, 169], [226, 128, 175], [226, 129, 159], [227, 128, 128]]
     \<or> (\<exists>k\<in>set [128..<139]. n = [226, 128, k]))"

definition trim_chars :: "(string \<Rightarrow> bool) \<Rightarrow> string \<Rightarrow> string" where
  "trim_chars p s = concat (rev (dropWhile p (rev (dropWhile p (utf8_chars s)))))"

definition str_trim :: "string \<Rightarrow> string" where
  "str_trim = trim_chars is_ws_char"

lemma concat_utf8_chars [simp, str_simps]: "concat (utf8_chars s) = s"
  by (induction s rule: utf8_chars.induct) (auto simp: takeWhile_dropWhile_id)

lemma split_on_nonempty [simp]: "split_on d s \<noteq> []"
  by (induction s) (auto split: list.splits)

lemma length_map_ascii [simp]: "length (to_ascii_uppercase s) = length s"
  "length (to_ascii_lowercase s) = length s"
  by (simp_all add: to_ascii_uppercase_def to_ascii_lowercase_def)

lemma split_on_free: "d \<notin> set p \<Longrightarrow> split_on d p = [p]"
  by (induction p) auto

lemma split_on_first: "d \<notin> set p \<Longrightarrow> split_on d (p @ d # s) = p # split_on d s"
  by (induction p) auto

lemma first_delim_eq:
  "d \<notin> set a \<Longrightarrow> d \<notin> set p \<Longrightarrow> a @ d # b = p @ d # t \<longleftrightarrow> a = p \<and> b = t"
proof (induction a arbitrary: p)
  case Nil
  then show ?case by (cases p) auto
next
  case (Cons x a)
  then show ?case by (cases p) auto
qed

lemma split_on_cases:
  obtains "d \<notin> set s" "split_on d s = [s]"
    | a b where "s = a @ d # b" "d \<notin> set a" "split_on d s = a # split_on d b"
  by (metis split_list_first split_on_first split_on_free)

text \<open>A piece of \<open>split_on\<close> is exactly a maximal delimiter-free segment of the text.\<close>

definition segment_of :: "char \<Rightarrow> string \<Rightarrow> string \<Rightarrow> bool" where
  "segment_of d s p \<longleftrightarrow> d \<notin> set p \<and> (\<exists>pre post. s = pre @ p @ post
     \<and> (pre = [] \<or> last pre = d) \<and> (post = [] \<or> hd post = d))"

lemma segment_of_append: "segment_of d b p \<Longrightarrow> segment_of d (a @ d # b) p"
  unfolding segment_of_def by (metis append.assoc append_Cons append_Nil last_ConsL last_appendR list.distinct(1) snoc_eq_iff_butlast)

lemma segment_of_split:
  assumes "segment_of d (a @ d # b) p" "d \<notin> set a"
  shows "p = a \<or> segment_of d b p"
proof -
  from assms obtain pre post where e: "a @ d # b = pre @ p @ post" and p: "d \<notin> set p"
    and pre: "pre = [] \<or> last pre = d" and post: "post = [] \<or> hd post = d"
    by (auto simp: segment_of_def)
  show ?thesis
  proof (cases "pre = []")
    case True
    with e have e': "a @ d # b = p @ post" by simp
    have "post \<noteq> []" using e' p by (metis append_Nil2 in_set_conv_decomp)
    with post obtain t where "post = d # t" by (cases post) auto
    with e' p assms(2) have "p = a" by (simp add: first_delim_eq)
    then show ?thesis ..
  next
    case False
    with pre have "d \<in> set pre" by (metis last_in_set)
    then obtain u v where uv: "pre = u @ d # v" "d \<notin> set u" by (metis split_list_first)
    have "a = u \<and> b = v @ p @ post"
      using e uv assms(2) by (simp add: first_delim_eq)
    moreover have "v = [] \<or> last v = d" using pre uv by (cases "v = []") auto
    ultimately show ?thesis using p post by (auto simp: segment_of_def)
  qed
qed

lemma split_on_pieces [str_simps]: "p \<in> set (split_on d s) \<longleftrightarrow> segment_of d s p"
proof (induction "length s" arbitrary: s rule: less_induct)
  case less
  show ?case
  proof (cases rule: split_on_cases [of d s])
    case 1
    then show ?thesis by (auto simp: segment_of_def) (metis append_is_Nil_conv hd_in_set last_in_set Un_iff set_append self_append_conv2 append.right_neutral)+
  next
    case (2 a b)
    then have "p \<in> set (split_on d b) \<longleftrightarrow> segment_of d b p" by (intro less) auto
    moreover have "segment_of d s a"
      unfolding segment_of_def using 2 by (intro conjI exI [of _ "[]"] exI [of _ "d # b"]) auto
    ultimately show ?thesis
      using 2 segment_of_append [of d b p a] segment_of_split [of d a b p] by auto
  qed
qed

end
