(* ===== verification/F64.thy ===== *)
theory F64
  imports Complex_Main Griot_Prelude
begin

text \<open>
  Rust's \<open>f64\<close> (IEEE 754 binary64) as far as the engine computes with it: privacy parameters,
  budgets and noise. A value is a NaN, an infinity, the negative zero, or a rational; \<open>f64_round\<close>
  rounds an exact rational to the nearest double, ties to even, with gradual underflow and
  overflow to infinity. Arithmetic is the exact operation followed by one rounding, comparisons
  are IEEE comparisons (every comparison with a NaN is false). All of it is executable.
\<close>

section \<open>Model\<close>

datatype f64 = NaN | PInf | NInf | NZero | Fin rat

text \<open>Round half to even, to an integer.\<close>

definition round_even :: "rat \<Rightarrow> int" where
  "round_even q = (let f = \<lfloor>q\<rfloor>; d = q - of_int f in
     if d < 1 / 2 then f else if d > 1 / 2 then f + 1 else if even f then f else f + 1)"

function bit_length :: "int \<Rightarrow> int" where
  "bit_length n = (if n \<le> 0 then 0 else 1 + bit_length (n div 2))"
  by pat_completeness auto
termination
  by (relation "measure nat") auto

declare bit_length.simps [simp del]

definition pow2 :: "int \<Rightarrow> rat" where
  "pow2 e = (if 0 \<le> e then 2 ^ nat e else 1 / 2 ^ nat (- e))"

text \<open>The binary exponent of a positive rational: \<open>pow2 e \<le> q < pow2 (e + 1)\<close>.\<close>

definition exponent2 :: "rat \<Rightarrow> int" where
  "exponent2 q = (case quotient_of q of (n, d) \<Rightarrow>
     let e = bit_length n - bit_length d
     in if pow2 e \<le> q then e else e - 1)"

definition f64_round :: "rat \<Rightarrow> f64" where
  "f64_round x =
     (if x = 0 then Fin 0
      else let e = exponent2 \<bar>x\<bar>;
               u = pow2 (max e (- 1022) - 52);
               m = of_int (round_even (\<bar>x\<bar> / u)) * u
           in if 1023 \<le> e \<and> pow2 1024 \<le> m then (if 0 < x then PInf else NInf)
              else if m = 0 then (if 0 < x then Fin 0 else NZero)
              else Fin (if 0 < x then m else - m))"

definition f64_EPSILON :: f64 where
  "f64_EPSILON = Fin (1 / 2 ^ 52)"

fun is_finite :: "f64 \<Rightarrow> bool" where
  "is_finite NZero = True" | "is_finite (Fin _) = True" | "is_finite _ = False"

fun f64_neg :: "f64 \<Rightarrow> f64" where
  "f64_neg NaN = NaN" | "f64_neg PInf = NInf" | "f64_neg NInf = PInf" | "f64_neg NZero = Fin 0"
| "f64_neg (Fin q) = (if q = 0 then NZero else Fin (- q))"

fun f64_add :: "f64 \<Rightarrow> f64 \<Rightarrow> f64" where
  "f64_add NaN _ = NaN" | "f64_add _ NaN = NaN"
| "f64_add PInf NInf = NaN" | "f64_add NInf PInf = NaN"
| "f64_add PInf _ = PInf" | "f64_add _ PInf = PInf"
| "f64_add NInf _ = NInf" | "f64_add _ NInf = NInf"
| "f64_add NZero NZero = NZero" | "f64_add NZero (Fin q) = Fin q" | "f64_add (Fin q) NZero = Fin q"
| "f64_add (Fin p) (Fin q) = f64_round (p + q)"

definition f64_sub :: "f64 \<Rightarrow> f64 \<Rightarrow> f64" where
  "f64_sub a b = f64_add a (f64_neg b)"

text \<open>\<open>f64_sign a\<close>: the sign bit; \<open>f64_val\<close>: the real value of a finite double.\<close>

fun f64_sign :: "f64 \<Rightarrow> bool" where
  "f64_sign NInf = True" | "f64_sign NZero = True" | "f64_sign (Fin q) = (q < 0)" | "f64_sign _ = False"

fun f64_val :: "f64 \<Rightarrow> rat" where
  "f64_val (Fin q) = q" | "f64_val _ = 0"

definition f64_signed :: "bool \<Rightarrow> f64 \<Rightarrow> f64" where
  "f64_signed neg m = (if neg then f64_neg m else m)"

definition f64_mul :: "f64 \<Rightarrow> f64 \<Rightarrow> f64" where
  "f64_mul a b = (let neg = f64_sign a \<noteq> f64_sign b in
     if a = NaN \<or> b = NaN then NaN
     else if is_finite a \<and> is_finite b then f64_signed neg (f64_round \<bar>f64_val a * f64_val b\<bar>)
     else if (is_finite a \<and> f64_val a = 0) \<or> (is_finite b \<and> f64_val b = 0) then NaN
     else f64_signed neg PInf)"

definition f64_div :: "f64 \<Rightarrow> f64 \<Rightarrow> f64" where
  "f64_div a b = (let neg = f64_sign a \<noteq> f64_sign b in
     if a = NaN \<or> b = NaN then NaN
     else if is_finite a \<and> is_finite b then
       (if f64_val b = 0 then (if f64_val a = 0 then NaN else f64_signed neg PInf)
        else f64_signed neg (f64_round \<bar>f64_val a / f64_val b\<bar>))
     else if is_finite b then f64_signed neg PInf
     else if is_finite a then f64_signed neg (Fin 0) else NaN)"

fun f64_lt :: "f64 \<Rightarrow> f64 \<Rightarrow> bool" where
  "f64_lt NaN _ = False" | "f64_lt _ NaN = False"
| "f64_lt NInf b = (b \<noteq> NInf)" | "f64_lt _ NInf = False"
| "f64_lt PInf _ = False" | "f64_lt _ PInf = True"
| "f64_lt a b = (f64_val a < f64_val b)"

definition f64_le :: "f64 \<Rightarrow> f64 \<Rightarrow> bool" where
  "f64_le a b \<longleftrightarrow> a \<noteq> NaN \<and> b \<noteq> NaN \<and> \<not> f64_lt b a"

text \<open>\<open>f.round()\<close> (half away from zero) followed by the saturating \<open>as i64\<close>.\<close>

definition round_away :: "rat \<Rightarrow> int" where
  "round_away q = (if 0 \<le> q then \<lfloor>q + 1 / 2\<rfloor> else - \<lfloor>1 / 2 - q\<rfloor>)"

definition clamp_i64 :: "int \<Rightarrow> int" where
  "clamp_i64 z = (if z < - (2 ^ 63) then - (2 ^ 63) else if z > 2 ^ 63 - 1 then 2 ^ 63 - 1 else z)"

fun f64_round_as_i64 :: "f64 \<Rightarrow> int" where
  "f64_round_as_i64 NaN = 0"
| "f64_round_as_i64 PInf = 2 ^ 63 - 1"
| "f64_round_as_i64 NInf = - (2 ^ 63)"
| "f64_round_as_i64 a = clamp_i64 (round_away (f64_val a))"

section \<open>Rounding to an integer\<close>

lemma round_even_error: "\<bar>of_int (round_even q) - q\<bar> \<le> 1 / 2"
proof -
  have "of_int \<lfloor>q\<rfloor> \<le> q" "q < of_int \<lfloor>q\<rfloor> + 1" using floor_correct [of q] by auto
  then show ?thesis unfolding round_even_def Let_def by (auto simp: abs_le_iff)
qed

lemma round_even_of_int [simp]: "round_even (of_int n) = n"
  by (simp add: round_even_def Let_def)

lemma round_even_mono:
  assumes "p \<le> q"
  shows "round_even p \<le> round_even q"
proof -
  have f: "\<lfloor>p\<rfloor> \<le> \<lfloor>q\<rfloor>" by (rule floor_mono [OF assms])
  have b: "round_even p \<le> \<lfloor>p\<rfloor> + 1" "\<lfloor>q\<rfloor> \<le> round_even q" by (simp_all add: round_even_def Let_def)
  show ?thesis
  proof (cases "\<lfloor>p\<rfloor> = \<lfloor>q\<rfloor>")
    case True
    with assms show ?thesis by (auto simp: round_even_def Let_def)
  next
    case False
    with f b show ?thesis by linarith
  qed
qed

lemma pow2_pos [simp]: "0 < pow2 e"
  by (simp add: pow2_def)

lemma clamp_i64_bounds: "- (2 ^ 63) \<le> clamp_i64 z \<and> clamp_i64 z < 2 ^ 63"
  by (simp add: clamp_i64_def)

lemma f64_round_as_i64_bounds: "- (2 ^ 63) \<le> f64_round_as_i64 a \<and> f64_round_as_i64 a < 2 ^ 63"
  by (cases a) (use clamp_i64_bounds in \<open>auto\<close>)

lemma f64_round_not_NaN [simp]: "f64_round q \<noteq> NaN"
  by (simp add: f64_round_def Let_def)

lemma f64_lt_irrefl [simp]: "\<not> f64_lt a a"
  by (cases a) auto

section \<open>Binary exponents\<close>

lemma bit_length_bounds: "0 < n \<Longrightarrow> 0 < bit_length n \<and> 2 ^ nat (bit_length n - 1) \<le> n \<and> n < 2 ^ nat (bit_length n)"
proof (induction n rule: bit_length.induct)
  case (1 n)
  show ?case
  proof (cases "n = 1")
    case True
    then show ?thesis by (simp add: bit_length.simps)
  next
    case False
    let ?k = "bit_length (n div 2)"
    have pos: "0 < n div 2" using 1 False by linarith
    have IH: "0 < ?k" "2 ^ nat (?k - 1) \<le> n div 2" "n div 2 < 2 ^ nat ?k" using "1.IH" "1.prems" pos by auto
    have e: "bit_length n = 1 + ?k" using "1.prems" by (simp add: bit_length.simps [of n])
    obtain m where m: "?k = int m + 1" using IH(1) by (metis add.commute int_one_le_iff_zero_less zle_iff_zadd)
    have k: "nat (?k - 1) = m" "nat ?k = Suc m" "nat (bit_length n - 1) = Suc m" "nat (bit_length n) = Suc (Suc m)"
      unfolding e m by simp_all
    have "n < 2 * 2 ^ Suc m" using IH(3) unfolding k by linarith
    moreover have "2 * 2 ^ m \<le> n" using IH(2) unfolding k by linarith
    ultimately have "0 < bit_length n \<and> 2 ^ Suc m \<le> n \<and> n < 2 ^ Suc (Suc m)" using IH(1) e by simp
    then show ?thesis by (simp only: k)
  qed
qed

lemma pow2_add: "pow2 (a + b) = pow2 a * pow2 b"
proof -
  have p: "pow2 e = 2 powi e" for e by (simp add: pow2_def power_int_def inverse_eq_divide power_one_over)
  show ?thesis by (simp add: p power_int_add)
qed

lemma pow2_simps [simp]: "pow2 0 = 1" "pow2 1 = 2"
  by (simp_all add: pow2_def)

lemma pow2_nat: "0 \<le> a \<Longrightarrow> pow2 a = of_int (2 ^ nat a)"
  by (simp add: pow2_def)

lemma pow2_mono: "a \<le> b \<Longrightarrow> pow2 a \<le> pow2 b"
proof -
  assume "a \<le> b"
  then have "1 \<le> pow2 (b - a)" by (simp add: pow2_def)
  moreover have "pow2 b = pow2 a * pow2 (b - a)" by (simp only: pow2_add [symmetric]) simp
  ultimately show ?thesis using pow2_pos [of a] by (metis mult_le_cancel_left1 order_less_imp_not_less)
qed

lemma exponent2_bounds:
  assumes "0 < q"
  shows "pow2 (exponent2 q) \<le> q \<and> q < pow2 (exponent2 q + 1)"
proof -
  obtain n d where nd: "quotient_of q = (n, d)" by fastforce
  have d: "0 < d" using nd by (rule quotient_of_denom_pos)
  have q: "q = of_int n / of_int d" using nd by (rule quotient_of_div)
  have n: "0 < n" using assms q d by (simp add: zero_less_divide_iff)
  let ?bn = "bit_length n" and ?bd = "bit_length d"
  have bn: "0 < ?bn" "2 ^ nat (?bn - 1) \<le> n" "n < 2 ^ nat ?bn" using bit_length_bounds [OF n] by auto
  have bd: "0 < ?bd" "2 ^ nat (?bd - 1) \<le> d" "d < 2 ^ nat ?bd" using bit_length_bounds [OF d] by auto
  have n1: "pow2 (?bn - 1) \<le> of_int n" "of_int n < pow2 ?bn" using bn by (simp_all add: pow2_nat del: of_int_power)
  have d1: "pow2 (?bd - 1) \<le> of_int d" "of_int d < pow2 ?bd" using bd by (simp_all add: pow2_nat del: of_int_power)
  have dpos: "(0::rat) < of_int d" using d by simp
  have u: "q < pow2 (?bn - ?bd + 1)"
  proof -
    have "pow2 ?bn = pow2 (?bn - ?bd + 1) * pow2 (?bd - 1)" by (simp add: pow2_add [symmetric])
    also have "\<dots> \<le> pow2 (?bn - ?bd + 1) * of_int d" by (rule mult_left_mono [OF d1(1)]) (simp add: less_imp_le)
    finally have "of_int n < pow2 (?bn - ?bd + 1) * of_int d" using n1(2) by linarith
    then show ?thesis using dpos by (simp add: q pos_divide_less_eq)
  qed
  have l: "pow2 (?bn - ?bd - 1) \<le> q"
  proof -
    have "pow2 (?bn - ?bd - 1) * of_int d \<le> pow2 (?bn - ?bd - 1) * pow2 ?bd"
      by (rule mult_left_mono) (use d1(2) in \<open>simp_all add: less_imp_le\<close>)
    also have "\<dots> = pow2 (?bn - 1)" by (simp add: pow2_add [symmetric])
    finally have "pow2 (?bn - ?bd - 1) * of_int d \<le> of_int n" using n1(1) by linarith
    then show ?thesis using dpos by (simp add: q pos_le_divide_eq)
  qed
  show ?thesis using u l by (auto simp: exponent2_def nd Let_def)
qed

section \<open>Rounding is monotone and close\<close>

text \<open>The magnitude \<open>f64_round\<close> computes for a positive rational, before the range check.\<close>

definition ulp :: "rat \<Rightarrow> rat" where
  "ulp x = pow2 (max (exponent2 x) (- 1022) - 52)"

definition round_mag :: "rat \<Rightarrow> rat" where
  "round_mag x = of_int (round_even (x / ulp x)) * ulp x"

lemma ulp_pos [simp]: "0 < ulp x"
  by (simp add: ulp_def)

lemma ulp_scale: "pow2 (max (exponent2 x) (- 1022) + 1) = 2 ^ 53 * ulp x"
proof -
  have "pow2 (max (exponent2 x) (- 1022) + 1) = pow2 53 * ulp x"
    unfolding ulp_def by (simp only: pow2_add [symmetric]) (simp add: add.commute)
  then show ?thesis by (simp add: pow2_def)
qed

lemma round_mag_error: "\<bar>round_mag x - x\<bar> \<le> ulp x / 2"
proof -
  have "round_mag x - x = (of_int (round_even (x / ulp x)) - x / ulp x) * ulp x"
    using ulp_pos [of x] by (simp add: round_mag_def field_simps less_imp_neq [symmetric])
  then have "\<bar>round_mag x - x\<bar> = \<bar>of_int (round_even (x / ulp x)) - x / ulp x\<bar> * ulp x"
    using ulp_pos [of x] by (simp add: abs_mult del: ulp_pos)
  then show ?thesis using round_even_error [of "x / ulp x"] ulp_pos [of x]
    by (metis mult_right_mono less_imp_le mult.commute mult_1 times_divide_eq_right)
qed

lemma exponent2_mono:
  assumes "0 < x" "x \<le> y"
  shows "exponent2 x \<le> exponent2 y"
proof (rule ccontr)
  assume "\<not> ?thesis"
  then have "pow2 (exponent2 y + 1) \<le> pow2 (exponent2 x)" by (intro pow2_mono) simp
  then show False using exponent2_bounds [of x] exponent2_bounds [of y] assms by linarith
qed

lemma round_mag_upper:
  assumes "0 < x" "exponent2 x \<le> k" "- 1022 \<le> k"
  shows "round_mag x \<le> pow2 (k + 1)"
proof -
  let ?E = "max (exponent2 x) (- 1022)"
  have "x < pow2 (?E + 1)" using exponent2_bounds [OF assms(1)] pow2_mono [of "exponent2 x + 1" "?E + 1"] by simp
  also have "pow2 (?E + 1) = 2 ^ 53 * ulp x" by (rule ulp_scale)
  finally have "x / ulp x \<le> of_int (2 ^ 53)" by (simp add: pos_divide_le_eq less_imp_le)
  then have "round_even (x / ulp x) \<le> 2 ^ 53" using round_even_mono round_even_of_int by metis
  then have "round_mag x \<le> of_int (2 ^ 53) * ulp x" unfolding round_mag_def
    by (intro mult_right_mono) (simp_all only: of_int_le_iff, simp add: less_imp_le)
  also have "\<dots> = pow2 (?E + 1)" by (simp add: ulp_scale)
  also have "\<dots> \<le> pow2 (k + 1)" using assms by (intro pow2_mono) simp
  finally show ?thesis .
qed

lemma round_mag_lower:
  assumes "- 1022 \<le> k" "pow2 k \<le> x"
  shows "pow2 k \<le> round_mag x"
proof -
  have x: "0 < x" using assms(2) pow2_pos [of k] by linarith
  have k: "k \<le> exponent2 x"
  proof (rule ccontr)
    assume "\<not> k \<le> exponent2 x"
    then have "pow2 (exponent2 x + 1) \<le> pow2 k" by (intro pow2_mono) simp
    then show False using exponent2_bounds [OF x] assms(2) by linarith
  qed
  let ?E = "exponent2 x"
  have m: "max ?E (- 1022) = ?E" using k assms(1) by simp
  have e: "pow2 ?E = 2 ^ 52 * ulp x"
  proof -
    have "pow2 ?E = pow2 52 * ulp x" unfolding ulp_def m by (simp only: pow2_add [symmetric]) (simp add: add.commute)
    then show ?thesis by (simp add: pow2_def)
  qed
  have "of_int (2 ^ 52) \<le> x / ulp x" using exponent2_bounds [OF x] e by (simp add: pos_le_divide_eq)
  then have "2 ^ 52 \<le> round_even (x / ulp x)" using round_even_mono round_even_of_int by metis
  then have "of_int (2 ^ 52) * ulp x \<le> round_mag x" unfolding round_mag_def
    by (intro mult_right_mono) (simp_all only: of_int_le_iff, simp add: less_imp_le)
  then have "pow2 ?E \<le> round_mag x" using e by simp
  then show ?thesis using pow2_mono [OF k] by linarith
qed

lemma round_mag_mono:
  assumes "0 < x" "x \<le> y"
  shows "round_mag x \<le> round_mag y"
proof (cases "ulp x = ulp y")
  case True
  have "x / ulp x \<le> y / ulp x" using assms(2) by (simp add: divide_right_mono less_imp_le)
  then have "round_even (x / ulp x) \<le> round_even (y / ulp x)" by (rule round_even_mono)
  then show ?thesis unfolding round_mag_def True [symmetric] by (intro mult_right_mono) (simp_all add: less_imp_le)
next
  case False
  let ?k = "exponent2 y - 1"
  have "exponent2 x \<le> exponent2 y" using assms by (rule exponent2_mono)
  moreover have "max (exponent2 x) (- 1022) \<noteq> max (exponent2 y) (- 1022)" using False unfolding ulp_def by metis
  ultimately have lt: "exponent2 x \<le> ?k" "- 1022 \<le> ?k" by linarith+
  have "round_mag x \<le> pow2 (?k + 1)" using assms(1) lt by (rule round_mag_upper)
  also have "\<dots> \<le> round_mag y"
    by (rule round_mag_lower) (use lt exponent2_bounds [of y] assms in auto)
  finally show ?thesis .
qed

lemma round_mag_nonneg: "0 < x \<Longrightarrow> 0 \<le> round_mag x"
proof -
  assume "0 < x"
  then have "of_int 0 \<le> x / ulp x" by (simp add: less_imp_le)
  then have "0 \<le> round_even (x / ulp x)" using round_even_mono round_even_of_int by metis
  then show ?thesis by (simp add: round_mag_def less_imp_le)
qed

lemma pow2_1024: "pow2 1024 = pow2 1023 * 2"
  using pow2_add [of 1023 1] by simp

lemma round_mag_overflow:
  assumes "0 < x" "pow2 1024 \<le> round_mag x"
  shows "1023 \<le> exponent2 x"
proof (rule ccontr)
  assume "\<not> ?thesis"
  then have "round_mag x \<le> pow2 (1022 + 1)" by (intro round_mag_upper assms(1)) auto
  then show False using assms(2) pow2_1024 pow2_pos [of 1023] by simp
qed

lemma f64_round_pos:
  "0 < x \<Longrightarrow> f64_round x = (if pow2 1024 \<le> round_mag x then PInf else Fin (round_mag x))"
  using round_mag_overflow [of x]
  by (auto simp: f64_round_def Let_def ulp_def [symmetric] round_mag_def [symmetric])

lemma f64_round_neg:
  "0 < x \<Longrightarrow> f64_round (- x) = f64_neg (f64_round x)"
  using round_mag_overflow [of x] f64_round_pos [of x] round_mag_nonneg [of x]
  by (auto simp: f64_round_def Let_def ulp_def [symmetric] round_mag_def [symmetric])

lemma f64_le_neg: "f64_le (f64_neg a) (f64_neg b) \<longleftrightarrow> f64_le b a"
  by (cases a; cases b) (auto simp: f64_le_def)

lemma f64_round_mono: "p \<le> q \<Longrightarrow> f64_le (f64_round p) (f64_round q)"
proof -
  have pos: "f64_le (f64_round x) (f64_round y)" if "0 < x" "x \<le> y" for x y
    using round_mag_mono [OF that] that by (auto simp: f64_round_pos f64_le_def)
  have ge: "f64_le (Fin 0) (f64_round y)" if "0 \<le> y" for y
    using round_mag_nonneg [of y] f64_round_pos [of y] that
    by (cases "y = 0") (auto simp: f64_le_def f64_round_def)
  have le: "f64_le (f64_round (- x)) (Fin 0)" if "0 < x" for x
    using round_mag_nonneg [OF that] f64_round_pos [OF that] f64_round_neg [OF that] by (auto simp: f64_le_def)
  have trans: "f64_le a c" if "f64_le a (Fin 0)" "f64_le (Fin 0) c" for a c
    using that by (cases a; cases c) (auto simp: f64_le_def)
  assume pq: "p \<le> q"
  consider "0 < p" | "p = 0" | "p < 0" "0 \<le> q" | "p < 0" "q < 0" by linarith
  then show ?thesis
  proof cases
    case 1
    then show ?thesis using pos pq by blast
  next
    case 2
    then show ?thesis using ge [of q] pq by (simp add: f64_round_def)
  next
    case 3
    then show ?thesis using le [of "- p"] ge [of q] trans by simp
  next
    case 4
    then have "f64_le (f64_round (- q)) (f64_round (- p))" using pos [of "- q" "- p"] pq by simp
    then show ?thesis using f64_round_neg [of "- p"] f64_round_neg [of "- q"] 4 f64_le_neg by simp
  qed
qed

lemma f64_round_close:
  assumes "\<bar>x\<bar> < pow2 k" "- 1021 \<le> k" "k \<le> 1023"
  shows "is_finite (f64_round x) \<and> \<bar>f64_val (f64_round x) - x\<bar> \<le> pow2 (k - 54)"
proof -
  have pos: "is_finite (f64_round x) \<and> \<bar>f64_val (f64_round x) - x\<bar> \<le> pow2 (k - 54)" if "0 < x" "x < pow2 k" for x
  proof -
    have ek: "exponent2 x \<le> k - 1"
    proof (rule ccontr)
      assume "\<not> ?thesis"
      then have "pow2 k \<le> pow2 (exponent2 x)" by (intro pow2_mono) simp
      then show False using exponent2_bounds [OF that(1)] that(2) by linarith
    qed
    have "round_mag x \<le> pow2 (k - 1 + 1)" using that(1) ek assms(2) by (intro round_mag_upper) auto
    moreover have "pow2 k < pow2 1024"
    proof -
      have "pow2 k \<le> pow2 1023" using assms(3) by (rule pow2_mono)
      then show ?thesis using pow2_1024 pow2_pos [of 1023] by linarith
    qed
    ultimately have f: "f64_round x = Fin (round_mag x)" using that(1) by (simp add: f64_round_pos)
    have "ulp x \<le> pow2 (k - 53)" unfolding ulp_def using ek assms(2) by (intro pow2_mono) simp
    moreover have "pow2 (k - 53) = pow2 (k - 54) * pow2 1" by (simp only: pow2_add [symmetric]) simp
    ultimately have "ulp x / 2 \<le> pow2 (k - 54)" by simp
    then show ?thesis using f round_mag_error [of x] by simp
  qed
  consider "x = 0" | "0 < x" | "x < 0" by linarith
  then show ?thesis
  proof cases
    case 1
    then show ?thesis by (simp add: f64_round_def less_imp_le)
  next
    case 2
    then show ?thesis using pos assms by simp
  next
    case 3
    then have p: "is_finite (f64_round (- x)) \<and> \<bar>f64_val (f64_round (- x)) - (- x)\<bar> \<le> pow2 (k - 54)"
      using pos [of "- x"] assms by simp
    have n: "f64_round x = f64_neg (f64_round (- x))" using f64_round_neg [of "- x"] 3 by simp
    show ?thesis using p unfolding n by (cases "f64_round (- x)") (auto simp: abs_minus_commute)
  qed
qed

section \<open>Subtraction and comparison of finite values\<close>

lemma f64_lt_finite: "is_finite a \<Longrightarrow> is_finite b \<Longrightarrow> f64_lt a b \<longleftrightarrow> f64_val a < f64_val b"
  by (cases a; cases b) auto

lemma f64_le_finite: "is_finite a \<Longrightarrow> is_finite b \<Longrightarrow> f64_le a b \<longleftrightarrow> f64_val a \<le> f64_val b"
  by (cases a; cases b) (auto simp: f64_le_def)

lemma f64_sub_finite:
  assumes "is_finite a" "is_finite b"
  shows "f64_sub a b = f64_round (f64_val a - f64_val b)
    \<or> is_finite (f64_sub a b) \<and> f64_val (f64_sub a b) = f64_val a - f64_val b"
  using assms by (cases a; cases b) (auto simp: f64_sub_def)

lemma f64_sub_close:
  assumes "is_finite a" "is_finite b" "\<bar>f64_val a - f64_val b\<bar> < pow2 k" "- 1021 \<le> k" "k \<le> 1023"
  shows "is_finite (f64_sub a b) \<and> \<bar>f64_val (f64_sub a b) - (f64_val a - f64_val b)\<bar> \<le> pow2 (k - 54)"
  using f64_sub_finite [OF assms(1,2)] f64_round_close [OF assms(3-5)] pow2_pos [of "k - 54"]
  by (auto simp: less_imp_le simp del: pow2_pos)

lemma f64_sub_lower:
  assumes "is_finite a" "is_finite b" "q \<le> f64_val a - f64_val b" "f64_round q = Fin q"
    and "is_finite (f64_sub a b)"
  shows "q \<le> f64_val (f64_sub a b)"
  using f64_sub_finite [OF assms(1,2)] f64_round_mono [OF assms(3)] assms(3-5)
    f64_le_finite [of "Fin q" "f64_sub a b"] by auto

lemma f64_sub_upper:
  assumes "is_finite a" "is_finite b" "f64_val a - f64_val b \<le> q" "f64_round q = Fin q"
    and "is_finite (f64_sub a b)"
  shows "f64_val (f64_sub a b) \<le> q"
  using f64_sub_finite [OF assms(1,2)] f64_round_mono [OF assms(3)] assms(3-5)
    f64_le_finite [of "f64_sub a b" "Fin q"] by auto

end
