(* ===== verification/Serde_Json.thy ===== *)
theory Serde_Json
  imports F64 "HOL-Library.AList" "HOL-Library.Countable"
begin

text \<open>
  JSON documents and the deserialisation that \<open>#[derive(Deserialize)]\<close> gives the structs of the
  sources. The text layer of \<open>serde_json\<close> (\<open>to_vec\<close>, \<open>from_slice\<close>) is not part of the
  repository: it is a parameter of every definition that uses it, and \<open>serde_json_spec\<close> states
  what the sources rely on. A \<open>HashMap\<close> is an association list with distinct keys; an object keeps
  its members in document order, duplicates included.
\<close>

section \<open>Documents\<close>

type_synonym bytes = string

datatype json = JNull | JBool bool | JInt int | JFloat f64 | JStr string
  | JArr "json list" | JObj "(string \<times> json) list"

type_synonym to_vec = "json \<Rightarrow> bytes"
type_synonym from_slice = "bytes \<Rightarrow> json option"

text \<open>The values \<open>serde_json::Value\<close> can hold: finite floats, integers of \<open>i64\<close> or \<open>u64\<close>.\<close>

fun json_ok :: "json \<Rightarrow> bool" where
  "json_ok (JInt i) = (- (2 ^ 63) \<le> i \<and> i < 2 ^ 64)"
| "json_ok (JFloat x) = is_finite x"
| "json_ok (JArr vs) = (\<forall>v\<in>set vs. json_ok v)"
| "json_ok (JObj kvs) = (\<forall>kv\<in>set kvs. json_ok (snd kv))"
| "json_ok _ = True"

fun map_floats :: "(f64 \<Rightarrow> f64) \<Rightarrow> json \<Rightarrow> json" where
  "map_floats f (JFloat x) = JFloat (f x)"
| "map_floats f (JArr vs) = JArr (map (map_floats f) vs)"
| "map_floats f (JObj kvs) = JObj (map (\<lambda>(k, v). (k, map_floats f v)) kvs)"
| "map_floats f v = v"

text \<open>
  What is relied on: printing a value gives some text, and parsing that text gives the value back,
  except that a float may come back as the neighbour the parser's best-effort mode finds
  (\<open>reread\<close>); parsing yields finite numbers only.
\<close>

definition serde_json_spec :: "to_vec \<Rightarrow> from_slice \<Rightarrow> (f64 \<Rightarrow> f64) \<Rightarrow> bool" where
  "serde_json_spec to_vec from_slice reread \<longleftrightarrow>
     (\<forall>v. json_ok v \<longrightarrow> to_vec v \<noteq> [] \<and> from_slice (to_vec v) = Some (map_floats reread v))
     \<and> (\<forall>x. is_finite x \<longrightarrow> is_finite (reread x))"

text \<open>\<open>Value::from(f64)\<close>: a non-finite number has no JSON form and becomes \<open>null\<close>.\<close>

definition json_of_f64 :: "f64 \<Rightarrow> json" where
  "json_of_f64 x = (if is_finite x then JFloat x else JNull)"

text \<open>\<open>serde_json::Map\<close> is a \<open>BTreeMap\<close>: members in key order.\<close>

definition btree_map :: "(string \<times> json) list \<Rightarrow> (string \<times> json) list" where
  "btree_map kvs = sort_key fst kvs"

section \<open>Derived deserialisation\<close>

text \<open>
  A derived struct visitor: from an object it takes the declared fields (a repeated declared field
  is an error, an undeclared one is skipped); from an array it takes the fields by position, and
  more elements than fields are an error.
\<close>

definition struct_fields :: "string list \<Rightarrow> json \<Rightarrow> (string \<rightharpoonup> json) option" where
  "struct_fields names j =
     (case j of
        JObj kvs \<Rightarrow> (let known = filter (\<lambda>kv. fst kv \<in> set names) kvs in
           if distinct (map fst known) then Some (map_of known) else None)
      | JArr vs \<Rightarrow> if length vs \<le> length names then Some (map_of (zip names vs)) else None
      | _ \<Rightarrow> None)"

fun de_string :: "json \<Rightarrow> string option" where
  "de_string (JStr s) = Some s" | "de_string _ = None"

fun de_f64 :: "json \<Rightarrow> f64 option" where
  "de_f64 (JFloat x) = Some x" | "de_f64 (JInt i) = Some (f64_round (of_int i))" | "de_f64 _ = None"

definition de_uint :: "nat \<Rightarrow> json \<Rightarrow> nat option" where
  "de_uint w j = (case j of JInt i \<Rightarrow> if 0 \<le> i \<and> i < 2 ^ w then Some (nat i) else None | _ \<Rightarrow> None)"

definition de_option :: "(json \<Rightarrow> 'a option) \<Rightarrow> json \<Rightarrow> 'a option option" where
  "de_option f j = (case j of JNull \<Rightarrow> Some None | _ \<Rightarrow> map_option Some (f j))"

fun sequence :: "'a option list \<Rightarrow> 'a list option" where
  "sequence [] = Some []"
| "sequence (x # xs) = Option.bind x (\<lambda>y. map_option (Cons y) (sequence xs))"

definition de_vec :: "(json \<Rightarrow> 'a option) \<Rightarrow> json \<Rightarrow> 'a list option" where
  "de_vec f j = (case j of JArr vs \<Rightarrow> sequence (map f vs) | _ \<Rightarrow> None)"

text \<open>A \<open>HashMap\<close>: every value must decode; a repeated key keeps the last value.\<close>

definition hash_map_of :: "('k \<times> 'v) list \<Rightarrow> ('k \<times> 'v) list" where
  "hash_map_of kvs = fold (\<lambda>(k, v) m. AList.update k v m) kvs []"

definition de_hash_map :: "(json \<Rightarrow> 'a option) \<Rightarrow> json \<Rightarrow> (string \<times> 'a) list option" where
  "de_hash_map f j = (case j of
     JObj kvs \<Rightarrow> map_option hash_map_of (sequence (map (\<lambda>(k, v). map_option (Pair k) (f v)) kvs))
   | _ \<Rightarrow> None)"

text \<open>A required field, and a field with \<open>#[serde(default)]\<close>.\<close>

definition required :: "(string \<rightharpoonup> json) \<Rightarrow> string \<Rightarrow> (json \<Rightarrow> 'a option) \<Rightarrow> 'a option" where
  "required fs k f = Option.bind (fs k) f"

definition defaulted :: "(string \<rightharpoonup> json) \<Rightarrow> string \<Rightarrow> 'a \<Rightarrow> (json \<Rightarrow> 'a option) \<Rightarrow> 'a option" where
  "defaulted fs k d f = (case fs k of None \<Rightarrow> Some d | Some v \<Rightarrow> f v)"

section \<open>Facts\<close>

lemma sequence_map_Some [simp]: "sequence (map (\<lambda>x. Some (g x)) xs) = Some (map g xs)"
  by (induction xs) auto

lemma sequence_eq_Some: "sequence xs = Some ys \<longleftrightarrow> list_all2 (\<lambda>x y. x = Some y) xs ys"
  by (induction xs arbitrary: ys) (auto simp: bind_eq_Some_conv list_all2_Cons1)

lemma fold_update_distinct:
  "distinct (map fst m) \<Longrightarrow> distinct (map fst (fold (\<lambda>(k, v) m. AList.update k v m) kvs m))"
  by (induction kvs arbitrary: m) (auto simp: distinct_update)

lemma fold_update_map_of:
  "map_of (fold (\<lambda>(k, v) m. AList.update k v m) kvs m) = map_of m ++ map_of (rev kvs)"
proof (induction kvs arbitrary: m)
  case (Cons kv kvs)
  obtain k v where kv: "kv = (k, v)" by fastforce
  show ?case unfolding kv using Cons [of "AList.update k v m"]
    by (simp add: update_conv' map_add_def fun_eq_iff split: option.splits)
qed simp

lemma distinct_hash_map_of [simp, alist_simps]: "distinct (map fst (hash_map_of kvs))"
  by (simp add: hash_map_of_def fold_update_distinct)

lemma map_of_hash_map_of [alist_simps]: "map_of (hash_map_of kvs) = map_of (rev kvs)"
  by (simp add: hash_map_of_def fold_update_map_of)

lemma map_of_rev_distinct: "distinct (map fst kvs) \<Longrightarrow> map_of (rev kvs) = map_of kvs"
  by (intro map_of_inject_set [THEN iffD2]) (auto simp: rev_map [symmetric])

lemma set_btree_map [simp]: "set (btree_map kvs) = set kvs"
  by (simp add: btree_map_def)

lemma distinct_btree_map [simp]: "distinct (map fst (btree_map kvs)) = distinct (map fst kvs)"
  unfolding btree_map_def by (metis distinct_map distinct_sort set_sort)

lemma map_of_btree_map [alist_simps]:
  "distinct (map fst kvs) \<Longrightarrow> map_of (btree_map kvs) = map_of kvs"
  by (intro map_of_inject_set [THEN iffD2]) auto

lemma map_floats_id [simp]: "map_floats (\<lambda>x. x) v = v"
  by (induction v) (auto intro!: map_idI)

instance f64 :: countable
  by countable_datatype

instance json :: countable
  by countable_datatype

text \<open>A printer and a parser for which \<open>serde_json_spec\<close> holds: the value's number in unary.\<close>

definition unary_to_vec :: to_vec where
  "unary_to_vec v = replicate (Suc (to_nat v)) (CHR ''1'')"

definition unary_from_slice :: from_slice where
  "unary_from_slice bs = Some (from_nat (length bs - 1))"

lemma serde_json_spec_unary: "serde_json_spec unary_to_vec unary_from_slice (\<lambda>x. x)"
  by (simp add: serde_json_spec_def unary_to_vec_def unary_from_slice_def)

lemma unary_to_vec_roundtrip [simp]: "unary_from_slice (unary_to_vec v) = Some v" "unary_to_vec v \<noteq> []"
  by (simp_all add: unary_to_vec_def unary_from_slice_def)

end
