(* ===== verification/Griot_Errors.thy ===== *)
theory Griot_Errors
  imports F64
begin

text \<open>
  The error types that cross component boundaries: \<open>EngineError\<close> (\<open>src/src/lib.rs\<close>),
  \<open>PhysicalError\<close> (\<open>src/src/physical/mod.rs\<close>) and, of DataFusion's own error type, the variants
  the sources build or pass on. A message built by the sources is modelled as text; the text of an
  error that comes out of a third-party library is left out of it. \<open>DfExternalPhysical e\<close> is the
  external error an operator wraps around a physical error (its text is the operator's name and the
  text of \<open>e\<close>).
\<close>

datatype physical_error =
    ContractNotApproved (operator: string)
  | MissingInnerPlan
  | MissingContractReference
  | ContractBundleMalformed string
  | UnknownMaskPolicy string string
  | MaskTypeUnsupported string string
  | InvalidDpParameters string f64 f64
  | DpTypeUnsupported string string
  | BudgetExhausted string string
  | AttestationSerializationFailed string
  | PhysDataFusion df_error
  | PhysInternal string
and df_error =
    DfPlan string
  | DfExternal string
  | DfExternalPhysical physical_error
  | DfInternal string
  | DfOther string

datatype engine_error =
    UnsafeDdlRejected string
  | NoContractBundle
  | InvalidConfig string
  | EngineDataFusion df_error
  | LanceRegistration string string
  | StoragedUnavailable string
  | EngineInternal string

section \<open>Formatting\<close>

definition quoted :: "string \<Rightarrow> string" where
  "quoted s = CHR 0x27 # s @ [CHR 0x27]"

definition hex_digit :: "nat \<Rightarrow> char" where
  "hex_digit n = (if n < 10 then char_of (48 + n) else char_of (87 + n))"

text \<open>The \<open>Debug\<close> form of a string; bytes of multi-byte chars are printed as they are.\<close>

definition debug_char :: "char \<Rightarrow> string" where
  "debug_char c = (let n = code c in
     if n = 0 then [CHR 0x5C, CHR ''0''] else if n = 9 then [CHR 0x5C, CHR ''t'']
     else if n = 10 then [CHR 0x5C, CHR ''n''] else if n = 13 then [CHR 0x5C, CHR ''r'']
     else if n = 34 \<or> n = 92 then [CHR 0x5C, c]
     else if n < 32 \<or> n = 127 then
       CHR 0x5C # ''u{'' @ (if n < 16 then [hex_digit n] else [hex_digit (n div 16), hex_digit (n mod 16)]) @ ''}''
     else [c])"

definition debug_str :: "string \<Rightarrow> string" where
  "debug_str s = CHR 0x22 # concat (map debug_char s) @ [CHR 0x22]"

fun join :: "string \<Rightarrow> string list \<Rightarrow> string" where
  "join sep [] = []" | "join sep [x] = x" | "join sep (x # xs) = x @ sep @ join sep xs"

definition debug_strs :: "string list \<Rightarrow> string" where
  "debug_strs xs = ''['' @ join '', '' (map debug_str xs) @ '']''"

text \<open>Decimal form of an unsigned integer (\<open>Display\<close>).\<close>

fun show_nat :: "nat \<Rightarrow> string" where
  "show_nat n = (if n < 10 then [char_of (48 + n)] else show_nat (n div 10) @ [char_of (48 + n mod 10)])"

declare show_nat.simps [simp del]

end
