(* ===== verification/Policy.thy ===== *)
theory Policy
  imports Serde_Json Griot_Errors
begin

text \<open>
  \<open>src/src/policy.rs\<close>: mask actions, access decisions and the resolved policy with its
  serialisation into the bundle the physical operators parse; the opaque
  \<open>ContractBundleHandle\<close> of \<open>src/src/lib.rs\<close>; the \<open>MaskPolicy\<close> vocabulary of
  \<open>src/src/optimizer_rules/masking.rs\<close>, which both mask layers share.
\<close>

section \<open>Model\<close>

datatype mask_action = Redact | HashSha256 | Tokenize | Partial | Null | Noop

datatype policy_error = UnknownMaskAction string

fun as_bundle_str :: "mask_action \<Rightarrow> string" where
  "as_bundle_str Redact = ''redact''"
| "as_bundle_str HashSha256 = ''hash_sha256''"
| "as_bundle_str Tokenize = ''tokenize''"
| "as_bundle_str Partial = ''partial''"
| "as_bundle_str Null = ''null''"
| "as_bundle_str Noop = ''noop''"

definition parse_mask_action :: "string \<Rightarrow> policy_error + mask_action" where
  "parse_mask_action s = (let t = to_ascii_lowercase s in
     if t = ''redact'' then Inr Redact
     else if t = ''hash_sha256'' \<or> t = ''hash'' then Inr HashSha256
     else if t = ''tokenize'' then Inr Tokenize
     else if t = ''partial'' then Inr Partial
     else if t = ''null'' then Inr Null
     else if t = ''noop'' \<or> t = ''none'' then Inr Noop
     else Inl (UnknownMaskAction t))"

record dp_param =
  sensitivity :: f64
  epsilon :: f64

datatype decision = Allow | Deny (reason: string)

record resolved_policy =
  contract_id :: string
  contract_version :: string
  policy_tenant :: string
  decision :: decision
  column_masks :: "(string \<times> mask_action) list"
  row_filter :: "string option"
  dp_columns :: "(string \<times> dp_param) list"

definition allow_all :: "string \<Rightarrow> string \<Rightarrow> string \<Rightarrow> resolved_policy" where
  "allow_all cid version tenant = \<lparr>contract_id = cid, contract_version = version, policy_tenant = tenant,
     decision = Allow, column_masks = [], row_filter = None, dp_columns = []\<rparr>"

definition is_allowed :: "resolved_policy \<Rightarrow> bool" where
  "is_allowed p \<longleftrightarrow> (case decision p of Allow \<Rightarrow> True | Deny _ \<Rightarrow> False)"

definition has_dp :: "resolved_policy \<Rightarrow> bool" where
  "has_dp p \<longleftrightarrow> dp_columns p \<noteq> []"

definition bundle_json :: "resolved_policy \<Rightarrow> json" where
  "bundle_json p =
     (let column_masking = btree_map (map (\<lambda>(col, action). (col, JStr (as_bundle_str action)))
            (filter (\<lambda>(_, action). action \<noteq> Noop) (column_masks p)));
          dp = btree_map (map (\<lambda>(col, d). (col, JObj (btree_map
            [(''sensitivity'', json_of_f64 (sensitivity d)), (''epsilon'', json_of_f64 (epsilon d))]))) (dp_columns p))
      in JObj (btree_map
           [(''contract_id'', JStr (contract_id p)),
            (''contract_version'', JStr (contract_version p)),
            (''column_masking'', JObj column_masking),
            (''row_filter'', (case row_filter p of None \<Rightarrow> JNull | Some f \<Rightarrow> JStr f)),
            (''dp_columns'', JObj dp)]))"

definition to_bundle_bytes :: "to_vec \<Rightarrow> resolved_policy \<Rightarrow> bytes" where
  "to_bundle_bytes to_vec p = to_vec (bundle_json p)"

text \<open>The handle; its \<open>handle_id\<close> is the UUID drawn when it is made.\<close>

record contract_bundle_handle =
  handle_id :: nat
  raw_bytes :: bytes
  bundle_contract_id :: string
  bundle_tenant_id :: string

definition from_x02_bytes :: "nat \<Rightarrow> string \<Rightarrow> string \<Rightarrow> bytes \<Rightarrow> contract_bundle_handle" where
  "from_x02_bytes uuid cid tenant raw = \<lparr>handle_id = uuid, raw_bytes = raw,
     bundle_contract_id = cid, bundle_tenant_id = tenant\<rparr>"

definition to_bundle_handle :: "to_vec \<Rightarrow> nat \<Rightarrow> resolved_policy \<Rightarrow> contract_bundle_handle" where
  "to_bundle_handle to_vec uuid p =
     from_x02_bytes uuid (contract_id p) (policy_tenant p) (to_bundle_bytes to_vec p)"

text \<open>The policies of the mask layers, and the lenient label parser of the logical rule.\<close>

datatype mask_policy = PRedact | PHashSha256 | PPartial | PNull | PNoop | PTokenize

definition from_bundle_str :: "string \<Rightarrow> mask_policy" where
  "from_bundle_str s =
     (if s = ''redact'' then PRedact
      else if s = ''hash_sha256'' then PHashSha256
      else if s = ''partial'' then PPartial
      else if s = ''null'' then PNull
      else if s = ''tokenize'' then PTokenize
      else PNoop)"

fun policy_of_action :: "mask_action \<Rightarrow> mask_policy" where
  "policy_of_action Redact = PRedact" | "policy_of_action HashSha256 = PHashSha256"
| "policy_of_action Tokenize = PTokenize" | "policy_of_action Partial = PPartial"
| "policy_of_action Null = PNull" | "policy_of_action Noop = PNoop"

section \<open>Mask actions\<close>

lemma lower_bundle_str [simp]: "to_ascii_lowercase (as_bundle_str a) = as_bundle_str a"
  by (cases a) (simp_all add: to_ascii_lowercase_def ascii_lower_def)

lemma ascii_lower_upper [simp]: "ascii_lower (ascii_upper c) = ascii_lower c"
  by (auto simp: ascii_lower_def ascii_upper_def)

lemma ascii_lower_idem [simp]: "ascii_lower (ascii_lower c) = ascii_lower c"
  by (auto simp: ascii_lower_def)

text \<open>
  A mask token printed by the policy parses back to the same action, in lower or upper case,
  and a string that parses at all has, lower-cased, the token of its action or one of the two
  documented aliases; every other string is an error that names it.
\<close>

theorem mask_action_roundtrip:
  "parse_mask_action (as_bundle_str a) = Inr a
   \<and> parse_mask_action (to_ascii_uppercase (as_bundle_str a)) = Inr a
   \<and> (case parse_mask_action s of
        Inr b \<Rightarrow> to_ascii_lowercase s = as_bundle_str b
          \<or> (b = HashSha256 \<and> to_ascii_lowercase s = ''hash'') \<or> (b = Noop \<and> to_ascii_lowercase s = ''none'')
      | Inl e \<Rightarrow> e = UnknownMaskAction (to_ascii_lowercase s))"
proof (intro conjI)
  have u: "to_ascii_lowercase (to_ascii_uppercase t) = to_ascii_lowercase t" for t
    by (simp add: to_ascii_lowercase_def to_ascii_uppercase_def)
  show "parse_mask_action (as_bundle_str a) = Inr a"
    by (cases a) (simp_all add: parse_mask_action_def Let_def to_ascii_lowercase_def ascii_lower_def)
  then show "parse_mask_action (to_ascii_uppercase (as_bundle_str a)) = Inr a"
    by (simp add: parse_mask_action_def u)
  show "case parse_mask_action s of
        Inr b \<Rightarrow> to_ascii_lowercase s = as_bundle_str b
          \<or> (b = HashSha256 \<and> to_ascii_lowercase s = ''hash'') \<or> (b = Noop \<and> to_ascii_lowercase s = ''none'')
      | Inl e \<Rightarrow> e = UnknownMaskAction (to_ascii_lowercase s)"
    by (simp add: parse_mask_action_def Let_def)
qed

lemma allow_all_simps [simp]:
  "is_allowed (allow_all c v t)" "\<not> has_dp (allow_all c v t)" "column_masks (allow_all c v t) = []"
  "row_filter (allow_all c v t) = None" "decision (allow_all c v t) = Allow"
  by (simp_all add: allow_all_def is_allowed_def has_dp_def)

section \<open>The bundle document\<close>

lemma bundle_fields:
  "\<exists>kvs. bundle_json p = JObj kvs \<and> distinct (map fst kvs)
     \<and> map_of kvs ''contract_id'' = Some (JStr (contract_id p))
     \<and> map_of kvs ''contract_version'' = Some (JStr (contract_version p))
     \<and> map_of kvs ''row_filter'' = Some (case row_filter p of None \<Rightarrow> JNull | Some f \<Rightarrow> JStr f)
     \<and> map_of kvs ''column_masking'' = Some (JObj (btree_map (map (\<lambda>(col, action). (col, JStr (as_bundle_str action)))
            (filter (\<lambda>(_, action). action \<noteq> Noop) (column_masks p)))))
     \<and> map_of kvs ''dp_columns'' = Some (JObj (btree_map (map (\<lambda>(col, d). (col, JObj (btree_map
            [(''sensitivity'', json_of_f64 (sensitivity d)), (''epsilon'', json_of_f64 (epsilon d))]))) (dp_columns p))))"
  by (simp add: bundle_json_def Let_def map_of_btree_map)

lemma json_ok_bundle [simp]: "json_ok (bundle_json p)"
  by (auto simp: bundle_json_def Let_def json_of_f64_def split: option.splits if_splits)

text \<open>What an operator reads back from the bundle: the same members, floats as the parser returns them.\<close>

lemma map_of_map_values: "map_of (map (\<lambda>(k, v). (k, f v)) kvs) k = map_option f (map_of kvs k)"
  by (induction kvs) auto

lemma bundle_reread:
  assumes "serde_json_spec to_vec from_slice rr"
  shows "\<exists>kvs. from_slice (to_bundle_bytes to_vec p) = Some (JObj kvs) \<and> to_bundle_bytes to_vec p \<noteq> []
     \<and> distinct (map fst kvs) \<and> (\<forall>k. map_of kvs k = map_option (map_floats rr)
         (case bundle_json p of JObj m \<Rightarrow> map_of m k | _ \<Rightarrow> None))"
proof -
  obtain m where m: "bundle_json p = JObj m" "distinct (map fst m)" using bundle_fields by metis
  have "from_slice (to_bundle_bytes to_vec p) = Some (map_floats rr (bundle_json p)) \<and> to_bundle_bytes to_vec p \<noteq> []"
    using assms json_ok_bundle [of p] by (auto simp: serde_json_spec_def to_bundle_bytes_def)
  then show ?thesis using m by (auto simp: map_of_map_values comp_def case_prod_beta)
qed

lemma bundle_reread_fields:
  assumes "serde_json_spec to_vec from_slice rr"
  obtains kvs where "from_slice (to_bundle_bytes to_vec p) = Some (JObj kvs)" "to_bundle_bytes to_vec p \<noteq> []"
    "distinct (map fst kvs)"
    "map_of kvs ''contract_version'' = Some (JStr (contract_version p))"
    "map_of kvs ''row_filter'' = Some (case row_filter p of None \<Rightarrow> JNull | Some f \<Rightarrow> JStr f)"
    "map_of kvs ''column_masking'' = Some (map_floats rr (JObj (btree_map (map (\<lambda>(col, action). (col, JStr (as_bundle_str action)))
       (filter (\<lambda>(_, action). action \<noteq> Noop) (column_masks p))))))"
    "map_of kvs ''dp_columns'' = Some (map_floats rr (JObj (btree_map (map (\<lambda>(col, d). (col, JObj (btree_map
       [(''sensitivity'', json_of_f64 (sensitivity d)), (''epsilon'', json_of_f64 (epsilon d))]))) (dp_columns p)))))"
proof -
  obtain m where m: "bundle_json p = JObj m"
    "map_of m ''contract_version'' = Some (JStr (contract_version p))"
    "map_of m ''row_filter'' = Some (case row_filter p of None \<Rightarrow> JNull | Some f \<Rightarrow> JStr f)"
    "map_of m ''column_masking'' = Some (JObj (btree_map (map (\<lambda>(col, action). (col, JStr (as_bundle_str action)))
            (filter (\<lambda>(_, action). action \<noteq> Noop) (column_masks p)))))"
    "map_of m ''dp_columns'' = Some (JObj (btree_map (map (\<lambda>(col, d). (col, JObj (btree_map
            [(''sensitivity'', json_of_f64 (sensitivity d)), (''epsilon'', json_of_f64 (epsilon d))]))) (dp_columns p))))"
    using bundle_fields [of p] by blast
  obtain kvs where k: "from_slice (to_bundle_bytes to_vec p) = Some (JObj kvs)" "to_bundle_bytes to_vec p \<noteq> []"
    "distinct (map fst kvs)" "\<And>k. map_of kvs k = map_option (map_floats rr) (map_of m k)"
    using bundle_reread [OF assms, of p] unfolding m(1) by auto
  show thesis by (rule that [OF k(1-3)]) (unfold k(4) m(2-5), simp_all split: option.splits)
qed

text \<open>A declared field of an object with distinct keys.\<close>

lemma struct_fields_obj:
  assumes "distinct (map fst kvs)"
  shows "\<exists>fs. struct_fields names (JObj kvs) = Some fs \<and> (\<forall>k\<in>set names. fs k = map_of kvs k)"
proof -
  have "distinct (map fst (filter (\<lambda>kv. fst kv \<in> set names) kvs))"
    using assms by (simp add: distinct_map_filter)
  moreover have "map_of (filter (\<lambda>kv. fst kv \<in> set names) kvs) k = map_of kvs k" if "k \<in> set names" for k
    using that by (induction kvs) auto
  ultimately show ?thesis by (simp add: struct_fields_def)
qed

end
