(* ===== verification/Privacy_Budget.thy ===== *)
theory Privacy_Budget
  imports F64 "HOL-Library.AList"
begin

text \<open>
  \<open>PrivacyBudgetTracker\<close> of \<open>src/src/optimizer_rules/dp_noise.rs\<close>: the per-(tenant, column)
  epsilon budgets that both noise layers debit. The mutex-protected map is the tracker's state;
  \<open>consume\<close> returns its result and the new tracker.
\<close>

section \<open>Model\<close>

type_synonym budget_key = "string \<times> string"

record privacy_budget_tracker =
  enabled :: bool
  budgets :: "(budget_key \<times> f64) list"

definition new_tracker :: privacy_budget_tracker where
  "new_tracker = \<lparr>enabled = False, budgets = []\<rparr>"

definition with_enforcement :: "bool \<Rightarrow> (budget_key \<times> f64) list \<Rightarrow> privacy_budget_tracker" where
  "with_enforcement enforce initial_budgets = \<lparr>enabled = enforce, budgets = initial_budgets\<rparr>"

definition is_enabled :: "privacy_budget_tracker \<Rightarrow> bool" where
  "is_enabled t = enabled t"

text \<open>The stored value of a key; a key that was never seeded reads as 0.\<close>

definition stored :: "privacy_budget_tracker \<Rightarrow> budget_key \<Rightarrow> f64" where
  "stored t key = (case map_of (budgets t) key of None \<Rightarrow> Fin 0 | Some r \<Rightarrow> r)"

definition consume :: "privacy_budget_tracker \<Rightarrow> string \<Rightarrow> string \<Rightarrow> f64 \<Rightarrow> (f64 + unit) \<times> privacy_budget_tracker" where
  "consume t tenant_id column eps =
     (if \<not> enabled t then (Inr (), t)
      else let key = (tenant_id, column); remaining = stored t key in
        if f64_lt remaining (f64_sub eps f64_EPSILON) then (Inl remaining, t)
        else (Inr (), t\<lparr>budgets := AList.update key (f64_sub remaining eps) (budgets t)\<rparr>))"

definition remaining :: "privacy_budget_tracker \<Rightarrow> string \<Rightarrow> string \<Rightarrow> f64" where
  "remaining t tenant_id column = (if \<not> enabled t then PInf else stored t (tenant_id, column))"

text \<open>A sequence of calls: the granted requests, in order, and the tracker after them.\<close>

fun consume_all :: "privacy_budget_tracker \<Rightarrow> (budget_key \<times> f64) list \<Rightarrow> (budget_key \<times> f64) list \<times> privacy_budget_tracker" where
  "consume_all t [] = ([], t)"
| "consume_all t (((tid, col), eps) # reqs) =
     (case consume t tid col eps of
        (Inl _, t') \<Rightarrow> consume_all t' reqs
      | (Inr _, t') \<Rightarrow> (case consume_all t' reqs of (gs, t'') \<Rightarrow> (((tid, col), eps) # gs, t'')))"

section \<open>One call\<close>

lemma stored_update [simp]:
  "stored (t\<lparr>budgets := AList.update key r (budgets t)\<rparr>) key' = (if key' = key then r else stored t key')"
  by (simp add: stored_def update_conv')

lemma unseeded: "map_of (budgets t) key = None \<Longrightarrow> stored t key = Fin 0"
  by (simp add: stored_def)

lemma consume_cases:
  obtains (disabled) "\<not> enabled t" "consume t tid col eps = (Inr (), t)"
    | (refused) "enabled t" "f64_lt (stored t (tid, col)) (f64_sub eps f64_EPSILON)"
        "consume t tid col eps = (Inl (stored t (tid, col)), t)"
    | (granted) "enabled t" "\<not> f64_lt (stored t (tid, col)) (f64_sub eps f64_EPSILON)"
        "consume t tid col eps = (Inr (), t\<lparr>budgets :=
           AList.update (tid, col) (f64_sub (stored t (tid, col)) eps) (budgets t)\<rparr>)"
  by (cases "enabled t"; cases "f64_lt (stored t (tid, col)) (f64_sub eps f64_EPSILON)")
     (auto simp: consume_def Let_def)

lemma eps_const: "f64_EPSILON = Fin (pow2 (- 52))"
  by (simp add: f64_EPSILON_def pow2_def)

lemma round_two_eps: "f64_round (- (2 * pow2 (- 52))) = Fin (- (2 * pow2 (- 52)))"
  by code_simp

text \<open>A grant of less than 4 leaves at least minus two units of \<open>f64::EPSILON\<close>.\<close>

lemma granted_floor:
  assumes "is_finite r" "is_finite eps" "0 < f64_val eps" "f64_val eps < 4"
    and "\<not> f64_lt r (f64_sub eps f64_EPSILON)"
  shows "- (2 * pow2 (- 52)) \<le> f64_val r - f64_val eps"
proof -
  have fe: "is_finite f64_EPSILON" "f64_val f64_EPSILON = pow2 (- 52)" by (simp_all add: eps_const)
  have p: "pow2 (- 52) < 1" by (simp add: pow2_def)
  have "\<bar>f64_val eps - f64_val f64_EPSILON\<bar> < pow2 2"
    using assms(3,4) p pow2_pos [of "- 52"] by (simp add: fe abs_if pow2_def)
  then have c: "is_finite (f64_sub eps f64_EPSILON)"
    "\<bar>f64_val (f64_sub eps f64_EPSILON) - (f64_val eps - pow2 (- 52))\<bar> \<le> pow2 (- 52)"
    using f64_sub_close [of eps f64_EPSILON 2] assms(2) fe by auto
  have "f64_val (f64_sub eps f64_EPSILON) \<le> f64_val r"
    using assms(1,5) c(1) by (simp add: f64_lt_finite)
  then show ?thesis using c(2) by linarith
qed

text \<open>
  The range in which a key of budget at most 1024 stays, and the debit of a grant: the epsilon of
  the request up to one rounding.
\<close>

definition in_budget_range :: "f64 \<Rightarrow> bool" where
  "in_budget_range r \<longleftrightarrow> is_finite r \<and> - (2 * pow2 (- 52)) \<le> f64_val r \<and> f64_val r \<le> 1024"

definition request_ok :: "f64 \<Rightarrow> bool" where
  "request_ok eps \<longleftrightarrow> is_finite eps \<and> 0 < f64_val eps \<and> f64_val eps < 4"

lemma round_1024: "f64_round 1024 = Fin 1024"
  by code_simp

lemma granted_debit:
  assumes r: "in_budget_range r" and eps: "request_ok eps" and grant: "\<not> f64_lt r (f64_sub eps f64_EPSILON)"
  defines "r' \<equiv> f64_sub r eps"
  shows "in_budget_range r' \<and> f64_val r' \<le> f64_val r - f64_val eps + pow2 (- 43)"
proof -
  have f: "is_finite r" "is_finite eps" and e: "0 < f64_val eps" "f64_val eps < 4" and u: "f64_val r \<le> 1024"
    using r eps by (auto simp: in_budget_range_def request_ok_def)
  have floor: "- (2 * pow2 (- 52)) \<le> f64_val r - f64_val eps" by (rule granted_floor [OF f e grant])
  have "\<bar>f64_val r - f64_val eps\<bar> < pow2 11" using floor e u by (simp add: abs_if pow2_def)
  then have c: "is_finite r'" "\<bar>f64_val r' - (f64_val r - f64_val eps)\<bar> \<le> pow2 (- 43)"
    using f64_sub_close [of r eps 11] f unfolding r'_def by auto
  have l: "- (2 * pow2 (- 52)) \<le> f64_val r'"
    unfolding r'_def by (rule f64_sub_lower [OF f floor round_two_eps]) (use c(1) in \<open>simp add: r'_def\<close>)
  have "f64_val r' \<le> 1024"
    unfolding r'_def by (rule f64_sub_upper [OF f _ round_1024]) (use u e c(1) in \<open>simp_all add: r'_def\<close>)
  then show ?thesis using c l by (simp add: in_budget_range_def)
qed

section \<open>Sequences of calls\<close>

definition granted_to :: "budget_key \<Rightarrow> (budget_key \<times> f64) list \<Rightarrow> rat" where
  "granted_to key gs = sum_list (map (f64_val \<circ> snd) (filter (\<lambda>g. fst g = key) gs))"

lemma granted_to_simps [simp]:
  "granted_to key [] = 0"
  "granted_to key ((k, e) # gs) = (if k = key then f64_val e else 0) + granted_to key gs"
  by (simp_all add: granted_to_def)

lemma consume_all_account:
  assumes "enabled t" "in_budget_range (stored t key)" "\<forall>q\<in>set reqs. request_ok (snd q)"
    and "consume_all t reqs = (gs, t')"
  shows "enabled t' \<and> in_budget_range (stored t' key)
    \<and> granted_to key gs + f64_val (stored t' key) \<le> f64_val (stored t key) + of_nat (length reqs) * pow2 (- 43)"
  using assms
proof (induction reqs arbitrary: t gs)
  case (Cons q reqs)
  obtain tid col eps where q: "q = ((tid, col), eps)" by (metis surj_pair)
  have p: "0 \<le> pow2 (- 43)" by (rule less_imp_le) (rule pow2_pos)
  show ?case
  proof (cases rule: consume_cases [of t tid col eps])
    case disabled
    then show ?thesis using Cons.prems by simp
  next
    case refused
    then have "consume_all t reqs = (gs, t')" using Cons.prems(4) q by simp
    then show ?thesis using Cons.IH [of t gs] Cons.prems p by (simp add: algebra_simps) 
  next
    case granted
    let ?t = "t\<lparr>budgets := AList.update (tid, col) (f64_sub (stored t (tid, col)) eps) (budgets t)\<rparr>"
    from granted Cons.prems(4) obtain gs' where gs: "gs = ((tid, col), eps) # gs'" "consume_all ?t reqs = (gs', t')"
      by (auto simp: q split: prod.splits)
    have d: "in_budget_range (stored ?t key) \<and> f64_val (stored ?t key) \<le>
        f64_val (stored t key) - (if (tid, col) = key then f64_val eps else 0) + pow2 (- 43)"
      using granted_debit [of "stored t key" eps] granted(2) Cons.prems(2,3) p q by auto
    have "enabled t' \<and> in_budget_range (stored t' key)
      \<and> granted_to key gs' + f64_val (stored t' key) \<le> f64_val (stored ?t key) + of_nat (length reqs) * pow2 (- 43)"
      using Cons.IH [of ?t gs'] Cons.prems d gs(2) by simp
    then show ?thesis using d by (simp add: gs(1) algebra_simps)
  qed
qed simp



text \<open>
  One call of \<open>consume\<close>. Without enforcement it always succeeds and changes nothing. With it, a
  refusal reports the stored remainder and changes nothing; a grant stores the difference for exactly
  that key. Which of the two it is depends on nothing but the key's own remainder. A key that was
  never seeded has remainder 0, so every request above \<open>f64::EPSILON\<close> is refused there.
\<close>

theorem consume_exact:
  "case consume t tid col eps of (res, t') \<Rightarrow>
     (enabled t' \<longleftrightarrow> enabled t)
   \<and> (\<forall>key. key \<noteq> (tid, col) \<or> \<not> enabled t \<or> \<not> is_ok res \<longrightarrow> stored t' key = stored t key)
   \<and> (is_ok res \<longleftrightarrow> enabled t \<longrightarrow> \<not> f64_lt (remaining t tid col) (f64_sub eps f64_EPSILON))
   \<and> (enabled t \<and> is_ok res \<longrightarrow> remaining t' tid col = f64_sub (remaining t tid col) eps)
   \<and> (\<forall>r. res = Inl r \<longrightarrow> r = remaining t tid col)
   \<and> (enabled t \<and> map_of (budgets t) (tid, col) = None \<and> f64_lt (Fin 0) (f64_sub eps f64_EPSILON) \<longrightarrow> \<not> is_ok res)"
  by (cases rule: consume_cases [of t tid col eps]) (auto simp: remaining_def unseeded)

theorem consume_exact_witness:
  "\<not> is_ok (fst (consume (with_enforcement True []) ''acme'' ''salary'' (Fin 1)))"
proof -
  have "f64_lt (Fin 0) (f64_sub (Fin 1) f64_EPSILON)" by code_simp
  then show ?thesis
    using consume_exact [of "with_enforcement True []" "''acme''" "''salary''" "Fin 1"]
    by (auto simp: with_enforcement_def remaining_def stored_def split: prod.splits)
qed

end
