(* ===== verification/Arrow_Model.thy ===== *)
theory Arrow_Model
  imports Griot_Errors
begin

text \<open>
  The Arrow values that flow through the operators: data types, typed arrays with nulls, fields,
  schemas and record batches. Arrays are given by their contents, one constructor per array type the
  sources downcast to; every other array is opaque. Arrow's functions (\<open>RecordBatch::try_new\<close>,
  \<open>compute::cast\<close>, \<open>compute::filter_record_batch\<close>) are not part of the repository: they are the
  fields of the parameter \<open>arrow\<close>, and \<open>arrow_spec\<close> states their documented behaviour.
\<close>

datatype data_type =
    DNull | Boolean | Int8 | Int16 | Int32 | Int64 | UInt8 | UInt16 | UInt32 | UInt64
  | Float16 | Float32 | Float64 | Utf8 | LargeUtf8 | Utf8View
  | Date32 | Date64 | Timestamp string | Time32 string | Time64 string | Duration string | Interval string
  | Binary | LargeBinary | FixedSizeBinary nat | BinaryView
  | ListType string | ListViewType string | MapType string | Struct string | Union string
  | Dictionary string | Decimal128 string | Decimal256 string | RunEndEncoded string

datatype cell = CInt int | CFloat f64 | CStr string | CBytes string | COpaque nat

datatype array =
    BooleanArray "bool option list"
  | Int64Array "int option list"
  | Float64Array "f64 option list"
  | StringArray "string option list"
  | LargeStringArray "string option list"
  | OtherArray data_type "cell option list"

fun data_type_of :: "array \<Rightarrow> data_type" where
  "data_type_of (BooleanArray _) = Boolean"
| "data_type_of (Int64Array _) = Int64"
| "data_type_of (Float64Array _) = Float64"
| "data_type_of (StringArray _) = Utf8"
| "data_type_of (LargeStringArray _) = LargeUtf8"
| "data_type_of (OtherArray t _) = t"

fun null_mask :: "array \<Rightarrow> bool list" where
  "null_mask (BooleanArray xs) = map (\<lambda>x. x = None) xs"
| "null_mask (Int64Array xs) = map (\<lambda>x. x = None) xs"
| "null_mask (Float64Array xs) = map (\<lambda>x. x = None) xs"
| "null_mask (StringArray xs) = map (\<lambda>x. x = None) xs"
| "null_mask (LargeStringArray xs) = map (\<lambda>x. x = None) xs"
| "null_mask (OtherArray _ xs) = map (\<lambda>x. x = None) xs"

definition array_len :: "array \<Rightarrow> nat" where
  "array_len a = length (null_mask a)"

text \<open>The typed array types have their own constructor: an opaque array is of none of them.\<close>

definition in_i64 :: "int \<Rightarrow> bool" where
  "in_i64 i \<longleftrightarrow> - (2 ^ 63) \<le> i \<and> i < 2 ^ 63"

fun array_ok :: "array \<Rightarrow> bool" where
  "array_ok (OtherArray t _) = (t \<notin> {Boolean, Int64, Float64, Utf8, LargeUtf8})"
| "array_ok (Int64Array xs) = (\<forall>x\<in>set xs. pred_option in_i64 x)"
| "array_ok _ = True"

record field =
  field_name :: string
  field_type :: data_type
  nullable :: bool

type_synonym schema = "field list"

record record_batch =
  batch_schema :: schema
  batch_columns :: "array list"

text \<open>What \<open>RecordBatch::try_new\<close> checks: one column per field, all of one length, of the field's
  type, and without nulls where the field is not nullable.\<close>

definition column_fits :: "field \<Rightarrow> array \<Rightarrow> bool" where
  "column_fits f a \<longleftrightarrow> data_type_of a = field_type f \<and> (nullable f \<or> True \<notin> set (null_mask a))"

definition batch_fits :: "schema \<Rightarrow> array list \<Rightarrow> bool" where
  "batch_fits s cols \<longleftrightarrow> cols \<noteq> [] \<and> list_all2 column_fits s cols
     \<and> (\<forall>a\<in>set cols. array_len a = array_len (hd cols))"

definition batch_ok :: "record_batch \<Rightarrow> bool" where
  "batch_ok b \<longleftrightarrow> batch_fits (batch_schema b) (batch_columns b) \<and> (\<forall>a\<in>set (batch_columns b). array_ok a)"

definition num_rows :: "record_batch \<Rightarrow> nat" where
  "num_rows b = (case batch_columns b of [] \<Rightarrow> 0 | a # _ \<Rightarrow> array_len a)"

text \<open>Keeping the rows of a mask.\<close>

fun keep :: "bool list \<Rightarrow> 'a list \<Rightarrow> 'a list" where
  "keep (m # ms) (x # xs) = (if m then x # keep ms xs else keep ms xs)"
| "keep _ _ = []"

fun keep_array :: "bool list \<Rightarrow> array \<Rightarrow> array" where
  "keep_array m (BooleanArray xs) = BooleanArray (keep m xs)"
| "keep_array m (Int64Array xs) = Int64Array (keep m xs)"
| "keep_array m (Float64Array xs) = Float64Array (keep m xs)"
| "keep_array m (StringArray xs) = StringArray (keep m xs)"
| "keep_array m (LargeStringArray xs) = LargeStringArray (keep m xs)"
| "keep_array m (OtherArray t xs) = OtherArray t (keep m xs)"

record arrow =
  try_new :: "schema \<Rightarrow> array list \<Rightarrow> record_batch option"
  cast_utf8 :: "array \<Rightarrow> array option"
  filter_record_batch :: "record_batch \<Rightarrow> bool option list \<Rightarrow> record_batch option"

text \<open>
  The documented behaviour relied on: \<open>try_new\<close> makes the batch exactly when it fits; a cast to
  Utf8 that succeeds gives a string array of the same length in which nulls are still null; the
  filter kernel keeps, in every column, exactly the rows whose predicate is true (null counts as
  false) and refuses a predicate of another length.
\<close>

definition arrow_spec :: "arrow \<Rightarrow> bool" where
  "arrow_spec A \<longleftrightarrow>
     (\<forall>s cols. try_new A s cols = (if batch_fits s cols then Some \<lparr>batch_schema = s, batch_columns = cols\<rparr> else None))
   \<and> (\<forall>a b. cast_utf8 A a = Some b \<longrightarrow> (\<exists>xs. b = StringArray xs \<and> length xs = array_len a
         \<and> (\<forall>i<length xs. null_mask a ! i \<longrightarrow> xs ! i = None)))
   \<and> (\<forall>b p. filter_record_batch A b p = (if length p = num_rows b
         then Some (b\<lparr>batch_columns := map (keep_array (map (\<lambda>x. x = Some True) p)) (batch_columns b)\<rparr>) else None))"

section \<open>Facts\<close>

lemma array_len_simps [simp]:
  "array_len (BooleanArray bs) = length bs" "array_len (Int64Array is) = length is"
  "array_len (Float64Array fs) = length fs" "array_len (StringArray ss) = length ss"
  "array_len (LargeStringArray ss) = length ss" "array_len (OtherArray t cs) = length cs"
  by (simp_all add: array_len_def)

lemma keep_length: "length m = length xs \<Longrightarrow> length (keep m xs) = length (filter (\<lambda>b. b) m)"
  by (induction m xs rule: keep.induct) auto

lemma keep_map: "keep m (map f xs) = map f (keep m xs)"
  by (induction m xs rule: keep.induct) auto

lemma set_keep: "set (keep m xs) \<subseteq> set xs"
  by (induction m xs rule: keep.induct) auto

lemma null_mask_keep_array [simp]: "null_mask (keep_array m a) = keep m (null_mask a)"
  by (cases a) (simp_all add: keep_map)

lemma data_type_keep_array [simp]: "data_type_of (keep_array m a) = data_type_of a"
  by (cases a) simp_all

lemma array_ok_keep_array [simp]: "array_ok a \<Longrightarrow> array_ok (keep_array m a)"
proof (induction a)
  case (Int64Array xs)
  then show ?case using set_keep [of m xs] by auto
qed simp_all

lemma array_ok_cases:
  assumes "array_ok a"
  obtains (bool) xs where "a = BooleanArray xs" | (int) xs where "a = Int64Array xs"
    | (float) xs where "a = Float64Array xs" | (str) xs where "a = StringArray xs"
    | (large) xs where "a = LargeStringArray xs"
    | (other) t xs where "a = OtherArray t xs" "t \<notin> {Boolean, Int64, Float64, Utf8, LargeUtf8}"
  using assms by (cases a) auto

lemma arrow_spec_try_new:
  "arrow_spec A \<Longrightarrow> try_new A s cols = (if batch_fits s cols then Some \<lparr>batch_schema = s, batch_columns = cols\<rparr> else None)"
  by (simp add: arrow_spec_def)

lemma arrow_spec_cast:
  "arrow_spec A \<Longrightarrow> cast_utf8 A a = Some b \<Longrightarrow> \<exists>xs. b = StringArray xs \<and> length xs = array_len a
         \<and> (\<forall>i<length xs. null_mask a ! i \<longrightarrow> xs ! i = None)"
  by (simp add: arrow_spec_def)

lemma arrow_spec_filter:
  "arrow_spec A \<Longrightarrow> filter_record_batch A b p = (if length p = num_rows b
     then Some (b\<lparr>batch_columns := map (keep_array (map (\<lambda>x. x = Some True) p)) (batch_columns b)\<rparr>) else None)"
  by (simp add: arrow_spec_def)

lemma num_rows_len: "batch_ok b \<Longrightarrow> a \<in> set (batch_columns b) \<Longrightarrow> array_len a = num_rows b"
  by (cases "batch_columns b") (auto simp: batch_ok_def batch_fits_def num_rows_def)

text \<open>A reference instance, with the decimal form of \<open>Int64\<close> as its only cast.\<close>

definition show_int :: "int \<Rightarrow> string" where
  "show_int i = (if i < 0 then CHR ''-'' # show_nat (nat (- i)) else show_nat (nat i))"

definition arrow_ref :: arrow where
  "arrow_ref = \<lparr>
     try_new = (\<lambda>s cols. if batch_fits s cols then Some \<lparr>batch_schema = s, batch_columns = cols\<rparr> else None),
     cast_utf8 = (\<lambda>a. case a of Int64Array xs \<Rightarrow> Some (StringArray (map (map_option show_int) xs)) | _ \<Rightarrow> None),
     filter_record_batch = (\<lambda>b p. if length p = num_rows b
       then Some (b\<lparr>batch_columns := map (keep_array (map (\<lambda>x. x = Some True) p)) (batch_columns b)\<rparr>) else None)\<rparr>"

lemma arrow_spec_ref: "arrow_spec arrow_ref"
  by (auto simp: arrow_spec_def arrow_ref_def split: array.splits)

end
