(* ===== verification/Sql_Ast.thy ===== *)
theory Sql_Ast
  imports Arrow_Model
begin

text \<open>
  The expression languages between which the row-filter components translate: sqlparser's AST (the
  node kinds the sources match on, everything else opaque) and DataFusion's logical expressions.
  The SQL parser and \<open>datafusion::prelude::col\<close> are not part of the repository: they are the fields
  of the parameter \<open>sql_env\<close>. Parsing of numeric literals is Rust's own \<open>str::parse\<close>.
\<close>

section \<open>SQL syntax trees\<close>

datatype binary_operator =
    SqlEq | SqlNotEq | SqlLt | SqlLtEq | SqlGt | SqlGtEq | SqlAnd | SqlOr
  | PGLikeMatch | PGNotLikeMatch | SqlOtherOp nat

datatype unary_operator = SqlNot | SqlOtherUnary nat

datatype sql_value =
    SingleQuotedString string | Number string | SqlBoolean bool | SqlNull | SqlOtherValue nat

datatype sql_expr =
    BinaryOp sql_expr binary_operator sql_expr
  | UnaryOp unary_operator sql_expr
  | IsNull sql_expr
  | IsNotNull sql_expr
  | InList sql_expr "sql_expr list" bool
  | Identifier string
  | Like bool sql_expr sql_expr "string option"
  | Value sql_value
  | Nested sql_expr
  | SqlOther nat

datatype set_expr = Select "sql_expr option" | OtherSetExpr

datatype statement = Query set_expr | OtherStatement

section \<open>DataFusion expressions\<close>

datatype operator = Eq | NotEq | Lt | LtEq | Gt | GtEq | And | Or | LikeMatch | NotLikeMatch

datatype scalar_value =
    ScUtf8 "string option" | ScInt64 "int option" | ScFloat64 "f64 option" | ScBoolean "bool option" | ScNull

record column =
  relation :: "string option"
  column_name :: string

datatype df_expr =
    EColumn column
  | ELiteral scalar_value
  | EBinary df_expr operator df_expr
  | ENot df_expr
  | EIsNull df_expr
  | EIsNotNull df_expr
  | EInList df_expr "df_expr list" bool
  | EAlias df_expr string
  | ECast df_expr data_type
  | EScalarFunction string "df_expr list"
  | EAggregateFunction string "df_expr list"
  | EOther nat "df_expr list"

record sql_env =
  parse_sql :: "string \<Rightarrow> statement list option"
  col_ref :: "string \<Rightarrow> column"

section \<open>Numeric literals\<close>

definition is_digit :: "char \<Rightarrow> bool" where
  "is_digit c \<longleftrightarrow> 48 \<le> code c \<and> code c \<le> 57"

definition digits_value :: "string \<Rightarrow> nat" where
  "digits_value s = foldl (\<lambda>n c. 10 * n + (code c - 48)) 0 s"

definition all_digits :: "string \<Rightarrow> bool" where
  "all_digits s \<longleftrightarrow> list_all is_digit s"

definition split_sign :: "string \<Rightarrow> bool \<times> string" where
  "split_sign s = (case s of
     c # r \<Rightarrow> if c = CHR ''-'' then (True, r) else if c = CHR ''+'' then (False, r) else (False, s)
   | [] \<Rightarrow> (False, s))"

text \<open>\<open>str::parse::<i64>\<close>.\<close>

definition parse_i64 :: "string \<Rightarrow> int option" where
  "parse_i64 s = (case split_sign s of (neg, d) \<Rightarrow>
     if d = [] \<or> \<not> all_digits d then None
     else let n = (if neg then - int (digits_value d) else int (digits_value d)) in
       if in_i64 n then Some n else None)"

text \<open>\<open>str::parse::<f64>\<close>: the nearest double of the decimal, or one of the named values.\<close>

definition parse_exponent :: "string \<Rightarrow> int option" where
  "parse_exponent s = (case split_sign s of (neg, d) \<Rightarrow>
     if d = [] \<or> \<not> all_digits d then None
     else Some (if neg then - int (digits_value d) else int (digits_value d)))"

definition decimal_f64 :: "bool \<Rightarrow> string \<Rightarrow> string \<Rightarrow> int \<Rightarrow> f64" where
  "decimal_f64 neg whole fract e =
     (let m = digits_value (whole @ fract); k = e - int (length fract);
          q = (if 0 \<le> k then of_nat m * 10 ^ nat k else of_nat m / 10 ^ nat (- k)) :: rat
      in f64_signed neg (f64_round q))"

definition parse_f64 :: "string \<Rightarrow> f64 option" where
  "parse_f64 s = (case split_sign s of (neg, t) \<Rightarrow>
     (let l = to_ascii_lowercase t in
      if l = ''inf'' \<or> l = ''infinity'' then Some (if neg then NInf else PInf)
      else if l = ''nan'' then Some NaN
      else let whole = takeWhile is_digit t; r = dropWhile is_digit t;
               fract = (case r of c # r' \<Rightarrow> if c = CHR ''.'' then takeWhile is_digit r' else [] | [] \<Rightarrow> []);
               r2 = (case r of c # r' \<Rightarrow> if c = CHR ''.'' then dropWhile is_digit r' else r | [] \<Rightarrow> [])
           in if whole = [] \<and> fract = [] then None
              else (case r2 of
                [] \<Rightarrow> Some (decimal_f64 neg whole fract 0)
              | c # x \<Rightarrow> if c = CHR ''e'' \<or> c = CHR ''E''
                  then map_option (decimal_f64 neg whole fract) (parse_exponent x) else None)))"

text \<open>The literal a SQL number becomes, as both translations write it.\<close>

definition number_literal :: "string \<Rightarrow> string + df_expr" where
  "number_literal n = (case parse_i64 n of
     Some i \<Rightarrow> Inr (ELiteral (ScInt64 (Some i)))
   | None \<Rightarrow> (case parse_f64 n of
       Some f \<Rightarrow> Inr (ELiteral (ScFloat64 (Some f)))
     | None \<Rightarrow> Inl (''cannot parse numeric literal '' @ quoted n)))"

text \<open>The \<open>WHERE\<close> expression of a parsed \<open>SELECT 1 WHERE ...\<close>, if it is one.\<close>

definition where_clause :: "statement \<Rightarrow> sql_expr option" where
  "where_clause s = (case s of Query (Select sel) \<Rightarrow> sel | _ \<Rightarrow> None)"

section \<open>Facts\<close>

lemma number_literal_int: "parse_i64 n = Some i \<Longrightarrow> number_literal n = Inr (ELiteral (ScInt64 (Some i)))"
  by (simp add: number_literal_def)

lemma parse_i64_range: "parse_i64 n = Some i \<Longrightarrow> in_i64 i"
  by (auto simp: parse_i64_def Let_def split: prod.splits if_splits)

end
