(* ===== verification/Logical_Plan.thy ===== *)
theory Logical_Plan
  imports Policy Privacy_Budget Sql_Ast
begin

text \<open>
  Logical plans as the optimizer rules of \<open>src/src/optimizer_rules\<close> see them, the shared types of
  \<open>optimizer_rules/mod.rs\<close>, and DataFusion's top-down rewriting. \<open>TreeNode::transform_down\<close> is not
  part of the repository: every rule takes it as a parameter, and \<open>transform_down_spec\<close> states what
  it documents for closures that leave the inputs of a node they continue into alone.
\<close>

section \<open>Shared types\<close>

datatype audit_kind =
    ContractCheckDenied | PurposeMismatch | TierMismatch | ClassificationMismatch
  | ContractCheckApproved | PrivacyBudgetExhausted

record audit_record =
  event_id :: nat
  kind :: audit_kind
  ar_table_name :: string
  ar_tenant_id :: string
  ar_contract_id :: "string option"
  ar_detail :: string

text \<open>\<open>uuid\<close> is the fresh identifier drawn for the record.\<close>

definition new_audit :: "nat \<Rightarrow> audit_kind \<Rightarrow> string \<Rightarrow> string \<Rightarrow> string option \<Rightarrow> string \<Rightarrow> audit_record" where
  "new_audit uuid k table_name tenant_id cid det = \<lparr>event_id = uuid, kind = k, ar_table_name = table_name,
     ar_tenant_id = tenant_id, ar_contract_id = cid, ar_detail = det\<rparr>"

record contract_check_marker =
  cm_contract_id :: string
  cm_tenant_id :: string

record principal =
  principal_id :: string
  declared_purpose :: string
  principal_tier :: string
  principal_classification :: string

section \<open>Plans\<close>

record contract_approved_marker =
  mk_contract_id :: string
  mk_tenant_id :: string
  mk_output_schema :: schema

record laplace_noise_node =
  noise_column :: string
  scale_str :: string
  noise_output_schema :: schema

datatype ext_node =
    Marker contract_approved_marker
  | LaplaceNoise laplace_noise_node
  | OtherNode string nat

fun ext_name :: "ext_node \<Rightarrow> string" where
  "ext_name (Marker _) = ''ContractApproved''"
| "ext_name (LaplaceNoise _) = ''LaplaceNoise''"
| "ext_name (OtherNode n _) = n"

datatype lplan =
    TableScan string schema
  | Projection "df_expr list" lplan
  | LFilter df_expr lplan
  | Aggregate "df_expr list" "df_expr list" lplan
  | EmptyRelation bool schema
  | Extension ext_node "lplan list"
  | LogicalOther nat "lplan list"

fun linputs :: "lplan \<Rightarrow> lplan list" where
  "linputs (TableScan _ _) = []"
| "linputs (Projection _ p) = [p]"
| "linputs (LFilter _ p) = [p]"
| "linputs (Aggregate _ _ p) = [p]"
| "linputs (EmptyRelation _ _) = []"
| "linputs (Extension _ ps) = ps"
| "linputs (LogicalOther _ ps) = ps"

text \<open>
  Rebuilding a node on new inputs. For the extension nodes of the repository this is their
  \<open>with_exprs_and_inputs\<close>, which takes the first input and fails without one.
\<close>

definition marker_with_inputs :: "contract_approved_marker \<Rightarrow> lplan list \<Rightarrow> df_error + lplan" where [simp]:
  "marker_with_inputs m ins = (case ins of [] \<Rightarrow> Inl (DfInternal ''ContractApprovedMarker requires one input'')
     | p # _ \<Rightarrow> Inr (Extension (Marker m) [p]))"

definition noise_with_inputs :: "laplace_noise_node \<Rightarrow> lplan list \<Rightarrow> df_error + lplan" where [simp]:
  "noise_with_inputs l ins = (case ins of [] \<Rightarrow> Inl (DfInternal ''LaplaceNoiseNode requires one input'')
     | p # _ \<Rightarrow> Inr (Extension (LaplaceNoise l) [p]))"

fun with_exprs_and_inputs :: "ext_node \<Rightarrow> lplan list \<Rightarrow> df_error + lplan" where
  "with_exprs_and_inputs (Marker m) ins = marker_with_inputs m ins"
| "with_exprs_and_inputs (LaplaceNoise l) ins = noise_with_inputs l ins"
| "with_exprs_and_inputs (OtherNode n k) ins = Inr (Extension (OtherNode n k) ins)"

fun with_inputs :: "lplan \<Rightarrow> lplan list \<Rightarrow> df_error + lplan" where
  "with_inputs (Projection es _) (p # _) = Inr (Projection es p)"
| "with_inputs (LFilter e _) (p # _) = Inr (LFilter e p)"
| "with_inputs (Aggregate gs as _) (p # _) = Inr (Aggregate gs as p)"
| "with_inputs (Extension n _) ins = with_exprs_and_inputs n ins"
| "with_inputs (LogicalOther k _) ins = Inr (LogicalOther k ins)"
| "with_inputs p _ = Inr p"

text \<open>The extension nodes of the repository have exactly one input.\<close>

fun plan_wf :: "lplan \<Rightarrow> bool" where
  "plan_wf (Extension n ps) \<longleftrightarrow> (case n of OtherNode _ _ \<Rightarrow> True | _ \<Rightarrow> length ps = 1) \<and> (\<forall>p\<in>set ps. plan_wf p)"
| "plan_wf (Projection _ p) = plan_wf p"
| "plan_wf (LFilter _ p) = plan_wf p"
| "plan_wf (Aggregate _ _ p) = plan_wf p"
| "plan_wf (LogicalOther _ ps) \<longleftrightarrow> (\<forall>p\<in>set ps. plan_wf p)"
| "plan_wf _ = True"

section \<open>Top-down rewriting\<close>

datatype recursion = Continue | Jump

type_synonym 's closure = "lplan \<Rightarrow> 's \<Rightarrow> (df_error + lplan \<times> recursion) \<times> 's"
type_synonym 's transform = "'s closure \<Rightarrow> lplan \<Rightarrow> 's \<Rightarrow> (df_error + lplan) \<times> 's"

fun map_st :: "('a \<Rightarrow> 's \<Rightarrow> ('e + 'b) \<times> 's) \<Rightarrow> 'a list \<Rightarrow> 's \<Rightarrow> ('e + 'b list) \<times> 's" where
  "map_st f [] s = (Inr [], s)"
| "map_st f (x # xs) s = (case f x s of
     (Inl e, s') \<Rightarrow> (Inl e, s')
   | (Inr y, s') \<Rightarrow> (case map_st f xs s' of (Inl e, s'') \<Rightarrow> (Inl e, s'') | (Inr ys, s'') \<Rightarrow> (Inr (y # ys), s'')))"

lemma map_st_cong [fundef_cong]:
  assumes "xs = ys" "s = t" "\<And>x u. x \<in> set ys \<Longrightarrow> f x u = g x u"
  shows "map_st f xs s = map_st g ys t"
proof -
  have "map_st f ys t = map_st g ys t" using assms(3)
    by (induction ys arbitrary: t) (auto split: prod.splits sum.splits)
  then show ?thesis using assms(1,2) by simp
qed

lemma linputs_size [termination_simp]: "c \<in> set (linputs p) \<Longrightarrow> size c < size p"
  by (cases p) (auto dest: size_list_estimation' [where f = size, OF _ order_refl] simp: less_Suc_eq_le trans_le_add2)

function transform_ref :: "'s closure \<Rightarrow> lplan \<Rightarrow> 's \<Rightarrow> (df_error + lplan) \<times> 's" where
  "transform_ref f p s = (case f p s of
     (Inl e, s') \<Rightarrow> (Inl e, s')
   | (Inr (q, Jump), s') \<Rightarrow> (Inr q, s')
   | (Inr (q, Continue), s') \<Rightarrow> (case map_st (transform_ref f) (linputs p) s' of
       (Inl e, s'') \<Rightarrow> (Inl e, s'')
     | (Inr cs, s'') \<Rightarrow> (with_inputs q cs, s'')))"
  by pat_completeness auto
termination
  by (relation "measure (\<lambda>(f, p, s). size p)") (auto simp: linputs_size)

declare transform_ref.simps [simp del]

definition shallow :: "'s closure \<Rightarrow> bool" where
  "shallow f \<longleftrightarrow> (\<forall>p s q s'. f p s = (Inr (q, Continue), s') \<longrightarrow> linputs q = linputs p)"

definition transform_down_spec :: "'s transform \<Rightarrow> bool" where
  "transform_down_spec td \<longleftrightarrow> (\<forall>f p s. shallow f \<longrightarrow> td f p s = transform_ref f p s)"

lemma shallowD: "shallow f \<Longrightarrow> f p s = (Inr (q, Continue), s') \<Longrightarrow> linputs q = linputs p"
  by (auto simp: shallow_def)

lemma transform_down_spec_ref: "transform_down_spec transform_ref"
  by (simp add: transform_down_spec_def)

text \<open>What the rules call of DataFusion's plan constructors.\<close>

record lp_env =
  lp_schema :: "lplan \<Rightarrow> schema"
  df_schema_try :: "schema \<Rightarrow> schema option"
  filter_try_new :: "df_expr \<Rightarrow> lplan \<Rightarrow> df_error + df_expr"
  projection_try_new :: "df_expr list \<Rightarrow> lplan \<Rightarrow> df_error + unit"

section \<open>Approval markers\<close>

function subtree_has_approval_marker :: "lplan \<Rightarrow> bool" where
  "subtree_has_approval_marker p \<longleftrightarrow>
     (case p of Extension n _ \<Rightarrow> ext_name n = ''ContractApproved'' | _ \<Rightarrow> False)
     \<or> (\<exists>c\<in>set (linputs p). subtree_has_approval_marker c)"
  by pat_completeness auto
termination
  by (relation "measure size") (auto simp: linputs_size)

declare subtree_has_approval_marker.simps [simp del]

text \<open>The nodes of a plan.\<close>

function lnodes :: "lplan \<Rightarrow> lplan set" where
  "lnodes p = insert p (\<Union>c\<in>set (linputs p). lnodes c)"
  by pat_completeness auto
termination
  by (relation "measure size") (auto simp: linputs_size)

declare lnodes.simps [simp del]

fun is_scan :: "lplan \<Rightarrow> bool" where
  "is_scan (TableScan _ _) = True" | "is_scan _ = False"

text \<open>\<open>guarded bad g p\<close>: every \<open>bad\<close> node of the plan is, or lies under, a node that satisfies \<open>g\<close>.\<close>

function guarded :: "(lplan \<Rightarrow> bool) \<Rightarrow> (lplan \<Rightarrow> bool) \<Rightarrow> lplan \<Rightarrow> bool" where
  "guarded bad g p \<longleftrightarrow> g p \<or> (\<not> bad p \<and> (\<forall>c\<in>set (linputs p). guarded bad g c))"
  by pat_completeness auto
termination
  by (relation "measure (\<lambda>(b, g, p). size p)") (auto simp: linputs_size)

declare guarded.simps [simp del]

abbreviation scans_under :: "(lplan \<Rightarrow> bool) \<Rightarrow> lplan \<Rightarrow> bool" where
  "scans_under \<equiv> guarded is_scan"

fun is_marker :: "lplan \<Rightarrow> bool" where
  "is_marker (Extension n _) = (ext_name n = ''ContractApproved'')" | "is_marker _ = False"

fun is_filter :: "df_expr \<Rightarrow> lplan \<Rightarrow> bool" where
  "is_filter e (LFilter e' _) = (e' = e)" | "is_filter e _ = False"

section \<open>Facts\<close>

lemma map_st_Inr:
  "map_st f xs s = (Inr ys, s') \<Longrightarrow> list_all2 (\<lambda>x y. \<exists>t t'. f x t = (Inr y, t')) xs ys"
  by (induction xs arbitrary: s ys) (auto split: prod.splits sum.splits)

lemma transform_ref_cases:
  assumes "transform_ref f p s = (Inr q, s')"
  obtains (jump) "f p s = (Inr (q, Jump), s')"
  | (continue) r s1 cs where "f p s = (Inr (r, Continue), s1)" "map_st (transform_ref f) (linputs p) s1 = (Inr cs, s')"
      "with_inputs r cs = Inr q" "list_all2 (\<lambda>x y. \<exists>t t'. transform_ref f x t = (Inr y, t')) (linputs p) cs"
  using assms by (subst (asm) transform_ref.simps)
    (auto split: prod.splits sum.splits recursion.splits dest: map_st_Inr)

lemma list_all2_right: "list_all2 R xs ys \<Longrightarrow> y \<in> set ys \<Longrightarrow> \<exists>x\<in>set xs. R x y"
  by (induction rule: list_all2_induct) auto

lemma marker_unfold:
  "subtree_has_approval_marker p \<longleftrightarrow> is_marker p \<or> (\<exists>c\<in>set (linputs p). subtree_has_approval_marker c)"
  by (subst subtree_has_approval_marker.simps) (cases p; simp)

lemma with_inputs_inputs:
  assumes "with_inputs r cs = Inr q" "length cs = length (linputs r)" "plan_wf r"
  shows "linputs q = cs"
proof (cases r)
  case (Extension n ps)
  then show ?thesis using assms by (cases n) (auto split: list.splits)
qed (use assms in \<open>auto simp: length_Suc_conv\<close>)

lemma plan_wf_inputs: "plan_wf p \<Longrightarrow> c \<in> set (linputs p) \<Longrightarrow> plan_wf c"
  by (cases p) auto

text \<open>
  The induction behind the rules' properties: a relation between plans and their rewritten form holds
  if it holds where the closure jumps, and follows from the inputs where it continues. \<open>ok\<close> is a
  condition on the state that, once lost, stays lost.
\<close>

lemma map_st_ok:
  assumes "map_st f xs s = (Inr ys, s')" "ok s'"
    and "\<And>x t y t'. x \<in> set xs \<Longrightarrow> f x t = (Inr y, t') \<Longrightarrow> ok t' \<Longrightarrow> R x y \<and> ok t"
  shows "list_all2 R xs ys \<and> ok s"
  using assms
proof (induction xs arbitrary: s ys)
  case (Cons x xs)
  then obtain y s1 zs where "f x s = (Inr y, s1)" "map_st f xs s1 = (Inr zs, s')" "ys = y # zs"
    by (auto split: prod.splits sum.splits)
  moreover from this have "list_all2 R xs zs \<and> ok s1"
    using Cons.IH [of s1 zs] Cons.prems(2,3) by (meson list.set_intros(2))
  ultimately show ?case using Cons.prems(3) [of x s y s1] by simp
qed simp

lemma transform_induct_ok:
  assumes "transform_ref f p s = (Inr q, s')" "ok s'"
    and bk: "\<And>p s q k s'. f p s = (Inr (q, k), s') \<Longrightarrow> ok s' \<Longrightarrow> ok s"
    and jmp: "\<And>p s q s'. f p s = (Inr (q, Jump), s') \<Longrightarrow> ok s' \<Longrightarrow> R p q"
    and cont: "\<And>p s r s1 cs q. f p s = (Inr (r, Continue), s1) \<Longrightarrow> ok s1 \<Longrightarrow> list_all2 R (linputs p) cs
      \<Longrightarrow> with_inputs r cs = Inr q \<Longrightarrow> R p q"
  shows "R p q \<and> ok s"
  using assms(1,2)
proof (induction "size p" arbitrary: p s q s' rule: less_induct)
  case less
  from less.prems(1) show ?case
  proof (cases rule: transform_ref_cases)
    case jump
    then show ?thesis using less.prems(2) assms(3,4) by blast
  next
    case (continue r s1 cs)
    have "list_all2 R (linputs p) cs \<and> ok s1"
      using continue(2) less.prems(2) by (rule map_st_ok) (use less.hyps linputs_size in blast)
    then show ?thesis using continue(1,3) cont bk by blast
  qed
qed

lemma transform_induct [consumes 1, case_names jump continue]:
  assumes "transform_ref f p s = (Inr q, s')"
    and "\<And>p s q s'. f p s = (Inr (q, Jump), s') \<Longrightarrow> R p q"
    and "\<And>p s r s1 cs q. f p s = (Inr (r, Continue), s1) \<Longrightarrow> list_all2 R (linputs p) cs \<Longrightarrow> with_inputs r cs = Inr q \<Longrightarrow> R p q"
  shows "R p q"
proof -
  have "R p q \<and> True"
    using assms(1) by (rule transform_induct_ok [where ok = "\<lambda>_. True"]) (use assms(2,3) in blast)+
  then show ?thesis by blast
qed

text \<open>Rebuilding a node on rewritten inputs.\<close>

lemma with_inputs_shape:
  assumes "with_inputs r cs = Inr q" "length cs = length (linputs r)"
  shows "set (linputs q) \<subseteq> set cs" "is_scan q = is_scan r" "is_marker q = is_marker r" "is_filter e q = is_filter e r"
proof -
  have "set (linputs q) \<subseteq> set cs \<and> is_scan q = is_scan r \<and> is_marker q = is_marker r \<and> is_filter e q = is_filter e r"
  proof (cases r)
    case (Extension n ps)
    then show ?thesis using assms by (cases n) (auto split: list.splits)
  qed (use assms in \<open>cases cs; auto\<close>)+
  then show "set (linputs q) \<subseteq> set cs" "is_scan q = is_scan r" "is_marker q = is_marker r" "is_filter e q = is_filter e r"
    by blast+
qed

lemma guarded_rebuild:
  assumes "with_inputs r cs = Inr q" "length cs = length (linputs r)" "\<not> bad q" "\<forall>c\<in>set cs. guarded bad g c"
  shows "guarded bad g q"
  using with_inputs_shape(1) [OF assms(1,2)] assms(3,4) by (subst guarded.simps) blast

text \<open>A pass keeps a guard if its closure does, or replaces it by another.\<close>

lemma transform_guarded:
  assumes t: "transform_ref f p s = (Inr q, s')" and p: "guarded bad g p"
    and jmp: "\<And>p s q s'. f p s = (Inr (q, Jump), s') \<Longrightarrow> guarded bad g p \<Longrightarrow> guarded bad h q"
    and cont: "\<And>p s r s1. f p s = (Inr (r, Continue), s1) \<Longrightarrow> linputs r = linputs p \<and> (g p \<longrightarrow> h r)"
    and keep: "\<And>r cs q. with_inputs r cs = Inr q \<Longrightarrow> length cs = length (linputs r) \<Longrightarrow> h r \<Longrightarrow> h q"
    and good: "\<And>p s r s1 cs q. f p s = (Inr (r, Continue), s1) \<Longrightarrow> with_inputs r cs = Inr q \<Longrightarrow> length cs = length (linputs r)
      \<Longrightarrow> \<not> bad p \<Longrightarrow> \<not> bad q"
  shows "guarded bad h q"
proof -
  from t have "guarded bad g p \<longrightarrow> guarded bad h q"
  proof (induction rule: transform_induct [where R = "\<lambda>p q. guarded bad g p \<longrightarrow> guarded bad h q"])
    case (jump p s q s')
    then show ?case using assms(3) by blast
  next
    case (continue p s r s1 cs q)
    have len: "length cs = length (linputs r)" using continue.IH cont [OF continue.hyps(1)] by (simp add: list_all2_lengthD)
    show ?case
    proof
      assume "guarded bad g p"
      then consider "g p" | "\<not> bad p" "\<forall>c\<in>set (linputs p). guarded bad g c" using guarded.simps [of bad g p] by blast
      then show "guarded bad h q"
      proof cases
        case 1
        then have "h q" using cont [OF continue.hyps(1)] keep [OF continue.hyps(2) len] by blast
        then show ?thesis by (simp add: guarded.simps [of bad h q])
      next
        case 2
        then have "\<forall>c\<in>set cs. guarded bad h c"
          using continue.IH by (blast dest: list_all2_right)
        then show ?thesis using good [OF continue.hyps(1,2) len] 2(1) by (intro guarded_rebuild [OF continue.hyps(2) len]) auto
      qed
    qed
  qed
  then show ?thesis using p by blast
qed

text \<open>No pass whose closure keeps the markers invents an approval.\<close>

lemma transform_marker:
  assumes t: "transform_ref f p s = (Inr q, s')"
    and jmp: "\<And>p s q s'. f p s = (Inr (q, Jump), s') \<Longrightarrow> subtree_has_approval_marker q \<Longrightarrow> subtree_has_approval_marker p"
    and cont: "\<And>p s r s1. f p s = (Inr (r, Continue), s1) \<Longrightarrow> linputs r = linputs p \<and> is_marker r = is_marker p"
  shows "subtree_has_approval_marker q \<longrightarrow> subtree_has_approval_marker p"
  using t
proof (induction rule: transform_induct)
  case (jump p s q s')
  then show ?case using assms(2) by blast
next
  case (continue p s r s1 cs q)
  have len: "length cs = length (linputs r)" using continue.IH cont [OF continue.hyps(1)] by (simp add: list_all2_lengthD)
  have "subtree_has_approval_marker q \<Longrightarrow> is_marker p \<or> (\<exists>c\<in>set (linputs p). subtree_has_approval_marker c)"
    using continue.IH with_inputs_shape(1,3) [OF continue.hyps(2) len] cont [OF continue.hyps(1)]
    by (auto simp: marker_unfold [of q] dest: list_all2_right)
  then show ?case by (auto simp: marker_unfold [of p])
qed

text \<open>
  Totality: on well-formed plans a pass whose closure does not fail returns a well-formed plan, and a view
  \<open>\<mu>\<close> of its state evolves as the closure says, input by input.
\<close>

lemma map_st_fold:
  assumes "\<And>x s. x \<in> set xs \<Longrightarrow> \<exists>y s'. f x s = (Inr y, s') \<and> P y \<and> \<mu> s' = h x (\<mu> s)"
  shows "\<exists>ys s'. map_st f xs s = (Inr ys, s') \<and> length ys = length xs \<and> list_all P ys \<and> \<mu> s' = fold h xs (\<mu> s)"
  using assms
proof (induction xs arbitrary: s)
  case (Cons x xs)
  obtain y s1 where x: "f x s = (Inr y, s1)" "P y" "\<mu> s1 = h x (\<mu> s)" using Cons.prems [of x s] by auto
  obtain ys s2 where "map_st f xs s1 = (Inr ys, s2)" "length ys = length xs" "list_all P ys" "\<mu> s2 = fold h xs (\<mu> s1)"
    using Cons.IH [of s1] Cons.prems by auto
  then show ?case using x by simp
qed simp

lemma with_inputs_total:
  assumes "plan_wf p" "length cs = length (linputs p)" "list_all plan_wf cs"
  shows "\<exists>q. with_inputs p cs = Inr q \<and> plan_wf q"
proof (cases p)
  case (Extension n ps)
  then show ?thesis using assms by (cases n; cases cs) (auto simp: list_all_iff)
qed (use assms in \<open>cases cs; auto simp: list_all_iff\<close>)+

lemma transform_fold:
  assumes wf: "plan_wf p"
    and f: "\<And>p s. plan_wf p \<Longrightarrow> \<exists>q k s'. f p s = (Inr (q, k), s') \<and> plan_wf q \<and> (k = Jump \<longrightarrow> \<mu> s' = H p (\<mu> s))
      \<and> (k = Continue \<longrightarrow> linputs q = linputs p \<and> fold H (linputs p) (\<mu> s') = H p (\<mu> s))"
  shows "\<exists>q s'. transform_ref f p s = (Inr q, s') \<and> plan_wf q \<and> \<mu> s' = H p (\<mu> s)"
  using wf
proof (induction "size p" arbitrary: p s rule: less_induct)
  case less
  from f [OF less.prems, of s] obtain q k s1 where q: "f p s = (Inr (q, k), s1)" "plan_wf q"
    "k = Jump \<longrightarrow> \<mu> s1 = H p (\<mu> s)" "k = Continue \<longrightarrow> linputs q = linputs p \<and> fold H (linputs p) (\<mu> s1) = H p (\<mu> s)" by blast
  show ?case
  proof (cases k)
    case Jump
    then show ?thesis using q by (subst transform_ref.simps) simp
  next
    case Continue
    have "\<exists>y s'. transform_ref f c t = (Inr y, s') \<and> plan_wf y \<and> \<mu> s' = H c (\<mu> t)" if "c \<in> set (linputs p)" for c t
      using less.hyps [OF linputs_size [OF that] plan_wf_inputs [OF less.prems that]] .
    then obtain cs s2 where cs: "map_st (transform_ref f) (linputs p) s1 = (Inr cs, s2)" "length cs = length (linputs p)"
      "list_all plan_wf cs" "\<mu> s2 = fold H (linputs p) (\<mu> s1)"
      using map_st_fold [of "linputs p" "transform_ref f" plan_wf \<mu> H s1] by blast
    then obtain r where "with_inputs q cs = Inr r" "plan_wf r" using with_inputs_total [of q cs] q Continue by auto
    then show ?thesis using q cs Continue by (subst transform_ref.simps) simp
  qed
qed

text \<open>A pass fails only where its closure does.\<close>

lemma map_st_outcome:
  assumes "\<And>x s. x \<in> set xs \<Longrightarrow> (case fst (f x s) of Inl e \<Rightarrow> Q e | Inr y \<Rightarrow> P y)"
  shows "case fst (map_st f xs s) of Inl e \<Rightarrow> Q e | Inr ys \<Rightarrow> length ys = length xs \<and> list_all P ys"
  using assms
proof (induction xs arbitrary: s)
  case (Cons x xs)
  obtain r s1 where x: "f x s = (r, s1)" by fastforce
  show ?case using Cons.prems [of x s] Cons.IH [of s1] Cons.prems x
    by (cases r) (auto split: prod.splits sum.splits)
qed simp

lemma transform_outcome:
  assumes "plan_wf p"
    and f: "\<And>p s. plan_wf p \<Longrightarrow> (case fst (f p s) of Inl e \<Rightarrow> Q e | Inr (q, k) \<Rightarrow> plan_wf q \<and> (k = Continue \<longrightarrow> linputs q = linputs p))"
  shows "case fst (transform_ref f p s) of Inl e \<Rightarrow> Q e | Inr q \<Rightarrow> plan_wf q"
  using assms(1)
proof (induction "size p" arbitrary: p s rule: less_induct)
  case less
  obtain r s1 where fp: "f p s = (r, s1)" by fastforce
  note fp' = f [OF less.prems, of s, unfolded fp]
  show ?case
  proof (cases r)
    case (Inl e)
    then show ?thesis using fp fp' by (subst transform_ref.simps) simp
  next
    case (Inr qk)
    then obtain q k where r: "r = Inr (q, k)" by (cases qk) auto
    have c: "case fst (map_st (transform_ref f) (linputs p) s1) of Inl e \<Rightarrow> Q e
        | Inr cs \<Rightarrow> length cs = length (linputs p) \<and> list_all plan_wf cs"
      by (rule map_st_outcome) (rule less.hyps [OF linputs_size plan_wf_inputs [OF less.prems]])
    obtain m s2 where m: "map_st (transform_ref f) (linputs p) s1 = (m, s2)" by fastforce
    have t: "fst (transform_ref f p s) = (if k = Jump then Inr q else and_then m (with_inputs q))"
      using fp r m by (subst transform_ref.simps) (cases k; cases m; simp)
    show ?thesis
    proof (cases "k = Jump \<or> (\<exists>e. m = Inl e)")
      case True
      then show ?thesis using t fp' r m c by (cases k) auto
    next
      case False
      then obtain cs where "k = Continue" "m = Inr cs" by (cases k; cases m) auto
      then show ?thesis using t fp' r m c with_inputs_total [of q cs] by auto
    qed
  qed
qed

lemma transform_down_eq: "transform_down_spec td \<Longrightarrow> shallow f \<Longrightarrow> td f p s = transform_ref f p s"
  by (simp add: transform_down_spec_def)

end
