(* ===== verification/Contract_Check_Rule.thy ===== *)
theory Contract_Check_Rule
  imports Logical_Plan
begin

text \<open>
  \<open>src/src/optimizer_rules/contract_check.rs\<close>: the first optimizer rule, which replaces every table
  scan by an approval marker around it or, when the contract is missing or the principal does not
  satisfy it, by an empty relation, and writes one audit record per scan.
\<close>

section \<open>Model\<close>

record contract_bundle_data =
  allowed_purposes :: "string list"
  required_tier :: "string option"
  required_classification :: "string option"

definition de_contract_bundle :: "json \<Rightarrow> contract_bundle_data option" where
  "de_contract_bundle j = Option.bind (struct_fields [''allowed_purposes'', ''required_tier'', ''required_classification''] j) (\<lambda>fs.
     Option.bind (defaulted fs ''allowed_purposes'' [] (de_vec de_string)) (\<lambda>ps.
     Option.bind (defaulted fs ''required_tier'' None (de_option de_string)) (\<lambda>t.
     Option.bind (defaulted fs ''required_classification'' None (de_option de_string)) (\<lambda>c.
       Some \<lparr>allowed_purposes = ps, required_tier = t, required_classification = c\<rparr>))))"

definition TIER_ORDER :: "string list" where
  "TIER_ORDER = [''bronze'', ''silver'', ''gold'']"

fun position :: "'a \<Rightarrow> 'a list \<Rightarrow> nat option" where
  "position x [] = None"
| "position x (y # ys) = (if y = x then Some 0 else map_option Suc (position x ys))"

definition tier_rank :: "string \<Rightarrow> nat option" where
  "tier_rank tier = position tier TIER_ORDER"

text \<open>The shared approval registry and what the rule collects behind its mutexes.\<close>

record check_state =
  cs_audit_records :: "audit_record list"
  cs_approved_tables :: "contract_check_marker list"
  cs_approved_set :: "string list"
  cs_uuid :: nat

definition approve :: "string \<Rightarrow> string list \<Rightarrow> string list" where
  "approve table_name s = (if table_name \<in> set s then s else table_name # s)"

definition is_approved :: "string \<Rightarrow> string list \<Rightarrow> bool" where
  "is_approved table_name s \<longleftrightarrow> table_name \<in> set s"

definition drain_check_audits :: "check_state \<Rightarrow> audit_record list \<times> check_state" where
  "drain_check_audits st = (cs_audit_records st, st\<lparr>cs_audit_records := []\<rparr>)"

definition parse_check_bundle :: "from_slice \<Rightarrow> contract_bundle_handle \<Rightarrow> contract_bundle_data option" where
  "parse_check_bundle from_slice bundle =
     (if raw_bytes bundle = [] then None else Option.bind (from_slice (raw_bytes bundle)) de_contract_bundle)"

definition check_principal :: "principal \<Rightarrow> contract_bundle_data \<Rightarrow> audit_kind + unit" where
  "check_principal who data =
     (if allowed_purposes data \<noteq> [] \<and> declared_purpose who \<notin> set (allowed_purposes data) then Inl PurposeMismatch
      else if (case required_tier data of None \<Rightarrow> False
        | Some rt \<Rightarrow> (case (tier_rank rt, tier_rank (principal_tier who)) of (Some req, Some pr) \<Rightarrow> pr < req | _ \<Rightarrow> False))
      then Inl TierMismatch
      else case required_classification data of
        Some rc \<Rightarrow> if principal_classification who \<noteq> rc then Inl ClassificationMismatch else Inr ()
      | None \<Rightarrow> Inr ())"

definition empty_relation_from_schema :: "lp_env \<Rightarrow> schema \<Rightarrow> lplan" where
  "empty_relation_from_schema L s = EmptyRelation False (case df_schema_try L s of Some s' \<Rightarrow> s' | None \<Rightarrow> [])"

fun denial_detail :: "principal \<Rightarrow> contract_bundle_data \<Rightarrow> audit_kind \<Rightarrow> string" where
  "denial_detail who data PurposeMismatch = ''declared_purpose '' @ quoted (declared_purpose who) @ '' not in allowed_purposes ''
     @ debug_strs (allowed_purposes data)"
| "denial_detail who data TierMismatch = ''principal tier '' @ quoted (principal_tier who) @ '' below required ''
     @ quoted (case required_tier data of None \<Rightarrow> ''?'' | Some t \<Rightarrow> t)"
| "denial_detail who data ClassificationMismatch = ''principal classification '' @ quoted (principal_classification who) @ '' != required ''
     @ quoted (case required_classification data of None \<Rightarrow> ''?'' | Some c \<Rightarrow> c)"
| "denial_detail who data _ = ''contract check denied''"

definition push_audit :: "contract_bundle_handle \<Rightarrow> audit_kind \<Rightarrow> string \<Rightarrow> string \<Rightarrow> check_state \<Rightarrow> check_state" where
  "push_audit bundle k table_name det st = st\<lparr>cs_audit_records := cs_audit_records st @
       [new_audit (cs_uuid st) k table_name (bundle_tenant_id bundle) (Some (bundle_contract_id bundle)) det],
     cs_uuid := Suc (cs_uuid st)\<rparr>"

definition evaluate_scan :: "lp_env \<Rightarrow> from_slice \<Rightarrow> contract_bundle_handle \<Rightarrow> principal \<Rightarrow> lplan \<Rightarrow> string \<Rightarrow> check_state
    \<Rightarrow> (lplan \<times> contract_check_marker option) \<times> check_state" where
  "evaluate_scan L from_slice bundle who scan table_name st =
     (case parse_check_bundle from_slice bundle of
        None \<Rightarrow> ((empty_relation_from_schema L (lp_schema L scan), None),
          push_audit bundle ContractCheckDenied table_name ''no contract bundle present'' st)
      | Some data \<Rightarrow> (case check_principal who data of
          Inl k \<Rightarrow> ((empty_relation_from_schema L (lp_schema L scan), None),
            push_audit bundle k table_name (denial_detail who data k) st)
        | Inr _ \<Rightarrow>
            (let st1 = push_audit bundle ContractCheckApproved table_name ''principal satisfies all contract constraints'' st;
                 st2 = st1\<lparr>cs_approved_set := approve table_name (cs_approved_set st1)\<rparr>;
                 node = Marker \<lparr>mk_contract_id = bundle_contract_id bundle, mk_tenant_id = bundle_tenant_id bundle,
                   mk_output_schema = lp_schema L scan\<rparr>
             in ((Extension node [scan], Some \<lparr>cm_contract_id = bundle_contract_id bundle, cm_tenant_id = bundle_tenant_id bundle\<rparr>), st2))))"

definition check_closure :: "lp_env \<Rightarrow> from_slice \<Rightarrow> contract_bundle_handle \<Rightarrow> principal \<Rightarrow> (bool \<times> check_state) closure" where
  "check_closure L from_slice bundle who node cst =
     (case node of
        TableScan table_name _ \<Rightarrow>
          (case evaluate_scan L from_slice bundle who node table_name (snd cst) of ((new_node, marker), st) \<Rightarrow>
             (Inr (new_node, Jump), (True, (case marker of
                Some m \<Rightarrow> st\<lparr>cs_approved_tables := cs_approved_tables st @ [m]\<rparr> | None \<Rightarrow> st))))
      | _ \<Rightarrow> (Inr (node, Continue), cst))"

text \<open>\<open>rewrite\<close>: the new plan and whether it changed.\<close>

definition contract_check_rewrite :: "(bool \<times> check_state) transform \<Rightarrow> lp_env \<Rightarrow> from_slice \<Rightarrow> contract_bundle_handle \<Rightarrow> principal
    \<Rightarrow> lplan \<Rightarrow> check_state \<Rightarrow> (df_error + lplan \<times> bool) \<times> check_state" where
  "contract_check_rewrite td L from_slice bundle who plan st =
     (case td (check_closure L from_slice bundle who) plan (False, st) of
        (Inl e, (_, st')) \<Rightarrow> (Inl e, st')
      | (Inr new_plan, (changed, st')) \<Rightarrow> (Inr (new_plan, changed), st'))"

section \<open>Verdicts\<close>

text \<open>The audit kind every scan of a pass gets.\<close>

definition verdict :: "from_slice \<Rightarrow> contract_bundle_handle \<Rightarrow> principal \<Rightarrow> audit_kind" where
  "verdict from_slice bundle who = (case parse_check_bundle from_slice bundle of
     None \<Rightarrow> ContractCheckDenied
   | Some data \<Rightarrow> (case check_principal who data of Inl k \<Rightarrow> k | Inr _ \<Rightarrow> ContractCheckApproved))"

lemma check_principal_kinds: "check_principal who d = Inl k \<Longrightarrow> k \<noteq> ContractCheckApproved"
  by (auto simp: check_principal_def split: if_splits option.splits)

lemma evaluate_scan_verdict:
  "evaluate_scan L fs b who scan n st = ((q, m), st') \<Longrightarrow>
     (verdict fs b who = ContractCheckApproved \<longrightarrow>
        q = Extension (Marker \<lparr>mk_contract_id = bundle_contract_id b, mk_tenant_id = bundle_tenant_id b, mk_output_schema = lp_schema L scan\<rparr>) [scan]
        \<and> m \<noteq> None \<and> cs_approved_set st' = approve n (cs_approved_set st))
   \<and> (verdict fs b who \<noteq> ContractCheckApproved \<longrightarrow> (\<exists>s. q = EmptyRelation False s) \<and> m = None \<and> cs_approved_set st' = cs_approved_set st)
   \<and> (\<exists>d. cs_audit_records st' = cs_audit_records st
        @ [new_audit (cs_uuid st) (verdict fs b who) n (bundle_tenant_id b) (Some (bundle_contract_id b)) d])"
  by (auto simp: evaluate_scan_def verdict_def push_audit_def empty_relation_from_schema_def Let_def
      split: option.splits sum.splits dest: check_principal_kinds)

lemma shallow_check: "shallow (check_closure L fs b who)"
  by (auto simp: shallow_def check_closure_def split: lplan.splits prod.splits)

lemma check_closure_scan:
  "check_closure L fs b who p s = (Inr (q, Jump), s') \<Longrightarrow> \<exists>n sch m st. p = TableScan n sch
     \<and> evaluate_scan L fs b who p n (snd s) = ((q, m), st)"
  by (auto simp: check_closure_def split: lplan.splits prod.splits)

lemma check_closure_other:
  "check_closure L fs b who p s = (Inr (r, Continue), s1) \<Longrightarrow> r = p \<and> \<not> is_scan p"
  by (auto simp: check_closure_def split: lplan.splits prod.splits)

text \<open>Where the check approves, every scan ends up under a marker; where it denies, no scan is left.\<close>

lemma check_transform:
  assumes "transform_ref (check_closure L fs b who) p s = (Inr q, s')"
  shows "if verdict fs b who = ContractCheckApproved then scans_under is_marker q else scans_under (\<lambda>_. False) q"
proof -
  define g where "g = (if verdict fs b who = ContractCheckApproved then is_marker else (\<lambda>_. False))"
  from assms have "scans_under g q"
  proof (induction rule: transform_induct [where R = "\<lambda>_ q. scans_under g q"])
    case (jump p s q s')
    then obtain n m st where "evaluate_scan L fs b who p n (snd s) = ((q, m), st)" using check_closure_scan by blast
    from evaluate_scan_verdict [OF this] show ?case
      by (subst guarded.simps) (auto simp: g_def)
  next
    case (continue p s r s1 cs q)
    then have r: "r = p" "\<not> is_scan p" using check_closure_other by blast+
    have len: "length cs = length (linputs r)" using continue.IH r(1) by (simp add: list_all2_lengthD)
    have "\<forall>c\<in>set cs. scans_under g c"
      using continue.IH by (auto simp: list_all2_conv_all_nth in_set_conv_nth)
    then show ?case using guarded_rebuild [OF continue.hyps(2) len] with_inputs_shape(2) [OF continue.hyps(2) len] r by blast
  qed
  then show ?thesis by (simp add: g_def split: if_splits)
qed

lemma scans_under_False: "scans_under (\<lambda>_. False) q \<longleftrightarrow> (\<forall>p\<in>lnodes q. \<not> is_scan p)"
proof (induction "size q" arbitrary: q rule: less_induct)
  case less
  then show ?case by (subst guarded.simps, subst lnodes.simps) (auto simp: linputs_size)
qed

section \<open>One audit record per scan\<close>

fun own_name :: "lplan \<Rightarrow> string list" where
  "own_name (TableScan n _) = [n]" | "own_name _ = []"

function scan_names :: "lplan \<Rightarrow> string list" where
  "scan_names p = own_name p @ concat (map scan_names (linputs p))"
  by pat_completeness auto
termination
  by (relation "measure size") (auto simp: linputs_size)

declare scan_names.simps [simp del]

definition audit_view :: "bool \<times> check_state \<Rightarrow> (audit_kind \<times> string) list" where
  "audit_view s = map (\<lambda>a. (kind a, ar_table_name a)) (cs_audit_records (snd s))"

lemma check_transform_total:
  assumes "plan_wf p"
  shows "\<exists>q s'. transform_ref (check_closure L fs b who) p s = (Inr q, s') \<and> plan_wf q
    \<and> audit_view s' = audit_view s @ map (\<lambda>n. (verdict fs b who, n)) (scan_names p)"
  using assms
proof (rule transform_fold)
  fix p :: lplan and s assume wf: "plan_wf p"
  let ?f = "check_closure L fs b who" and ?H = "\<lambda>p m. m @ map (\<lambda>n. (verdict fs b who, n)) (scan_names p)"
  show "\<exists>q k s'. ?f p s = (Inr (q, k), s') \<and> plan_wf q \<and> (k = Jump \<longrightarrow> audit_view s' = ?H p (audit_view s))
      \<and> (k = Continue \<longrightarrow> linputs q = linputs p \<and> fold ?H (linputs p) (audit_view s') = ?H p (audit_view s))"
  proof (cases "is_scan p")
    case True
    then obtain n sch where p: "p = TableScan n sch" by (cases p) auto
    obtain q m st where e: "evaluate_scan L fs b who p n (snd s) = ((q, m), st)" by (metis surj_pair)
    have "\<exists>d. cs_audit_records st = cs_audit_records (snd s)
        @ [new_audit (cs_uuid (snd s)) (verdict fs b who) n (bundle_tenant_id b) (Some (bundle_contract_id b)) d]" "plan_wf q"
      using evaluate_scan_verdict [OF e] wf by auto
    then show ?thesis using e p
      by (subst scan_names.simps) (auto simp: check_closure_def audit_view_def new_audit_def split: option.splits)
  next
    case False
    then have "?f p s = (Inr (p, Continue), s)" by (cases p) (auto simp: check_closure_def)
    moreover have "fold ?H ps m = m @ map (\<lambda>n. (verdict fs b who, n)) (concat (map scan_names ps))" for ps m
      by (induction ps arbitrary: m) auto
    moreover have "scan_names p = concat (map scan_names (linputs p))"
      using False by (subst scan_names.simps) (cases p; simp)
    ultimately show ?thesis using wf by auto
  qed
qed

lemma verdict_approved:
  "verdict fs b who = ContractCheckApproved \<longleftrightarrow> (\<exists>d. parse_check_bundle fs b = Some d
     \<and> (allowed_purposes d = [] \<or> declared_purpose who \<in> set (allowed_purposes d))
     \<and> (\<forall>rt req pr. required_tier d = Some rt \<and> tier_rank rt = Some req \<and> tier_rank (principal_tier who) = Some pr \<longrightarrow> req \<le> pr)
     \<and> (\<forall>rc. required_classification d = Some rc \<longrightarrow> principal_classification who = rc))"
  by (auto simp: verdict_def check_principal_def not_less split: option.splits if_splits sum.splits)

lemma contract_check_result:
  assumes "transform_down_spec td" "plan_wf p"
  shows "\<exists>q ch st'. contract_check_rewrite td L fs b who p st = (Inr (q, ch), st') \<and> plan_wf q
    \<and> (verdict fs b who = ContractCheckApproved \<longrightarrow> scans_under is_marker q)
    \<and> (verdict fs b who \<noteq> ContractCheckApproved \<longrightarrow> (\<forall>n\<in>lnodes q. \<not> is_scan n))
    \<and> map (\<lambda>a. (kind a, ar_table_name a)) (cs_audit_records st')
        = map (\<lambda>a. (kind a, ar_table_name a)) (cs_audit_records st) @ map (\<lambda>n. (verdict fs b who, n)) (scan_names p)"
proof -
  obtain q ch st' where t: "transform_ref (check_closure L fs b who) p (False, st) = (Inr q, (ch, st'))" "plan_wf q"
    and a: "audit_view (ch, st') = audit_view (False, st) @ map (\<lambda>n. (verdict fs b who, n)) (scan_names p)"
    using check_transform_total [OF assms(2), of L fs b who "(False, st)"] by auto
  have "contract_check_rewrite td L fs b who p st = (Inr (q, ch), st')"
    by (simp add: contract_check_rewrite_def transform_down_eq [OF assms(1) shallow_check] t)
  then show ?thesis using check_transform [OF t(1)] t(2) a by (auto simp: scans_under_False audit_view_def split: if_splits)
qed


definition empty_check_state :: check_state where
  "empty_check_state = \<lparr>cs_audit_records = [], cs_approved_tables = [], cs_approved_set = [], cs_uuid = 0\<rparr>"

definition lp_ref :: lp_env where
  "lp_ref = \<lparr>lp_schema = (\<lambda>p. case p of TableScan _ s \<Rightarrow> s | _ \<Rightarrow> []), df_schema_try = Some,
     filter_try_new = (\<lambda>e _. Inr e), projection_try_new = (\<lambda>_ _. Inr ())\<rparr>"


end
