(* ===== verification/Physical_Plan.thy ===== *)
theory Physical_Plan
  imports Policy Privacy_Budget Sql_Ast
begin

text \<open>
  The physical plan tree (\<open>src/src/physical/mod.rs\<close>) and the approval marker
  (\<open>src/src/physical/contract_approved_exec.rs\<close>). An enforcement operator is a node with the
  struct's own fields; a plan node of DataFusion is opaque (its name, schema and children are what
  the sources read). What the operators share or mutate behind an \<open>Arc\<close> or a \<open>Mutex\<close> (event lists,
  the consumed epsilon, budget trackers, the thread's random generator) lives in \<open>world\<close>; a node
  holds the number of its cells there.
\<close>

section \<open>State\<close>

record physical_enforcement_event =
  operator_name :: string
  detail :: string

record world =
  next_id :: nat
  event_cells :: "nat \<Rightarrow> physical_enforcement_event list"
  eps_cells :: "nat \<Rightarrow> f64 option"
  trackers :: "nat \<Rightarrow> privacy_budget_tracker"
  rng_pos :: nat

text \<open>The fresh cells of a new node: no events, no epsilon consumed.\<close>

definition alloc_node :: "world \<Rightarrow> nat \<times> world" where
  "alloc_node w = (next_id w, w\<lparr>next_id := Suc (next_id w),
     event_cells := (event_cells w)(next_id w := []), eps_cells := (eps_cells w)(next_id w := None)\<rparr>)"

definition push_event :: "nat \<Rightarrow> physical_enforcement_event \<Rightarrow> world \<Rightarrow> world" where
  "push_event i e w = w\<lparr>event_cells := (event_cells w)(i := event_cells w i @ [e])\<rparr>"

definition drain_events :: "nat \<Rightarrow> world \<Rightarrow> physical_enforcement_event list \<times> world" where
  "drain_events i w = (event_cells w i, w\<lparr>event_cells := (event_cells w)(i := [])\<rparr>)"

section \<open>Plans\<close>

record df_node =
  node_name :: string
  node_schema :: schema
  node_key :: nat

record contract_approved_exec =
  ca_bundle :: contract_bundle_handle
  ca_id :: nat

record row_filter_exec =
  rf_bundle :: contract_bundle_handle
  rf_id :: nat
  row_filter_expr :: "string option"

record masking_exec =
  mk_bundle :: contract_bundle_handle
  mk_id :: nat
  column_policies :: "(string \<times> mask_policy) list"
  output_schema :: schema

record laplace_noise_exec =
  ln_bundle :: contract_bundle_handle
  ln_budget :: nat
  ln_tenant :: string
  ln_id :: nat
  ln_dp_columns :: "(string \<times> (f64 \<times> f64)) list"

record attestation_exec =
  at_bundle :: contract_bundle_handle
  query_sha :: string
  at_contract_version :: string

datatype plan =
    DfExec df_node "plan list"
  | ContractApprovedExec contract_approved_exec plan
  | RowFilterExec row_filter_exec plan
  | MaskingExec masking_exec plan
  | LaplaceNoiseExec laplace_noise_exec plan
  | AttestationExec attestation_exec plan

fun plan_name :: "plan \<Rightarrow> string" where
  "plan_name (DfExec n _) = node_name n"
| "plan_name (ContractApprovedExec _ _) = ''ContractApprovedExec''"
| "plan_name (RowFilterExec _ _) = ''RowFilterExec''"
| "plan_name (MaskingExec _ _) = ''MaskingExec''"
| "plan_name (LaplaceNoiseExec _ _) = ''LaplaceNoiseExec''"
| "plan_name (AttestationExec _ _) = ''AttestationExec''"

fun plan_children :: "plan \<Rightarrow> plan list" where
  "plan_children (DfExec _ ps) = ps"
| "plan_children (ContractApprovedExec _ p) = [p]"
| "plan_children (RowFilterExec _ p) = [p]"
| "plan_children (MaskingExec _ p) = [p]"
| "plan_children (LaplaceNoiseExec _ p) = [p]"
| "plan_children (AttestationExec _ p) = [p]"

fun plan_schema :: "plan \<Rightarrow> schema" where
  "plan_schema (DfExec n _) = node_schema n"
| "plan_schema (ContractApprovedExec _ p) = plan_schema p"
| "plan_schema (RowFilterExec _ p) = plan_schema p"
| "plan_schema (MaskingExec x _) = output_schema x"
| "plan_schema (LaplaceNoiseExec _ p) = plan_schema p"
| "plan_schema (AttestationExec _ p) = plan_schema p"

lemma plan_children_size [termination_simp]: "c \<in> set (plan_children p) \<Longrightarrow> size c < size p"
  by (cases p) (auto dest: size_list_estimation' [where f = size, OF _ order_refl] simp: less_Suc_eq_le trans_le_add2)

function plan_has_contract_approved :: "plan \<Rightarrow> bool" where
  "plan_has_contract_approved p \<longleftrightarrow>
     plan_name p = ''ContractApprovedExec'' \<or> (\<exists>c\<in>set (plan_children p). plan_has_contract_approved c)"
  by pat_completeness auto
termination
  by (relation "measure size") (auto simp: plan_children_size)

declare plan_has_contract_approved.simps [simp del]

section \<open>ContractApprovedExec\<close>

definition new_contract_approved :: "contract_bundle_handle \<Rightarrow> plan \<Rightarrow> world \<Rightarrow> physical_error + plan \<times> world" where
  "new_contract_approved bundle inner w =
     (if bundle_contract_id bundle = [] then Inl (ContractNotApproved ''ContractApprovedExec'')
      else let (i, w') = alloc_node w in Inr (ContractApprovedExec \<lparr>ca_bundle = bundle, ca_id = i\<rparr> inner, w'))"

definition emit_approval_event :: "contract_approved_exec \<Rightarrow> world \<Rightarrow> world" where
  "emit_approval_event x = push_event (ca_id x) \<lparr>operator_name = ''ContractApprovedExec'',
     detail = ''contract '' @ quoted (bundle_contract_id (ca_bundle x)) @ '' approved for execution''\<rparr>"

section \<open>Approval\<close>

text \<open>The nodes of a plan.\<close>

function subplans :: "plan \<Rightarrow> plan set" where
  "subplans p = insert p (\<Union>c\<in>set (plan_children p). subplans c)"
  by pat_completeness auto
termination
  by (relation "measure size") (auto simp: plan_children_size)

declare subplans.simps [simp del]

lemma approved_simps [simp]:
  "plan_has_contract_approved (ContractApprovedExec x p)"
  "plan_has_contract_approved (RowFilterExec r p) = plan_has_contract_approved p"
  "plan_has_contract_approved (MaskingExec m p) = plan_has_contract_approved p"
  "plan_has_contract_approved (LaplaceNoiseExec l p) = plan_has_contract_approved p"
  "plan_has_contract_approved (AttestationExec a p) = plan_has_contract_approved p"
  "plan_has_contract_approved (DfExec n ps) \<longleftrightarrow>
     node_name n = ''ContractApprovedExec'' \<or> (\<exists>c\<in>set ps. plan_has_contract_approved c)"
  by (subst plan_has_contract_approved.simps, simp)+

lemma approved_iff:
  "plan_has_contract_approved p \<longleftrightarrow> (\<exists>q\<in>subplans p. plan_name q = ''ContractApprovedExec'')"
proof (induction p rule: plan_has_contract_approved.induct)
  case (1 p)
  show ?case
    by (subst plan_has_contract_approved.simps, subst subplans.simps) (use 1 in auto)
qed

end
