(* ===== verification/Row_Filter_Exec.thy ===== *)
theory Row_Filter_Exec
  imports Physical_Plan
begin

text \<open>
  \<open>src/src/physical/row_filter_exec.rs\<close>: the operator that keeps the rows satisfying the contract's
  predicate. Compiling and evaluating a predicate are DataFusion's: they are the fields of the
  parameter \<open>expr_engine\<close>.
\<close>

section \<open>Model\<close>

record expr_engine =
  df_schema_ok :: "schema \<Rightarrow> bool"
  create_physical_expr :: "df_expr \<Rightarrow> schema \<Rightarrow> (record_batch \<Rightarrow> string + array) option"

text \<open>Evaluation (with \<open>into_array(num_rows)\<close>) gives one value per row of the batch.\<close>

definition expr_engine_spec :: "expr_engine \<Rightarrow> bool" where
  "expr_engine_spec X \<longleftrightarrow> (\<forall>e s run b a. create_physical_expr X e s = Some run \<and> run b = Inr a
     \<longrightarrow> array_len a = num_rows b)"

definition de_row_filter :: "json \<Rightarrow> string option option" where
  "de_row_filter j = Option.bind (struct_fields [''row_filter''] j) (\<lambda>fs.
     defaulted fs ''row_filter'' None (de_option de_string))"

definition parse_row_filter :: "from_slice \<Rightarrow> contract_bundle_handle \<Rightarrow> physical_error + string option" where
  "parse_row_filter from_slice bundle =
     (if raw_bytes bundle = [] then Inr None
      else ok_or (ContractBundleMalformed ''RowFilterExec bundle JSON parse error'')
             (Option.bind (from_slice (raw_bytes bundle)) de_row_filter))"

definition new_row_filter :: "from_slice \<Rightarrow> contract_bundle_handle \<Rightarrow> plan \<Rightarrow> world \<Rightarrow> physical_error + plan \<times> world" where
  "new_row_filter from_slice bundle inner w =
     (if \<not> plan_has_contract_approved inner then Inl (ContractNotApproved ''RowFilterExec'')
      else and_then (parse_row_filter from_slice bundle) (\<lambda>expr.
        let (i, w') = alloc_node w
        in Inr (RowFilterExec \<lparr>rf_bundle = bundle, rf_id = i, row_filter_expr = expr\<rparr> inner, w')))"

fun df_operator :: "binary_operator \<Rightarrow> string + operator" where
  "df_operator SqlEq = Inr Eq" | "df_operator SqlNotEq = Inr NotEq"
| "df_operator SqlLt = Inr Lt" | "df_operator SqlLtEq = Inr LtEq"
| "df_operator SqlGt = Inr Gt" | "df_operator SqlGtEq = Inr GtEq"
| "df_operator SqlAnd = Inr And" | "df_operator SqlOr = Inr Or"
| "df_operator _ = Inl ''unsupported binary operator''"

fun sql_ast_to_df_expr :: "sql_env \<Rightarrow> sql_expr \<Rightarrow> string + df_expr" where
  "sql_ast_to_df_expr E (BinaryOp l bop r) =
     and_then (df_operator bop) (\<lambda>df_op.
     and_then (sql_ast_to_df_expr E l) (\<lambda>left.
     and_then (sql_ast_to_df_expr E r) (\<lambda>right. Inr (EBinary left df_op right))))"
| "sql_ast_to_df_expr E (Identifier ident) = Inr (EColumn (col_ref E ident))"
| "sql_ast_to_df_expr E (Value v) = (case v of
     SingleQuotedString s \<Rightarrow> Inr (ELiteral (ScUtf8 (Some s)))
   | Number n \<Rightarrow> number_literal n
   | SqlBoolean b \<Rightarrow> Inr (ELiteral (ScBoolean (Some b)))
   | SqlNull \<Rightarrow> Inr (ELiteral ScNull)
   | SqlOtherValue _ \<Rightarrow> Inl ''unsupported literal'')"
| "sql_ast_to_df_expr E (Nested inner) = sql_ast_to_df_expr E inner"
| "sql_ast_to_df_expr E _ = Inl ''unsupported expression node''"

definition parse_filter_expr_to_df :: "sql_env \<Rightarrow> string \<Rightarrow> physical_error + df_expr" where
  "parse_filter_expr_to_df E expr_str =
     (case parse_sql E (''SELECT 1 WHERE '' @ expr_str) of
        None \<Rightarrow> Inl (ContractBundleMalformed (''RowFilterExec: could not parse filter expression '' @ quoted expr_str))
      | Some [] \<Rightarrow> Inl (ContractBundleMalformed (''RowFilterExec: empty parse result for filter '' @ quoted expr_str))
      | Some (stmt # _) \<Rightarrow> (case where_clause stmt of
          Some selection \<Rightarrow> map_err (\<lambda>why. ContractBundleMalformed (''RowFilterExec: filter '' @ quoted expr_str
              @ '' uses unsupported expression: '' @ why)) (sql_ast_to_df_expr E selection)
        | None \<Rightarrow> Inl (ContractBundleMalformed (''RowFilterExec: could not extract WHERE clause from '' @ quoted expr_str))))"

definition apply_filter_to_batch :: "arrow \<Rightarrow> sql_env \<Rightarrow> expr_engine \<Rightarrow> record_batch \<Rightarrow> string \<Rightarrow> physical_error + record_batch" where
  "apply_filter_to_batch A E X batch filter_expr_str =
     (if \<not> df_schema_ok X (batch_schema batch) then Inl (PhysInternal ''DFSchema conversion error'')
      else and_then (parse_filter_expr_to_df E filter_expr_str) (\<lambda>df_expr.
        and_then (ok_or (PhysInternal ''PhysicalExpr compilation error'')
          (create_physical_expr X df_expr (batch_schema batch))) (\<lambda>physical_expr.
        and_then (map_err PhysInternal (physical_expr batch)) (\<lambda>bool_array.
          case bool_array of
            BooleanArray bs \<Rightarrow> ok_or (PhysInternal ''filter_record_batch error'') (filter_record_batch A batch bs)
          | _ \<Rightarrow> Inl (PhysInternal ''predicate did not evaluate to BooleanArray'')))))"

text \<open>The closure the operator maps over its input stream.\<close>

definition filter_item :: "arrow \<Rightarrow> sql_env \<Rightarrow> expr_engine \<Rightarrow> string option \<Rightarrow> record_batch \<Rightarrow> df_error + record_batch" where
  "filter_item A E X filter_expr batch =
     (case filter_expr of
        None \<Rightarrow> Inr batch
      | Some s \<Rightarrow> if s = [] then Inr batch
          else map_err (\<lambda>e. DfExternalPhysical e) (apply_filter_to_batch A E X batch s))"

section \<open>Rows\<close>

lemma keep_array_len:
  "length m = array_len a \<Longrightarrow> array_len (keep_array m a) = length (filter (\<lambda>b. b) m)"
  unfolding array_len_def by (simp add: keep_length)

lemma batch_ok_keep:
  assumes "batch_ok b" "length m = num_rows b"
  shows "batch_ok (b\<lparr>batch_columns := map (keep_array m) (batch_columns b)\<rparr>)"
proof -
  let ?cs = "batch_columns b"
  have ne: "?cs \<noteq> []" and f: "list_all2 column_fits (batch_schema b) ?cs" and ok: "\<forall>a\<in>set ?cs. array_ok a"
    using assms(1) by (auto simp: batch_ok_def batch_fits_def)
  have len: "array_len a = length m" if "a \<in> set ?cs" for a
    using num_rows_len [OF assms(1) that] assms(2) by simp
  have "list_all2 column_fits (batch_schema b) (map (keep_array m) ?cs)"
    unfolding list_all2_map2 using f
    by (rule list_all2_mono) (use set_keep in \<open>fastforce simp: column_fits_def\<close>)
  moreover have "array_len (keep_array m a) = length (filter (\<lambda>b. b) m)" if "a \<in> set ?cs" for a
    using len [OF that] by (simp add: keep_array_len)
  ultimately show ?thesis using ne ok by (auto simp: batch_ok_def batch_fits_def hd_map)
qed

lemma case_boolean_array:
  "(case a of BooleanArray bs \<Rightarrow> f bs | _ \<Rightarrow> Inl e) = Inr out \<longleftrightarrow> (\<exists>bs. a = BooleanArray bs \<and> f bs = Inr out)"
  by (cases a) auto

text \<open>What a filtered batch is made from: each step of \<open>apply_filter_to_batch\<close> succeeded.\<close>

lemma apply_filter_inv:
  assumes "arrow_spec A" "apply_filter_to_batch A E X b s = Inr out"
  obtains stmt rest sel e run bs where "parse_sql E (''SELECT 1 WHERE '' @ s) = Some (stmt # rest)"
    "where_clause stmt = Some sel" "sql_ast_to_df_expr E sel = Inr e"
    "create_physical_expr X e (batch_schema b) = Some run" "run b = Inr (BooleanArray bs)" "length bs = num_rows b"
    "out = b\<lparr>batch_columns := map (keep_array (map (\<lambda>x. x = Some True) bs)) (batch_columns b)\<rparr>"
proof -
  from assms(2) obtain e run bs where p: "parse_filter_expr_to_df E s = Inr e"
    "create_physical_expr X e (batch_schema b) = Some run" "run b = Inr (BooleanArray bs)"
    "filter_record_batch A b bs = Some out"
    by (auto simp: apply_filter_to_batch_def result_simps case_boolean_array split: if_splits)
  from p(1) obtain stmt rest sel where "parse_sql E (''SELECT 1 WHERE '' @ s) = Some (stmt # rest)"
    "where_clause stmt = Some sel" "sql_ast_to_df_expr E sel = Inr e"
    by (auto simp: parse_filter_expr_to_df_def result_simps split: option.splits list.splits)
  then show ?thesis using p(2-4) that arrow_spec_filter [OF assms(1)] by (auto split: if_splits)
qed

lemma filter_item_ok:
  assumes "arrow_spec A" "batch_ok b" "filter_item A E X f b = Inr out"
  shows "batch_ok out \<and> batch_schema out = batch_schema b \<and> num_rows out \<le> num_rows b"
proof (cases "f = None \<or> f = Some []")
  case True
  then show ?thesis using assms by (auto simp: filter_item_def)
next
  case False
  then obtain s where "f = Some s" "apply_filter_to_batch A E X b s = Inr out"
    using assms(3) by (auto simp: filter_item_def result_simps split: option.splits if_splits)
  then obtain bs where l: "length bs = num_rows b"
    and out: "out = b\<lparr>batch_columns := map (keep_array (map (\<lambda>x. x = Some True) bs)) (batch_columns b)\<rparr>"
    using apply_filter_inv [OF assms(1)] by metis
  obtain a cs where cs: "batch_columns b = a # cs"
    using assms(2) by (cases "batch_columns b") (auto simp: batch_ok_def batch_fits_def)
  have "array_len a = length bs" using l cs by (simp add: num_rows_def)
  then have "num_rows out \<le> length bs"
    using length_filter_le [of "\<lambda>b. b" "map (\<lambda>x. x = Some True) bs"]
    by (simp add: out cs num_rows_def keep_array_len)
  then show ?thesis using batch_ok_keep [OF assms(2)] l by (simp add: out)
qed

text \<open>
  C9: the row filter is fail-closed and exact. When the contract has a non-empty predicate, a batch
  leaves the operator only if the predicate's text was parsed, translated, compiled and evaluated to
  one boolean per row; the batch then holds, in every column, exactly the rows whose boolean is true
  (null counts as false), under an unchanged schema, and is again a well-formed batch. An unreadable
  or unsupported predicate lets no row through.
\<close>

theorem filter_item_exact:
  assumes "arrow_spec A" "batch_ok b" "s \<noteq> []" "filter_item A E X (Some s) b = Inr out"
  shows "batch_ok out \<and> batch_schema out = batch_schema b
    \<and> (\<exists>stmt rest sel e run bs. parse_sql E (''SELECT 1 WHERE '' @ s) = Some (stmt # rest)
        \<and> where_clause stmt = Some sel \<and> sql_ast_to_df_expr E sel = Inr e
        \<and> create_physical_expr X e (batch_schema b) = Some run \<and> run b = Inr (BooleanArray bs)
        \<and> length bs = num_rows b
        \<and> batch_columns out = map (keep_array (map (\<lambda>x. x = Some True) bs)) (batch_columns b))"
proof -
  from assms(3,4) have "apply_filter_to_batch A E X b s = Inr out"
    by (auto simp: filter_item_def result_simps)
  note inv = apply_filter_inv [OF assms(1) this]
  show ?thesis using filter_item_ok [OF assms(1,2,4)] by (rule_tac inv) auto
qed

end
