(* ===== verification/Row_Filter_Rule.thy ===== *)
theory Row_Filter_Rule
  imports Contract_Check_Rule Row_Filter_Exec
begin

text \<open>
  \<open>src/src/optimizer_rules/row_filter.rs\<close>: the second optimizer rule, which puts a filter with the
  contract's predicate on top of every approved scan, and its translation of SQL predicates, which is
  larger than that of the physical operator.
\<close>

section \<open>Model\<close>

record row_filter_data =
  rd_row_filter :: "string option"
  per_principal_row_filters :: "(string \<times> string option) list"

definition de_row_filter_data :: "json \<Rightarrow> row_filter_data option" where
  "de_row_filter_data j = Option.bind (struct_fields [''row_filter'', ''per_principal_row_filters''] j) (\<lambda>fs.
     Option.bind (defaulted fs ''row_filter'' None (de_option de_string)) (\<lambda>f.
     Option.bind (defaulted fs ''per_principal_row_filters'' [] (de_hash_map (de_option de_string))) (\<lambda>m.
       Some \<lparr>rd_row_filter = f, per_principal_row_filters = m\<rparr>)))"

definition parse_filter_bundle :: "from_slice \<Rightarrow> contract_bundle_handle \<Rightarrow> row_filter_data option" where
  "parse_filter_bundle from_slice bundle =
     (if raw_bytes bundle = [] then None else Option.bind (from_slice (raw_bytes bundle)) de_row_filter_data)"

definition effective_row_filter :: "principal \<Rightarrow> row_filter_data \<Rightarrow> string option" where
  "effective_row_filter who data = (case map_of (per_principal_row_filters data) (principal_id who) of
     Some per_principal \<Rightarrow> per_principal
   | None \<Rightarrow> rd_row_filter data)"

fun rule_operator :: "binary_operator \<Rightarrow> string + operator" where
  "rule_operator SqlEq = Inr Eq" | "rule_operator SqlNotEq = Inr NotEq"
| "rule_operator SqlLt = Inr Lt" | "rule_operator SqlLtEq = Inr LtEq"
| "rule_operator SqlGt = Inr Gt" | "rule_operator SqlGtEq = Inr GtEq"
| "rule_operator SqlAnd = Inr And" | "rule_operator SqlOr = Inr Or"
| "rule_operator PGLikeMatch = Inr LikeMatch" | "rule_operator PGNotLikeMatch = Inr NotLikeMatch"
| "rule_operator (SqlOtherOp _) = Inl ''unsupported binary operator''"

fun sql_expr_to_df_expr :: "sql_env \<Rightarrow> sql_expr \<Rightarrow> string + df_expr" where
  "sql_expr_to_df_expr E (BinaryOp l bop r) =
     and_then (rule_operator bop) (\<lambda>df_op.
     and_then (sql_expr_to_df_expr E l) (\<lambda>left.
     and_then (sql_expr_to_df_expr E r) (\<lambda>right. Inr (EBinary left df_op right))))"
| "sql_expr_to_df_expr E (UnaryOp SqlNot e) = and_then (sql_expr_to_df_expr E e) (\<lambda>x. Inr (ENot x))"
| "sql_expr_to_df_expr E (IsNull e) = and_then (sql_expr_to_df_expr E e) (\<lambda>x. Inr (EIsNull x))"
| "sql_expr_to_df_expr E (IsNotNull e) = and_then (sql_expr_to_df_expr E e) (\<lambda>x. Inr (EIsNotNull x))"
| "sql_expr_to_df_expr E (InList e es negated) =
     and_then (sql_expr_to_df_expr E e) (\<lambda>x.
     and_then (map_r (sql_expr_to_df_expr E) es) (\<lambda>xs. Inr (EInList x xs negated)))"
| "sql_expr_to_df_expr E (Identifier ident) = Inr (EColumn (col_ref E ident))"
| "sql_expr_to_df_expr E (Like negated e pat _) =
     and_then (sql_expr_to_df_expr E e) (\<lambda>x.
     and_then (sql_expr_to_df_expr E pat) (\<lambda>p. Inr (EBinary x (if negated then NotLikeMatch else LikeMatch) p)))"
| "sql_expr_to_df_expr E (Value v) = (case v of
     SingleQuotedString s \<Rightarrow> Inr (ELiteral (ScUtf8 (Some s)))
   | Number n \<Rightarrow> number_literal n
   | SqlBoolean b \<Rightarrow> Inr (ELiteral (ScBoolean (Some b)))
   | SqlNull \<Rightarrow> Inr (ELiteral ScNull)
   | SqlOtherValue _ \<Rightarrow> Inl ''unsupported literal value'')"
| "sql_expr_to_df_expr E (Nested inner) = sql_expr_to_df_expr E inner"
| "sql_expr_to_df_expr E _ = Inl ''unsupported expression node''"

definition parse_filter_expr :: "sql_env \<Rightarrow> string \<Rightarrow> df_error + df_expr" where
  "parse_filter_expr E expr_str =
     (case parse_sql E (''SELECT 1 WHERE '' @ expr_str) of
        None \<Rightarrow> Inl (DfExternal (''ContractFilterUnsupported: could not parse filter expression '' @ quoted expr_str))
      | Some [] \<Rightarrow> Inl (DfExternal (''ContractFilterUnsupported: empty parse result for filter '' @ quoted expr_str))
      | Some (stmt # _) \<Rightarrow> (case where_clause stmt of
          Some selection \<Rightarrow> map_err (\<lambda>why. DfExternal (''ContractFilterUnsupported: filter '' @ quoted expr_str
              @ '' uses unsupported expression: '' @ why)) (sql_expr_to_df_expr E selection)
        | None \<Rightarrow> Inl (DfExternal (''ContractFilterUnsupported: could not extract WHERE clause from '' @ quoted expr_str))))"

definition row_filter_closure :: "lp_env \<Rightarrow> df_expr \<Rightarrow> bool closure" where
  "row_filter_closure L filter_expr node changed =
     (case node of
        Extension n _ \<Rightarrow>
          if ext_name n = ''ContractApproved'' then
            (case filter_try_new L filter_expr node of
               Inl e \<Rightarrow> (Inl e, True)
             | Inr e' \<Rightarrow> (Inr (LFilter e' node, Jump), True))
          else (Inr (node, Continue), changed)
      | _ \<Rightarrow> (Inr (node, Continue), changed))"

definition row_filter_rewrite :: "bool transform \<Rightarrow> lp_env \<Rightarrow> sql_env \<Rightarrow> from_slice \<Rightarrow> contract_bundle_handle \<Rightarrow> principal \<Rightarrow> lplan \<Rightarrow> df_error + lplan \<times> bool" where
  "row_filter_rewrite td L E from_slice bundle who plan =
     (case parse_filter_bundle from_slice bundle of
        None \<Rightarrow> Inr (plan, False)
      | Some data \<Rightarrow> (case effective_row_filter who data of
          None \<Rightarrow> Inr (plan, False)
        | Some expr_str \<Rightarrow> if expr_str = [] then Inr (plan, False)
            else and_then (parse_filter_expr E expr_str) (\<lambda>filter_expr.
              case td (row_filter_closure L filter_expr) plan False of
                (Inl e, _) \<Rightarrow> Inl e
              | (Inr new_plan, changed) \<Rightarrow> Inr (new_plan, changed))))"

section \<open>The two translations\<close>

lemma df_operator_agrees: "df_operator bop = Inr op \<Longrightarrow> rule_operator bop = Inr op"
  by (cases bop) auto

lemma conversion_agrees: "sql_ast_to_df_expr E e = Inr d \<Longrightarrow> sql_expr_to_df_expr E e = Inr d"
  by (induction E e arbitrary: d rule: sql_ast_to_df_expr.induct)
     (auto simp: and_then_eq_Inr df_operator_agrees split: sql_value.splits)

text \<open>The predicates the logical rule translates, and those the physical operator does.\<close>

fun literal_ok :: "sql_value \<Rightarrow> bool" where
  "literal_ok (Number n) \<longleftrightarrow> is_ok (number_literal n)"
| "literal_ok (SqlOtherValue _) \<longleftrightarrow> False"
| "literal_ok _ \<longleftrightarrow> True"

fun rule_supports :: "sql_expr \<Rightarrow> bool" where
  "rule_supports (BinaryOp l bop r) \<longleftrightarrow> (\<forall>k. bop \<noteq> SqlOtherOp k) \<and> rule_supports l \<and> rule_supports r"
| "rule_supports (UnaryOp op e) \<longleftrightarrow> op = SqlNot \<and> rule_supports e"
| "rule_supports (IsNull e) = rule_supports e"
| "rule_supports (IsNotNull e) = rule_supports e"
| "rule_supports (InList e es _) \<longleftrightarrow> rule_supports e \<and> (\<forall>x\<in>set es. rule_supports x)"
| "rule_supports (Identifier _) = True"
| "rule_supports (Like _ e p _) \<longleftrightarrow> rule_supports e \<and> rule_supports p"
| "rule_supports (Value v) = literal_ok v"
| "rule_supports (Nested e) = rule_supports e"
| "rule_supports (SqlOther _) = False"

fun exec_supports :: "sql_expr \<Rightarrow> bool" where
  "exec_supports (BinaryOp l bop r) \<longleftrightarrow> bop \<in> {SqlEq, SqlNotEq, SqlLt, SqlLtEq, SqlGt, SqlGtEq, SqlAnd, SqlOr}
     \<and> exec_supports l \<and> exec_supports r"
| "exec_supports (Identifier _) = True"
| "exec_supports (Value v) = literal_ok v"
| "exec_supports (Nested e) = exec_supports e"
| "exec_supports _ = False"

lemma is_ok_and_then: "is_ok (and_then r f) \<longleftrightarrow> (\<exists>x. r = Inr x \<and> is_ok (f x))"
  by (cases r) auto

lemma rule_operator_ok: "is_ok (rule_operator bop) \<longleftrightarrow> (\<forall>k. bop \<noteq> SqlOtherOp k)"
  by (cases bop) auto

lemma map_r_ok: "is_ok (map_r f xs) \<longleftrightarrow> (\<forall>x\<in>set xs. is_ok (f x))"
  by (induction xs) (auto simp: is_ok_iff and_then_eq_Inr)

lemma rule_conversion_ok: "is_ok (sql_expr_to_df_expr E e) \<longleftrightarrow> rule_supports e"
proof (induction e)
  case (BinaryOp l bop r)
  then show ?case using rule_operator_ok [of bop] by (auto simp: is_ok_iff and_then_eq_Inr)
next
  case (UnaryOp op e)
  then show ?case by (cases op) (auto simp: is_ok_iff and_then_eq_Inr)
next
  case (InList e es n)
  then show ?case using map_r_ok [of "sql_expr_to_df_expr E" es] by (auto simp: is_ok_iff and_then_eq_Inr)
next
  case (Value v)
  then show ?case by (cases v) auto
qed (auto simp: is_ok_iff and_then_eq_Inr)

lemma exec_operator_ok: "is_ok (df_operator bop) \<longleftrightarrow> bop \<in> {SqlEq, SqlNotEq, SqlLt, SqlLtEq, SqlGt, SqlGtEq, SqlAnd, SqlOr}"
  by (cases bop) auto

lemma exec_conversion_ok: "is_ok (sql_ast_to_df_expr E e) \<longleftrightarrow> exec_supports e"
proof (induction e)
  case (BinaryOp l bop r)
  then show ?case using exec_operator_ok [of bop] by (auto simp: is_ok_iff and_then_eq_Inr)
next
  case (Value v)
  then show ?case by (cases v) auto
qed auto

text \<open>
  C28: the physical and the logical row filter agree. Every predicate the physical operator can
  translate, the optimizer rule translates to the very same expression; and each refuses exactly the
  predicates outside its own grammar (the operator has no NOT, IN, LIKE and IS NULL).
\<close>

theorem filter_translations_agree:
  "(\<forall>d. sql_ast_to_df_expr E e = Inr d \<longrightarrow> sql_expr_to_df_expr E e = Inr d)
   \<and> (is_ok (sql_expr_to_df_expr E e) \<longleftrightarrow> rule_supports e)
   \<and> (is_ok (sql_ast_to_df_expr E e) \<longleftrightarrow> exec_supports e)"
  using conversion_agrees rule_conversion_ok exec_conversion_ok by blast

theorem filter_translations_agree_witness:
  "sql_expr_to_df_expr \<lparr>parse_sql = (\<lambda>_. None), col_ref = (\<lambda>s. \<lparr>relation = None, column_name = s\<rparr>)\<rparr>
     (BinaryOp (Identifier ''region'') SqlEq (Value (SingleQuotedString ''EU'')))
   = Inr (EBinary (EColumn \<lparr>relation = None, column_name = ''region''\<rparr>) Eq (ELiteral (ScUtf8 (Some ''EU''))))"
  using filter_translations_agree [of "\<lparr>parse_sql = (\<lambda>_. None), col_ref = (\<lambda>s. \<lparr>relation = None, column_name = s\<rparr>)\<rparr>"
    "BinaryOp (Identifier ''region'') SqlEq (Value (SingleQuotedString ''EU''))"] by simp

section \<open>Filters above approved scans\<close>

lemma shallow_row_filter: "shallow (row_filter_closure L e)"
  by (auto simp: shallow_def row_filter_closure_def split: lplan.splits if_splits sum.splits)

lemma row_filter_transform:
  assumes "transform_ref (row_filter_closure L e) p s = (Inr q, s')" "scans_under is_marker p"
    and "\<And>node e'. filter_try_new L e node = Inr e' \<Longrightarrow> e' = e"
  shows "scans_under (is_filter e) q"
  using assms(1,2)
proof (rule transform_guarded)
  fix p s q s' assume "row_filter_closure L e p s = (Inr (q, Jump), s')"
  then have "is_filter e q"
    using assms(3) by (auto simp: row_filter_closure_def split: lplan.splits if_splits sum.splits)
  then show "scans_under (is_filter e) q" by (simp add: guarded.simps [of is_scan "is_filter e" q])
next
  fix p s r s1 assume "row_filter_closure L e p s = (Inr (r, Continue), s1)"
  then show "linputs r = linputs p \<and> (is_marker p \<longrightarrow> is_filter e r)"
    by (cases p; auto simp: row_filter_closure_def split: if_splits sum.splits)
next
  fix p s r s1 cs q
  assume "row_filter_closure L e p s = (Inr (r, Continue), s1)" "with_inputs r cs = Inr q" "length cs = length (linputs r)" "\<not> is_scan p"
  then show "\<not> is_scan q" using with_inputs_shape(2) [of r cs q]
    by (auto simp: row_filter_closure_def split: lplan.splits if_splits sum.splits)
qed (simp add: with_inputs_shape(4))

lemma row_filter_total:
  assumes "plan_wf p" "\<And>node. filter_try_new L e node = Inr e"
  shows "\<exists>q s'. transform_ref (row_filter_closure L e) p s = (Inr q, s') \<and> plan_wf q \<and> () = ()"
  using assms(1)
proof (rule transform_fold [where \<mu> = "\<lambda>_. ()" and H = "\<lambda>_ _. ()"])
  fix p :: lplan and s assume "plan_wf p"
  then show "\<exists>q k s'. row_filter_closure L e p s = (Inr (q, k), s') \<and> plan_wf q \<and> (k = Jump \<longrightarrow> () = ())
      \<and> (k = Continue \<longrightarrow> linputs q = linputs p \<and> fold (\<lambda>_ _. ()) (linputs p) () = ())"
    by (cases p) (auto simp: row_filter_closure_def assms(2))
qed


end
