(* ===== verification/Masking_Rule.thy ===== *)
theory Masking_Rule
  imports Row_Filter_Rule
begin

text \<open>
  \<open>src/src/optimizer_rules/masking.rs\<close>: the third optimizer rule, which replaces every projected
  column that has a masking policy, plain or under an alias, by a masking expression, in projections
  over approved subtrees. \<open>dbg\<close> is DataFusion's debug rendering of an expression.
\<close>

section \<open>Model\<close>

record column_policy =
  cp_sensitivity :: string
  cp_mask :: string

definition de_column_policy :: "json \<Rightarrow> column_policy option" where
  "de_column_policy j = Option.bind (struct_fields [''sensitivity'', ''mask''] j) (\<lambda>fs.
     Option.bind (defaulted fs ''sensitivity'' [] de_string) (\<lambda>s.
     Option.bind (defaulted fs ''mask'' [] de_string) (\<lambda>m. Some \<lparr>cp_sensitivity = s, cp_mask = m\<rparr>)))"

type_synonym masking_data = "(string \<times> column_policy) list"

definition de_masking_data :: "json \<Rightarrow> masking_data option" where
  "de_masking_data j = Option.bind (struct_fields [''column_policies''] j) (\<lambda>fs.
     defaulted fs ''column_policies'' [] (de_hash_map de_column_policy))"

text \<open>The policies themselves, and \<open>from_bundle_str\<close>, are those of the theory \<open>Policy\<close>.\<close>

fun mask_fn_name :: "mask_policy \<Rightarrow> string" where
  "mask_fn_name PRedact = ''mask_redact''" | "mask_fn_name PHashSha256 = ''mask_hash_sha256''"
| "mask_fn_name PPartial = ''mask_partial''" | "mask_fn_name PNull = ''mask_null''"
| "mask_fn_name PTokenize = ''mask_tokenize''" | "mask_fn_name PNoop = ''mask_noop''"

definition parse_mask_rule_bundle :: "from_slice \<Rightarrow> contract_bundle_handle \<Rightarrow> masking_data option" where
  "parse_mask_rule_bundle from_slice bundle =
     (if raw_bytes bundle = [] then None else Option.bind (from_slice (raw_bytes bundle)) de_masking_data)"

definition rule_policy_for_column :: "from_slice \<Rightarrow> contract_bundle_handle \<Rightarrow> string \<Rightarrow> mask_policy" where
  "rule_policy_for_column from_slice bundle name = (case parse_mask_rule_bundle from_slice bundle of
     None \<Rightarrow> PNoop
   | Some d \<Rightarrow> (case map_of d name of None \<Rightarrow> PNoop | Some p \<Rightarrow> from_bundle_str (cp_mask p)))"

definition mask_output_name :: "(df_expr \<Rightarrow> string) \<Rightarrow> df_expr \<Rightarrow> string" where
  "mask_output_name dbg e = (case e of
     EColumn c \<Rightarrow> column_name c
   | EAlias e' _ \<Rightarrow> (case e' of EColumn c \<Rightarrow> column_name c | _ \<Rightarrow> dbg e)
   | _ \<Rightarrow> dbg e)"

fun mask_inner :: "df_expr \<Rightarrow> mask_policy \<Rightarrow> df_expr" where
  "mask_inner e PRedact = ELiteral (ScUtf8 (Some ''<REDACTED>''))"
| "mask_inner e PHashSha256 = ECast (EScalarFunction ''sha256'' [e]) Utf8"
| "mask_inner e PTokenize = ECast (EScalarFunction ''sha256'' [e]) Utf8"
| "mask_inner e PPartial = EScalarFunction ''concat'' [ELiteral (ScUtf8 (Some ''***'')),
     EScalarFunction ''right'' [e, ELiteral (ScInt64 (Some 4))]]"
| "mask_inner e PNull = ELiteral (ScUtf8 None)"
| "mask_inner e PNoop = e"

definition rule_apply_mask :: "(df_expr \<Rightarrow> string) \<Rightarrow> df_expr \<Rightarrow> mask_policy \<Rightarrow> df_expr" where
  "rule_apply_mask dbg e policy = (if policy = PNoop then e else EAlias (mask_inner e policy) (mask_output_name dbg e))"

text \<open>The column a projected expression shows, if it is a column or an alias of one.\<close>

fun projected_column :: "df_expr \<Rightarrow> string option" where
  "projected_column (EColumn c) = Some (column_name c)"
| "projected_column (EAlias (EColumn c) _) = Some (column_name c)"
| "projected_column _ = None"

definition mask_projected :: "(df_expr \<Rightarrow> string) \<Rightarrow> masking_data \<Rightarrow> df_expr \<Rightarrow> df_expr \<times> bool" where
  "mask_projected dbg data e = (case projected_column e of
     None \<Rightarrow> (e, False)
   | Some name \<Rightarrow> (case map_of data name of
       None \<Rightarrow> (e, False)
     | Some entry \<Rightarrow> (let policy = from_bundle_str (cp_mask entry) in
         if policy \<noteq> PNoop then (rule_apply_mask dbg e policy, True) else (e, False))))"

definition masking_closure :: "lp_env \<Rightarrow> (df_expr \<Rightarrow> string) \<Rightarrow> masking_data \<Rightarrow> bool closure" where
  "masking_closure L dbg data node changed =
     (case node of
        Projection es i \<Rightarrow>
          if \<not> subtree_has_approval_marker i then (Inr (node, Continue), changed)
          else (let masked = map (mask_projected dbg data) es in
            if list_ex snd masked then
              (case projection_try_new L (map fst masked) i of
                 Inl e \<Rightarrow> (Inl e, True)
               | Inr _ \<Rightarrow> (Inr (Projection (map fst masked) i, Continue), True))
            else (Inr (node, Continue), changed))
      | _ \<Rightarrow> (Inr (node, Continue), changed))"

definition masking_rewrite :: "bool transform \<Rightarrow> lp_env \<Rightarrow> (df_expr \<Rightarrow> string) \<Rightarrow> from_slice \<Rightarrow> contract_bundle_handle
    \<Rightarrow> lplan \<Rightarrow> df_error + lplan \<times> bool" where
  "masking_rewrite td L dbg from_slice bundle plan =
     (case parse_mask_rule_bundle from_slice bundle of
        None \<Rightarrow> Inr (plan, False)
      | Some data \<Rightarrow> if data = [] then Inr (plan, False)
          else (case td (masking_closure L dbg data) plan False of
              (Inl e, _) \<Rightarrow> Inl e
            | (Inr new_plan, changed) \<Rightarrow> Inr (new_plan, changed)))"

section \<open>Masked projections\<close>

text \<open>The columns an expression can read.\<close>

fun expr_columns :: "df_expr \<Rightarrow> string set" where
  "expr_columns (EColumn c) = {column_name c}"
| "expr_columns (ELiteral _) = {}"
| "expr_columns (EBinary l _ r) = expr_columns l \<union> expr_columns r"
| "expr_columns (ENot e) = expr_columns e"
| "expr_columns (EIsNull e) = expr_columns e"
| "expr_columns (EIsNotNull e) = expr_columns e"
| "expr_columns (EInList e es _) = expr_columns e \<union> (\<Union>x\<in>set es. expr_columns x)"
| "expr_columns (EAlias e _) = expr_columns e"
| "expr_columns (ECast e _) = expr_columns e"
| "expr_columns (EScalarFunction _ es) = (\<Union>x\<in>set es. expr_columns x)"
| "expr_columns (EAggregateFunction _ es) = (\<Union>x\<in>set es. expr_columns x)"
| "expr_columns (EOther _ es) = (\<Union>x\<in>set es. expr_columns x)"

text \<open>
  An expression of the output is covered: it is not itself a masked column, and where it stands in the
  place of one with a constant mask it reads no column at all.
\<close>

definition policy_in :: "masking_data \<Rightarrow> string \<Rightarrow> mask_policy" where
  "policy_in data name = (case map_of data name of None \<Rightarrow> PNoop | Some p \<Rightarrow> from_bundle_str (cp_mask p))"

definition covered :: "masking_data \<Rightarrow> df_expr \<Rightarrow> bool" where
  "covered data e \<longleftrightarrow> (\<forall>c. projected_column e = Some c \<longrightarrow> policy_in data c = PNoop)"

fun bare_projection :: "masking_data \<Rightarrow> lplan \<Rightarrow> bool" where
  "bare_projection data (Projection es i) \<longleftrightarrow> subtree_has_approval_marker i \<and> \<not> list_all (covered data) es"
| "bare_projection data _ \<longleftrightarrow> False"

lemma policy_for_column_parsed:
  "parse_mask_rule_bundle fs b = Some d \<Longrightarrow> rule_policy_for_column fs b = policy_in d"
  by (auto simp: rule_policy_for_column_def policy_in_def fun_eq_iff)

lemma projected_mask_inner: "p \<noteq> PNoop \<Longrightarrow> projected_column (EAlias (mask_inner e p) n) = None"
  by (cases p) auto

lemma mask_projected_eq: "mask_projected dbg data e = (case projected_column e of
    None \<Rightarrow> (e, False) | Some c \<Rightarrow> if policy_in data c = PNoop then (e, False) else (rule_apply_mask dbg e (policy_in data c), True))"
  by (auto simp: mask_projected_def policy_in_def Let_def split: option.splits)

lemma mask_projected_covered: "covered data (fst (mask_projected dbg data e))"
  by (auto simp: covered_def mask_projected_eq rule_apply_mask_def projected_mask_inner split: option.splits)

lemma mask_projected_changed: "snd (mask_projected dbg data e) \<longleftrightarrow> \<not> covered data e"
  by (auto simp: covered_def mask_projected_eq split: option.splits)

lemma masking_closure_continue:
  "masking_closure L dbg data p s = (Inr (r, k), s') \<Longrightarrow> k = Continue \<and> linputs r = linputs p
     \<and> is_marker r = is_marker p \<and> is_scan r = is_scan p \<and> is_filter e r = is_filter e p \<and> \<not> bare_projection data r
     \<and> (plan_wf p \<longrightarrow> plan_wf r)"
  by (auto simp: masking_closure_def Let_def list_all_iff list_ex_iff mask_projected_covered mask_projected_changed
      split: lplan.splits if_splits sum.splits)

lemma shallow_masking: "shallow (masking_closure L dbg data)"
  unfolding shallow_def using masking_closure_continue by blast

lemma masking_marker:
  "transform_ref (masking_closure L dbg data) p s = (Inr q, s') \<Longrightarrow> subtree_has_approval_marker q \<longrightarrow> subtree_has_approval_marker p"
  by (erule transform_marker) (use masking_closure_continue in blast)+

lemma bare_rebuild:
  assumes "with_inputs r cs = Inr q" "length cs = length (linputs r)" "\<not> bare_projection data r"
    and "list_all2 (\<lambda>i c. subtree_has_approval_marker c \<longrightarrow> subtree_has_approval_marker i) (linputs r) cs"
  shows "\<not> bare_projection data q"
proof (cases r)
  case (Extension n ps)
  then show ?thesis using assms by (cases n) (auto split: list.splits)
qed (use assms in \<open>cases cs; auto\<close>)+

lemma masking_transform:
  assumes "transform_ref (masking_closure L dbg data) p s = (Inr q, s')"
  shows "\<forall>n\<in>lnodes q. \<not> bare_projection data n"
proof -
  let ?R = "\<lambda>p q. (\<forall>n\<in>lnodes q. \<not> bare_projection data n) \<and> (subtree_has_approval_marker q \<longrightarrow> subtree_has_approval_marker p)"
  from assms have "?R p q"
  proof (induction rule: transform_induct [where R = ?R])
    case (jump p s q s')
    then show ?case using masking_closure_continue [OF jump] by simp
  next
    case (continue p s r s1 cs q)
    note ih = continue(2) and w = continue(3)
    note c = masking_closure_continue [OF continue(1)]
    have m: "list_all2 (\<lambda>i c. subtree_has_approval_marker c \<longrightarrow> subtree_has_approval_marker i) (linputs r) cs"
      using ih c by (auto elim: list.rel_mono_strong)
    then have len: "length cs = length (linputs r)" by (simp add: list_all2_lengthD)
    note shape = with_inputs_shape [OF w len]
    have "\<forall>n\<in>lnodes q. \<not> bare_projection data n"
      using bare_rebuild [OF w len _ m, of data] c shape(1) ih
      by (subst lnodes.simps) (fastforce dest: list_all2_right)
    moreover have "subtree_has_approval_marker q \<longrightarrow> subtree_has_approval_marker p"
      using m shape(1,3) c by (auto simp: marker_unfold [of q] marker_unfold [of p] dest: list_all2_right)
    ultimately show ?case by blast
  qed
  then show ?thesis by blast
qed

lemma masking_keeps_filters:
  assumes "transform_ref (masking_closure L dbg data) p s = (Inr q, s')" "scans_under (is_filter e) p"
  shows "scans_under (is_filter e) q"
  using assms
  by (rule transform_guarded)
     (use masking_closure_continue with_inputs_shape(2,4) in blast)+

lemma masking_total:
  assumes "plan_wf p" "\<And>es i. projection_try_new L es i = Inr ()"
  shows "\<exists>q s'. transform_ref (masking_closure L dbg data) p s = (Inr q, s') \<and> plan_wf q \<and> () = ()"
  using assms(1)
proof (rule transform_fold [where \<mu> = "\<lambda>_. ()" and H = "\<lambda>_ _. ()"])
  fix p :: lplan and s assume "plan_wf p"
  then show "\<exists>q k s'. masking_closure L dbg data p s = (Inr (q, k), s') \<and> plan_wf q \<and> (k = Jump \<longrightarrow> () = ())
      \<and> (k = Continue \<longrightarrow> linputs q = linputs p \<and> fold (\<lambda>_ _. ()) (linputs p) () = ())"
    by (cases p) (auto simp: masking_closure_def Let_def assms(2))
qed

text \<open>
  C40: the rule masks columns, not expressions. A projection that shows a masked column through a
  scalar function is left as it is, whatever the bundle says about the column.
\<close>

theorem wrapped_column_unmasked:
  assumes "transform_down_spec td"
  shows "masking_rewrite td L dbg fs b (Projection [EScalarFunction f [EColumn c]] (Extension (Marker m) [TableScan t sch]))
    = Inr (Projection [EScalarFunction f [EColumn c]] (Extension (Marker m) [TableScan t sch]), False)"
  by (simp add: masking_rewrite_def transform_down_eq [OF assms shallow_masking] transform_ref.simps masking_closure_def
      mask_projected_def split: option.splits)

end
