(* ===== verification/Dp_Noise_Rule.thy ===== *)
theory Dp_Noise_Rule
  imports Masking_Rule
begin

text \<open>
  \<open>src/src/optimizer_rules/dp_noise.rs\<close> (the rule; its budget tracker is in \<open>Privacy_Budget\<close>): the
  fourth optimizer rule, which debits the privacy budget of every protected column an approved
  aggregate reads and wraps the aggregate in one Laplace noise node per such column.
\<close>

section \<open>Model\<close>

record dp_column_config =
  epsilon_per_query :: f64
  rule_noise_mechanism :: string

definition de_dp_column_config :: "json \<Rightarrow> dp_column_config option" where
  "de_dp_column_config j = Option.bind (struct_fields [''epsilon_per_query'', ''noise_mechanism''] j) (\<lambda>fs.
     Option.bind (required fs ''epsilon_per_query'' de_f64) (\<lambda>e.
     Option.bind (required fs ''noise_mechanism'' de_string) (\<lambda>m.
       Some \<lparr>epsilon_per_query = e, rule_noise_mechanism = m\<rparr>)))"

type_synonym dp_data = "(string \<times> dp_column_config) list"

definition de_dp_data :: "json \<Rightarrow> dp_data option" where
  "de_dp_data j = Option.bind (struct_fields [''dp_columns''] j) (\<lambda>fs.
     defaulted fs ''dp_columns'' [] (de_hash_map de_dp_column_config))"

text \<open>\<open>{:.6}\<close> of a double: the exact value rounded to six decimals, ties to even.\<close>

definition pad6 :: "string \<Rightarrow> string" where
  "pad6 s = replicate (6 - length s) (CHR ''0'') @ s"

fun fixed6 :: "f64 \<Rightarrow> string" where
  "fixed6 NaN = ''NaN''" | "fixed6 PInf = ''inf''" | "fixed6 NInf = ''-inf''" | "fixed6 NZero = ''-0.000000''"
| "fixed6 (Fin q) = (let n = nat (round_even (\<bar>q\<bar> * 10 ^ 6)) in
     (if q < 0 then ''-'' else []) @ show_nat (n div 10 ^ 6) @ ''.'' @ pad6 (show_nat (n mod 10 ^ 6)))"

record dp_rule =
  dr_bundle :: contract_bundle_handle
  dr_tenant_id :: string

text \<open>What the rule keeps behind its mutexes, and the two variables its closure captures.\<close>

record dp_rule_state =
  dr_budget :: privacy_budget_tracker
  dr_audit_records :: "audit_record list"
  dr_uuid :: nat
  dr_pending_error :: "df_error option"

definition new_permissive :: "contract_bundle_handle \<Rightarrow> string \<Rightarrow> dp_rule \<times> dp_rule_state" where
  "new_permissive bundle tenant = (\<lparr>dr_bundle = bundle, dr_tenant_id = tenant\<rparr>,
     \<lparr>dr_budget = new_tracker, dr_audit_records = [], dr_uuid = 0, dr_pending_error = None\<rparr>)"

definition new_with_budget :: "contract_bundle_handle \<Rightarrow> string \<Rightarrow> (budget_key \<times> f64) list \<Rightarrow> dp_rule \<times> dp_rule_state" where
  "new_with_budget bundle tenant initial = (\<lparr>dr_bundle = bundle, dr_tenant_id = tenant\<rparr>,
     \<lparr>dr_budget = with_enforcement True initial, dr_audit_records = [], dr_uuid = 0, dr_pending_error = None\<rparr>)"

definition drain_dp_audits :: "dp_rule_state \<Rightarrow> audit_record list \<times> dp_rule_state" where
  "drain_dp_audits st = (dr_audit_records st, st\<lparr>dr_audit_records := []\<rparr>)"

definition parse_dp_bundle :: "from_slice \<Rightarrow> contract_bundle_handle \<Rightarrow> dp_data option" where
  "parse_dp_bundle from_slice bundle =
     (if raw_bytes bundle = [] then None else Option.bind (from_slice (raw_bytes bundle)) de_dp_data)"

definition emit_budget_exhausted :: "dp_rule \<Rightarrow> nat \<Rightarrow> string \<Rightarrow> audit_record" where
  "emit_budget_exhausted R uuid column = new_audit uuid PrivacyBudgetExhausted ''<aggregate>'' (dr_tenant_id R)
     (Some (bundle_contract_id (dr_bundle R))) (''privacy budget exhausted for column '' @ quoted column)"

fun collect_column_names :: "df_expr \<Rightarrow> string list \<Rightarrow> string list" where
  "collect_column_names (EColumn c) out = out @ [column_name c]"
| "collect_column_names (EAggregateFunction _ args) out = foldl (\<lambda>o' a. collect_column_names a o') out args"
| "collect_column_names (EBinary l _ r) out = collect_column_names r (collect_column_names l out)"
| "collect_column_names (EAlias e _) out = collect_column_names e out"
| "collect_column_names (ECast e _) out = collect_column_names e out"
| "collect_column_names _ out = out"

definition collect_agg_columns :: "df_expr list \<Rightarrow> string list" where
  "collect_agg_columns aggr_expr = foldl (\<lambda>o' a. collect_column_names a o') [] aggr_expr"

definition exhausted_error :: "dp_rule \<Rightarrow> string \<Rightarrow> df_error" where
  "exhausted_error R column = DfExternal (''privacy budget exhausted for tenant '' @ quoted (dr_tenant_id R) @ '', column '' @ quoted column)"

text \<open>
  The loop over the aggregated columns: debit each protected one. The first refusal ends it with an
  audit record and the pending error; the debits before it stay.
\<close>

fun debit_columns :: "dp_rule \<Rightarrow> dp_data \<Rightarrow> string list \<Rightarrow> dp_rule_state \<Rightarrow> (string \<times> f64) list option \<times> dp_rule_state" where
  "debit_columns R data [] st = (Some [], st)"
| "debit_columns R data (c # cols) st = (case map_of data c of
     None \<Rightarrow> debit_columns R data cols st
   | Some cfg \<Rightarrow> (case consume (dr_budget st) (dr_tenant_id R) c (epsilon_per_query cfg) of
       (Inl _, t) \<Rightarrow> (None, st\<lparr>dr_budget := t, dr_audit_records := dr_audit_records st @ [emit_budget_exhausted R (dr_uuid st) c],
           dr_uuid := Suc (dr_uuid st), dr_pending_error := Some (exhausted_error R c)\<rparr>)
     | (Inr _, t) \<Rightarrow> (case debit_columns R data cols (st\<lparr>dr_budget := t\<rparr>) of
         (None, st') \<Rightarrow> (None, st')
       | (Some found, st') \<Rightarrow> (Some ((c, epsilon_per_query cfg) # found), st'))))"

definition wrap_noise :: "schema \<Rightarrow> (string \<times> f64) list \<Rightarrow> lplan \<Rightarrow> lplan" where
  "wrap_noise sch found node = foldl (\<lambda>current (c, eps). Extension (LaplaceNoise
     \<lparr>noise_column = c, scale_str = fixed6 (f64_div (Fin 1) eps), noise_output_schema = sch\<rparr>) [current]) node found"

definition dp_closure :: "lp_env \<Rightarrow> dp_rule \<Rightarrow> dp_data \<Rightarrow> (bool \<times> dp_rule_state) closure" where
  "dp_closure L R data node cst =
     (if dr_pending_error (snd cst) \<noteq> None then (Inr (node, Continue), cst)
      else case node of
        Aggregate _ aggr i \<Rightarrow>
          if \<not> subtree_has_approval_marker i then (Inr (node, Continue), cst)
          else (case debit_columns R data (collect_agg_columns aggr) (snd cst) of
              (None, st) \<Rightarrow> (Inr (node, Continue), (fst cst, st))
            | (Some found, st) \<Rightarrow> if found \<noteq> [] then (Inr (wrap_noise (lp_schema L node) found node, Jump), (True, st))
                else (Inr (node, Continue), (fst cst, st)))
      | _ \<Rightarrow> (Inr (node, Continue), cst))"

definition dp_rewrite :: "(bool \<times> dp_rule_state) transform \<Rightarrow> lp_env \<Rightarrow> from_slice \<Rightarrow> dp_rule \<Rightarrow> lplan \<Rightarrow> dp_rule_state
    \<Rightarrow> (df_error + lplan \<times> bool) \<times> dp_rule_state" where
  "dp_rewrite td L from_slice R plan st =
     (case parse_dp_bundle from_slice (dr_bundle R) of
        None \<Rightarrow> (Inr (plan, False), st)
      | Some data \<Rightarrow> if data = [] then (Inr (plan, False), st)
          else (case td (dp_closure L R data) plan (False, st\<lparr>dr_pending_error := None\<rparr>) of
              (Inl e, (_, st')) \<Rightarrow> (Inl e, st')
            | (Inr new_plan, (changed, st')) \<Rightarrow> (case dr_pending_error st' of
                Some err \<Rightarrow> (Inl err, st')
              | None \<Rightarrow> (Inr (new_plan, changed), st'))))"

section \<open>Requests\<close>

text \<open>
  The debits a pass asks for, in order: those of the outermost aggregates over approved subtrees that
  read a protected column (the pass does not look below an aggregate it wraps).
\<close>

definition agg_requests :: "dp_data \<Rightarrow> lplan \<Rightarrow> (string \<times> f64) list" where
  "agg_requests data p = (case p of
     Aggregate _ aggr i \<Rightarrow> if subtree_has_approval_marker i
       then List.map_filter (\<lambda>c. map_option (\<lambda>cfg. (c, epsilon_per_query cfg)) (map_of data c)) (collect_agg_columns aggr) else []
   | _ \<Rightarrow> [])"

function requests :: "dp_data \<Rightarrow> lplan \<Rightarrow> (string \<times> f64) list" where
  "requests data p = (if agg_requests data p \<noteq> [] then agg_requests data p else concat (map (requests data) (linputs p)))"
  by pat_completeness auto
termination
  by (relation "measure (\<lambda>(d, p). size p)") (auto simp: linputs_size)

declare requests.simps [simp del]

definition debit :: "dp_rule \<Rightarrow> string \<times> f64 \<Rightarrow> dp_rule_state \<Rightarrow> dp_rule_state" where
  "debit R = (\<lambda>(c, eps) st. if dr_pending_error st \<noteq> None then st else
     (case consume (dr_budget st) (dr_tenant_id R) c eps of
        (Inl _, t) \<Rightarrow> st\<lparr>dr_budget := t, dr_audit_records := dr_audit_records st @ [emit_budget_exhausted R (dr_uuid st) c],
           dr_uuid := Suc (dr_uuid st), dr_pending_error := Some (exhausted_error R c)\<rparr>
      | (Inr _, t) \<Rightarrow> st\<lparr>dr_budget := t\<rparr>))"

lemma debit_apply: "debit R (c, eps) st = (if dr_pending_error st \<noteq> None then st else
     (case consume (dr_budget st) (dr_tenant_id R) c eps of
        (Inl _, t) \<Rightarrow> st\<lparr>dr_budget := t, dr_audit_records := dr_audit_records st @ [emit_budget_exhausted R (dr_uuid st) c],
           dr_uuid := Suc (dr_uuid st), dr_pending_error := Some (exhausted_error R c)\<rparr>
      | (Inr _, t) \<Rightarrow> st\<lparr>dr_budget := t\<rparr>))"
  by (simp add: debit_def)

lemma debit_pending: "dr_pending_error st \<noteq> None \<Longrightarrow> fold (debit R) rs st = st"
  by (induction rs) (auto simp: debit_apply)

abbreviation dp_found :: "dp_data \<Rightarrow> string list \<Rightarrow> (string \<times> f64) list" where
  "dp_found data cols \<equiv> List.map_filter (\<lambda>c. map_option (\<lambda>cfg. (c, epsilon_per_query cfg)) (map_of data c)) cols"

lemma debit_columns_fold:
  "dr_pending_error st = None \<Longrightarrow> debit_columns R data cols st =
     (let st' = fold (debit R) (dp_found data cols) st in
       ((if dr_pending_error st' = None then Some (dp_found data cols) else None), st'))"
proof (induction cols arbitrary: st)
  case Nil
  then show ?case by (simp add: map_filter_simps)
next
  case (Cons c cols)
  show ?case
  proof (cases "map_of data c")
    case None
    then show ?thesis using Cons by (simp add: map_filter_simps Let_def)
  next
    case (Some cfg)
    obtain r t where c: "consume (dr_budget st) (dr_tenant_id R) c (epsilon_per_query cfg) = (r, t)" by fastforce
    show ?thesis
      by (cases r) (use Cons Some c in \<open>simp_all add: debit_apply debit_pending Let_def map_filter_simps\<close>)
  qed
qed

text \<open>All requests are granted exactly when the tracker grants each of them in turn.\<close>

abbreviation keyed :: "dp_rule \<Rightarrow> (string \<times> f64) list \<Rightarrow> (budget_key \<times> f64) list" where
  "keyed R rs \<equiv> map (\<lambda>r. ((dr_tenant_id R, fst r), snd r)) rs"

lemma consume_all_length: "length (fst (consume_all t reqs)) \<le> length reqs"
  by (induction t reqs rule: consume_all.induct) (auto split: prod.splits sum.splits simp: le_SucI)

lemma consume_all_refused: "fst (consume_all t reqs) \<noteq> r # reqs"
  using consume_all_length [of t reqs] by (metis Suc_n_not_le_n length_Cons)

lemma debit_consume_all:
  "dr_pending_error st = None \<Longrightarrow>
     (dr_pending_error (fold (debit R) rs st) = None \<longleftrightarrow> fst (consume_all (dr_budget st) (keyed R rs)) = keyed R rs)
   \<and> (dr_pending_error (fold (debit R) rs st) = None \<longrightarrow>
       fold (debit R) rs st = st\<lparr>dr_budget := snd (consume_all (dr_budget st) (keyed R rs))\<rparr>)"
proof (induction rs arbitrary: st)
  case (Cons r rs)
  obtain c eps where r: "r = (c, eps)" by fastforce
  obtain x t where x: "consume (dr_budget st) (dr_tenant_id R) c eps = (x, t)" by fastforce
  obtain gs t' where gs: "consume_all t (keyed R rs) = (gs, t')" by fastforce
  show ?case
  proof (cases x)
    case (Inl e)
    then show ?thesis using Cons.prems x r gs consume_all_refused [of t "keyed R rs" "((dr_tenant_id R, c), eps)"]
      by (simp add: debit_apply debit_pending)
  next
    case (Inr u)
    then show ?thesis using Cons.prems x r gs Cons.IH [of "st\<lparr>dr_budget := t\<rparr>"] by (simp add: debit_apply)
  qed
qed simp

lemma debit_error:
  "dr_pending_error st = None \<Longrightarrow> dr_pending_error (fold (debit R) rs st) \<noteq> None \<Longrightarrow>
     \<exists>c\<in>fst ` set rs. dr_pending_error (fold (debit R) rs st) = Some (exhausted_error R c)"
proof (induction rs arbitrary: st)
  case (Cons x rs)
  obtain c eps where x: "x = (c, eps)" by fastforce
  obtain y t where y: "consume (dr_budget st) (dr_tenant_id R) c eps = (y, t)" by fastforce
  show ?case
    by (cases y) (use Cons.prems Cons.IH [of "st\<lparr>dr_budget := t\<rparr>"] x y in \<open>auto simp: debit_apply debit_pending\<close>)
qed simp

section \<open>Noise above protected aggregates\<close>

text \<open>A chain of noise nodes around an aggregate, one per column it has to debit.\<close>

definition needs_noise :: "dp_data \<Rightarrow> lplan \<Rightarrow> bool" where
  "needs_noise data p \<longleftrightarrow> agg_requests data p \<noteq> []"

definition noised :: "dp_data \<Rightarrow> lplan \<Rightarrow> bool" where
  "noised data q \<longleftrightarrow> (\<exists>sch node. agg_requests data node \<noteq> [] \<and> q = wrap_noise sch (agg_requests data node) node)"

lemma agg_requests_Aggregate: "agg_requests data (Aggregate gs aggr i)
    = (if subtree_has_approval_marker i then dp_found data (collect_agg_columns aggr) else [])"
  by (simp add: agg_requests_def)

lemma dp_closure_pending: "dr_pending_error (snd s) \<noteq> None \<Longrightarrow> dp_closure L R data p s = (Inr (p, Continue), s)"
  by (simp add: dp_closure_def)

lemma dp_closure_running:
  assumes "dr_pending_error (snd s) = None"
  shows "dp_closure L R data p s = (let st = fold (debit R) (agg_requests data p) (snd s) in
     if dr_pending_error st = None \<and> needs_noise data p
     then (Inr (wrap_noise (lp_schema L p) (agg_requests data p) p, Jump), (True, st))
     else (Inr (p, Continue), (fst s, st)))"
  using assms
  by (cases p; cases s) (auto simp: dp_closure_def agg_requests_Aggregate debit_columns_fold Let_def needs_noise_def agg_requests_def split: if_splits)

lemma dp_closure_shape:
  "dp_closure L R data p s = (Inr (r, Continue), s1) \<Longrightarrow> r = p"
  "dp_closure L R data p s = (Inr (q, Jump), s1) \<Longrightarrow> needs_noise data p \<and> q = wrap_noise (lp_schema L p) (agg_requests data p) p"
  by (cases "dr_pending_error (snd s) = None"; auto simp: dp_closure_pending dp_closure_running Let_def split: if_splits)+

lemma shallow_dp: "shallow (dp_closure L R data)"
  unfolding shallow_def using dp_closure_shape(1) by blast

lemma wrap_noise_Cons: "wrap_noise sch ((c, eps) # found) node = wrap_noise sch found
    (Extension (LaplaceNoise \<lparr>noise_column = c, scale_str = fixed6 (f64_div (Fin 1) eps), noise_output_schema = sch\<rparr>) [node])"
  by (simp add: wrap_noise_def)

lemma wrap_noise_induct:
  assumes "Q node" "\<And>l p. Q p \<Longrightarrow> Q (Extension (LaplaceNoise l) [p])"
  shows "Q (wrap_noise sch found node)"
  using assms(1) by (induction found arbitrary: node) (auto simp: wrap_noise_Cons assms(2) wrap_noise_def)

lemma wrap_noise_marker: "subtree_has_approval_marker (wrap_noise sch found node) \<longleftrightarrow> subtree_has_approval_marker node"
  by (rule wrap_noise_induct) (auto simp: marker_unfold [of "Extension _ _"])

lemma wrap_noise_guarded: "guarded bad g node \<Longrightarrow> (\<And>l p. \<not> bad (Extension (LaplaceNoise l) [p])) \<Longrightarrow> guarded bad g (wrap_noise sch found node)"
  by (rule wrap_noise_induct) (auto simp: guarded.simps [of bad g "Extension _ _"])

lemma wrap_noise_wf: "plan_wf node \<Longrightarrow> plan_wf (wrap_noise sch found node)"
  by (rule wrap_noise_induct) auto

lemma wrap_noise_nodes:
  "(\<forall>n\<in>lnodes node. Q n) \<Longrightarrow> (\<And>l p. Q (Extension (LaplaceNoise l) [p])) \<Longrightarrow> \<forall>n\<in>lnodes (wrap_noise sch found node). Q n"
  by (rule wrap_noise_induct) (auto simp: lnodes.simps [of "Extension _ _"])

lemma dp_marker:
  "transform_ref (dp_closure L R data) p s = (Inr q, s') \<Longrightarrow> subtree_has_approval_marker q \<longrightarrow> subtree_has_approval_marker p"
  by (erule transform_marker) (use dp_closure_shape wrap_noise_marker in blast)+

lemma needs_noise_rebuild:
  assumes "with_inputs p cs = Inr q" "length cs = length (linputs p)" "needs_noise data q"
    and "list_all2 (\<lambda>i c. subtree_has_approval_marker c \<longrightarrow> subtree_has_approval_marker i) (linputs p) cs"
  shows "needs_noise data p"
proof (cases p)
  case (Extension n ps)
  then show ?thesis using assms by (cases n) (auto simp: needs_noise_def agg_requests_def split: list.splits)
qed (use assms in \<open>cases cs; auto simp: needs_noise_def agg_requests_def split: if_splits\<close>)+

lemma dp_transform:
  assumes "transform_ref (dp_closure L R data) p s = (Inr q, s')" "dr_pending_error (snd s') = None"
  shows "guarded (needs_noise data) (noised data) q"
proof -
  let ?R = "\<lambda>p q. guarded (needs_noise data) (noised data) q \<and> (subtree_has_approval_marker q \<longrightarrow> subtree_has_approval_marker p)"
  from assms have "?R p q \<and> dr_pending_error (snd s) = None"
  proof (rule transform_induct_ok [where R = ?R and ok = "\<lambda>s. dr_pending_error (snd s) = None"])
    fix p s q k s' assume c: "dp_closure L R data p s = (Inr (q, k), s')" "dr_pending_error (snd s') = None"
    show "dr_pending_error (snd s) = None"
    proof (rule ccontr)
      assume "\<not> ?thesis"
      with c dp_closure_pending [of s L R data p] show False by simp
    qed
  next
    fix p s q s' assume "dp_closure L R data p s = (Inr (q, Jump), s')"
    then have q: "needs_noise data p" "q = wrap_noise (lp_schema L p) (agg_requests data p) p"
      using dp_closure_shape(2) by blast+
    then have "noised data q" by (auto simp: noised_def needs_noise_def)
    then have "guarded (needs_noise data) (noised data) q" by (simp add: guarded.simps [of _ _ q])
    then show "?R p q" using q wrap_noise_marker by blast
  next
    fix p s r s1 cs q
    assume c: "dp_closure L R data p s = (Inr (r, Continue), s1)" "dr_pending_error (snd s1) = None"
      and ih: "list_all2 ?R (linputs p) cs" and w: "with_inputs r cs = Inr q"
    have r: "r = p" using dp_closure_shape(1) c(1) .
    have "dr_pending_error (snd s) = None" using c dp_closure_pending [of s L R data p] by (cases "dr_pending_error (snd s)") auto
    then have n: "\<not> needs_noise data p" using c by (auto simp: dp_closure_running Let_def split: if_splits)
    have m: "list_all2 (\<lambda>i c. subtree_has_approval_marker c \<longrightarrow> subtree_has_approval_marker i) (linputs p) cs"
      using ih by (rule list.rel_mono_strong) blast
    have len: "length cs = length (linputs p)" using ih by (simp add: list_all2_lengthD)
    note shape = with_inputs_shape [OF w [unfolded r] len]
    have "guarded (needs_noise data) (noised data) q"
      using needs_noise_rebuild [OF w [unfolded r] len _ m] n ih
      by (intro guarded_rebuild [OF w [unfolded r] len]) (auto dest: list_all2_right)
    moreover have "subtree_has_approval_marker q \<longrightarrow> subtree_has_approval_marker p"
      using m shape(1,3) by (auto simp: marker_unfold [of q] marker_unfold [of p] dest: list_all2_right)
    ultimately show "?R p q" by blast
  qed
  then show ?thesis by blast
qed

lemma dp_total:
  assumes "plan_wf p"
  shows "\<exists>q s'. transform_ref (dp_closure L R data) p s = (Inr q, s') \<and> plan_wf q
    \<and> snd s' = fold (debit R) (requests data p) (snd s)"
  using assms
proof (rule transform_fold)
  fix p :: lplan and s :: "bool \<times> dp_rule_state" assume wf: "plan_wf p"
  have f: "fold (\<lambda>p. fold (debit R) (requests data p)) ps st = fold (debit R) (concat (map (requests data) ps)) st" for ps st
    by (induction ps arbitrary: st) auto
  show "\<exists>q k s'. dp_closure L R data p s = (Inr (q, k), s') \<and> plan_wf q
      \<and> (k = Jump \<longrightarrow> snd s' = fold (debit R) (requests data p) (snd s))
      \<and> (k = Continue \<longrightarrow> linputs q = linputs p
          \<and> fold (\<lambda>p. fold (debit R) (requests data p)) (linputs p) (snd s') = fold (debit R) (requests data p) (snd s))"
  proof (cases "dr_pending_error (snd s) = None")
    case False
    then show ?thesis using wf by (simp add: dp_closure_pending f debit_pending)
  next
    case True
    have "fold (debit R) (concat (map (requests data) (linputs p))) (fold (debit R) (agg_requests data p) (snd s))
        = fold (debit R) (requests data p) (snd s)"
      if "dr_pending_error (fold (debit R) (agg_requests data p) (snd s)) \<noteq> None \<or> \<not> needs_noise data p"
      using that by (subst requests.simps) (auto simp: needs_noise_def debit_pending)
    moreover have "requests data p = agg_requests data p" if "needs_noise data p"
      using that by (subst requests.simps) (simp add: needs_noise_def)
    ultimately show ?thesis using wf
      by (auto simp add: dp_closure_running [OF True] Let_def f wrap_noise_wf)
  qed
qed

text \<open>What the earlier rules established stays in place.\<close>

lemma dp_keeps_filters:
  assumes "transform_ref (dp_closure L R data) p s = (Inr q, s')" "scans_under (is_filter e) p"
  shows "scans_under (is_filter e) q"
  using assms
proof (rule transform_guarded)
  fix p s q s' assume "dp_closure L R data p s = (Inr (q, Jump), s')" "scans_under (is_filter e) p"
  then show "scans_under (is_filter e) q" using dp_closure_shape(2) [of L R data p s q s'] by (auto intro: wrap_noise_guarded)
next
  fix p s r s1 cs q
  assume "dp_closure L R data p s = (Inr (r, Continue), s1)" "with_inputs r cs = Inr q" "length cs = length (linputs r)" "\<not> is_scan p"
  then show "\<not> is_scan q" using dp_closure_shape(1) with_inputs_shape(2) by metis
qed (use dp_closure_shape(1) with_inputs_shape(4) in blast)+

lemma dp_keeps_masks:
  assumes "transform_ref (dp_closure L R data) p s = (Inr q, s')" "\<forall>n\<in>lnodes p. \<not> bare_projection d n"
  shows "\<forall>n\<in>lnodes q. \<not> bare_projection d n"
proof -
  let ?R = "\<lambda>p q. ((\<forall>n\<in>lnodes p. \<not> bare_projection d n) \<longrightarrow> (\<forall>n\<in>lnodes q. \<not> bare_projection d n))
    \<and> (subtree_has_approval_marker q \<longrightarrow> subtree_has_approval_marker p)"
  from assms(1) have "?R p q"
  proof (induction rule: transform_induct [where R = ?R])
    case (jump p s q s')
    then have q: "q = wrap_noise (lp_schema L p) (agg_requests data p) p" using dp_closure_shape(2) by blast
    have "\<forall>n\<in>lnodes q. \<not> bare_projection d n" if "\<forall>n\<in>lnodes p. \<not> bare_projection d n"
      unfolding q by (rule wrap_noise_nodes [OF that]) simp
    then show ?case using wrap_noise_marker q by blast
  next
    case (continue p s r s1 cs q)
    note ih = continue(2) and w = continue(3)
    have r: "r = p" using dp_closure_shape(1) continue(1) .
    have m: "list_all2 (\<lambda>i c. subtree_has_approval_marker c \<longrightarrow> subtree_has_approval_marker i) (linputs r) cs"
      using ih r by (auto elim: list.rel_mono_strong)
    then have len: "length cs = length (linputs r)" by (simp add: list_all2_lengthD)
    note shape = with_inputs_shape [OF w len]
    have "\<forall>n\<in>lnodes q. \<not> bare_projection d n" if "\<forall>n\<in>lnodes p. \<not> bare_projection d n"
    proof -
      have p: "\<not> bare_projection d r" "\<forall>c\<in>set (linputs p). \<forall>n\<in>lnodes c. \<not> bare_projection d n"
        using that r by (auto simp: lnodes.simps [of p])
      then have "\<forall>c\<in>set cs. \<forall>n\<in>lnodes c. \<not> bare_projection d n" using ih by (blast dest: list_all2_right)
      then show ?thesis using bare_rebuild [OF w len p(1) m] shape(1) by (auto simp: lnodes.simps [of q])
    qed
    moreover have "subtree_has_approval_marker q \<longrightarrow> subtree_has_approval_marker p"
      using m shape(1,3) r by (auto simp: marker_unfold [of q] marker_unfold [of p] dest: list_all2_right)
    ultimately show ?case by blast
  qed
  then show ?thesis using assms(2) by blast
qed

text \<open>
  C17: privacy debits and noise of a query. The pass asks for the budget of every protected column of
  every outermost aggregate over an approved subtree, in plan order. It succeeds exactly when the
  tracker grants all these requests; then the tracker afterwards is the one with all of them debited
  and every such aggregate stands under one noise node per request. Otherwise the query fails.
\<close>

theorem dp_rewrite_exact:
  assumes "transform_down_spec td" "plan_wf p" "parse_dp_bundle fs (dr_bundle R) = Some data" "data \<noteq> []"
  shows "if fst (consume_all (dr_budget st) (keyed R (requests data p))) = keyed R (requests data p)
     then \<exists>q ch st'. dp_rewrite td L fs R p st = (Inr (q, ch), st') \<and> plan_wf q
       \<and> dr_budget st' = snd (consume_all (dr_budget st) (keyed R (requests data p)))
       \<and> guarded (needs_noise data) (noised data) q
     else \<exists>c st'. dp_rewrite td L fs R p st = (Inl (exhausted_error R c), st') \<and> c \<in> fst ` set (requests data p)"
proof -
  let ?st = "st\<lparr>dr_pending_error := None\<rparr>" and ?rs = "requests data p"
  obtain q ch st' where t: "transform_ref (dp_closure L R data) p (False, ?st) = (Inr q, (ch, st'))" "plan_wf q"
    "st' = fold (debit R) ?rs ?st"
    using dp_total [OF assms(2), of L R data "(False, ?st)"] by auto
  have r: "dp_rewrite td L fs R p st = (case dr_pending_error st' of Some err \<Rightarrow> (Inl err, st') | None \<Rightarrow> (Inr (q, ch), st'))"
    using assms(3,4) t(1) by (simp add: dp_rewrite_def transform_down_eq [OF assms(1) shallow_dp])
  note d = debit_consume_all [of ?st R ?rs, simplified]
  show ?thesis
  proof (cases "dr_pending_error st' = None")
    case True
    then have "guarded (needs_noise data) (noised data) q" using dp_transform [OF t(1)] by simp
    then show ?thesis using True r d t by auto
  next
    case False
    then obtain c where "c \<in> fst ` set ?rs" "dr_pending_error st' = Some (exhausted_error R c)"
      using debit_error [of ?st R ?rs] t(3) by auto
    then show ?thesis using False r d t(3) by auto
  qed
qed

end
