(* ===== verification/Rule_Pipeline.thy ===== *)
theory Rule_Pipeline
  imports Dp_Noise_Rule
begin

text \<open>
  \<open>src/src/optimizer_rules/pipeline.rs\<close>: the four rules in their fixed order. A pass of the
  optimizer hands the plan from rule to rule and stops at the first error.
\<close>

section \<open>Model\<close>

definition RULE_ORDER :: "string list" where
  "RULE_ORDER = [''griot_contract_check'', ''griot_row_filter'', ''griot_masking'', ''griot_dp_noise'']"

record pipeline_config =
  pc_bundle :: contract_bundle_handle
  pc_principal :: principal
  pc_budget :: privacy_budget_tracker
  pc_tenant_id :: string
  pc_initial_budgets :: "(budget_key \<times> f64) list option"

text \<open>A boxed rule: its fields, with what it keeps behind its mutexes.\<close>

datatype optimizer_rule =
    CheckRule contract_bundle_handle principal check_state
  | RowFilterRule contract_bundle_handle principal
  | MaskingRule contract_bundle_handle
  | DPNoiseRule dp_rule dp_rule_state

fun rule_name :: "optimizer_rule \<Rightarrow> string" where
  "rule_name (CheckRule _ _ _) = ''griot_contract_check''"
| "rule_name (RowFilterRule _ _) = ''griot_row_filter''"
| "rule_name (MaskingRule _) = ''griot_masking''"
| "rule_name (DPNoiseRule _ _) = ''griot_dp_noise''"

definition new_with_shared_set :: "contract_bundle_handle \<Rightarrow> principal \<Rightarrow> string list \<Rightarrow> optimizer_rule" where
  "new_with_shared_set bundle who approved_set = CheckRule bundle who
     \<lparr>cs_audit_records = [], cs_approved_tables = [], cs_approved_set = approved_set, cs_uuid = 0\<rparr>"

definition build_pipeline :: "pipeline_config \<Rightarrow> optimizer_rule list" where
  "build_pipeline cfg = (let bundle = pc_bundle cfg; who = pc_principal cfg in
     [new_with_shared_set bundle who [],
      RowFilterRule bundle who,
      MaskingRule bundle,
      (case pc_initial_budgets cfg of
         Some bs \<Rightarrow> case_prod DPNoiseRule (new_with_budget bundle (pc_tenant_id cfg) bs)
       | None \<Rightarrow> case_prod DPNoiseRule (new_permissive bundle (pc_tenant_id cfg)))])"

definition build_permissive_pipeline :: "contract_bundle_handle \<Rightarrow> principal \<Rightarrow> string \<Rightarrow> optimizer_rule list" where
  "build_permissive_pipeline bundle who tenant = build_pipeline \<lparr>pc_bundle = bundle, pc_principal = who,
     pc_budget = new_tracker, pc_tenant_id = tenant, pc_initial_budgets = None\<rparr>"

definition build_enforced_pipeline :: "contract_bundle_handle \<Rightarrow> principal \<Rightarrow> string \<Rightarrow> (budget_key \<times> f64) list \<Rightarrow> optimizer_rule list" where
  "build_enforced_pipeline bundle who tenant bs = build_pipeline \<lparr>pc_bundle = bundle, pc_principal = who,
     pc_budget = new_tracker, pc_tenant_id = tenant, pc_initial_budgets = Some bs\<rparr>"

section \<open>One optimizer pass\<close>

text \<open>DataFusion's rewriting at the state types of the rules, and the environment of the rules.\<close>

record rule_env =
  re_check :: "(bool \<times> check_state) transform"
  re_plain :: "bool transform"
  re_dp :: "(bool \<times> dp_rule_state) transform"
  re_lp :: lp_env
  re_sql :: sql_env
  re_json :: from_slice
  re_dbg :: "df_expr \<Rightarrow> string"

text \<open>
  What the rules rely on: the documented traversal, and that \<open>Filter::try_new\<close> keeps the predicate
  of a contract (which has no aliases to strip) when it accepts it.
\<close>

definition rule_env_spec :: "rule_env \<Rightarrow> bool" where
  "rule_env_spec env \<longleftrightarrow> transform_down_spec (re_check env) \<and> transform_down_spec (re_plain env) \<and> transform_down_spec (re_dp env)
     \<and> (\<forall>s e n e'. sql_expr_to_df_expr (re_sql env) s = Inr e \<and> filter_try_new (re_lp env) e n = Inr e' \<longrightarrow> e' = e)"

fun rewrite_rule :: "rule_env \<Rightarrow> optimizer_rule \<Rightarrow> lplan \<Rightarrow> (df_error + lplan) \<times> optimizer_rule" where
  "rewrite_rule env (CheckRule b who st) p = (case contract_check_rewrite (re_check env) (re_lp env) (re_json env) b who p st of
     (r, st') \<Rightarrow> (and_then r (\<lambda>(q, _). Inr q), CheckRule b who st'))"
| "rewrite_rule env (RowFilterRule b who) p =
     (and_then (row_filter_rewrite (re_plain env) (re_lp env) (re_sql env) (re_json env) b who p) (\<lambda>(q, _). Inr q), RowFilterRule b who)"
| "rewrite_rule env (MaskingRule b) p =
     (and_then (masking_rewrite (re_plain env) (re_lp env) (re_dbg env) (re_json env) b p) (\<lambda>(q, _). Inr q), MaskingRule b)"
| "rewrite_rule env (DPNoiseRule R st) p = (case dp_rewrite (re_dp env) (re_lp env) (re_json env) R p st of
     (r, st') \<Rightarrow> (and_then r (\<lambda>(q, _). Inr q), DPNoiseRule R st'))"

fun run_pass :: "rule_env \<Rightarrow> optimizer_rule list \<Rightarrow> lplan \<Rightarrow> (df_error + lplan) \<times> optimizer_rule list" where
  "run_pass env [] p = (Inr p, [])"
| "run_pass env (r # rs) p = (case rewrite_rule env r p of
     (Inl e, r') \<Rightarrow> (Inl e, r' # rs)
   | (Inr q, r') \<Rightarrow> (case run_pass env rs q of (res, rs') \<Rightarrow> (res, r' # rs')))"

section \<open>The rules one by one\<close>

text \<open>The filter expression in force, and the masking and noise data, of a bundle for a principal.\<close>

definition active_filter :: "from_slice \<Rightarrow> contract_bundle_handle \<Rightarrow> principal \<Rightarrow> string option" where
  "active_filter fs b who = (case parse_filter_bundle fs b of None \<Rightarrow> None
     | Some d \<Rightarrow> (case effective_row_filter who d of None \<Rightarrow> None | Some s \<Rightarrow> if s = [] then None else Some s))"

definition active_masks :: "from_slice \<Rightarrow> contract_bundle_handle \<Rightarrow> masking_data" where
  "active_masks fs b = (case parse_mask_rule_bundle fs b of None \<Rightarrow> [] | Some d \<Rightarrow> d)"

definition active_dp :: "from_slice \<Rightarrow> contract_bundle_handle \<Rightarrow> dp_data" where
  "active_dp fs b = (case parse_dp_bundle fs b of None \<Rightarrow> [] | Some d \<Rightarrow> d)"

abbreviation scan_free :: "lplan \<Rightarrow> bool" where
  "scan_free \<equiv> guarded is_scan (\<lambda>_. False)"

lemma parse_filter_expr_source: "parse_filter_expr E s = Inr e \<Longrightarrow> \<exists>x. sql_expr_to_df_expr E x = Inr e"
  by (auto simp: parse_filter_expr_def map_err_eq_Inr split: option.splits list.splits)

lemma row_filter_keeps_scan_free:
  assumes "transform_ref (row_filter_closure L e) p s = (Inr q, s')" "scan_free p"
  shows "scan_free q"
  using assms
proof (rule transform_guarded)
  fix p s q s' assume "row_filter_closure L e p s = (Inr (q, Jump), s')" "scan_free p"
  then show "scan_free q"
    by (auto simp: row_filter_closure_def guarded.simps [of _ _ "LFilter _ _"] split: lplan.splits if_splits sum.splits)
next
  fix p s r s1 cs q
  assume "row_filter_closure L e p s = (Inr (r, Continue), s1)" "with_inputs r cs = Inr q" "length cs = length (linputs r)" "\<not> is_scan p"
  then show "\<not> is_scan q" using with_inputs_shape(2) [of r cs q]
    by (auto simp: row_filter_closure_def split: lplan.splits if_splits sum.splits)
qed (auto simp: shallowD [OF shallow_row_filter])

lemma row_filter_result:
  assumes "rule_env_spec env" "plan_wf p"
  shows "case row_filter_rewrite (re_plain env) (re_lp env) (re_sql env) fs b who p of
      Inl err \<Rightarrow> \<exists>s. active_filter fs b who = Some s
        \<and> (parse_filter_expr (re_sql env) s = Inl err \<or> (\<exists>e n. filter_try_new (re_lp env) e n = Inl err))
    | Inr (q, ch) \<Rightarrow> plan_wf q \<and> (scan_free p \<longrightarrow> scan_free q)
        \<and> (\<forall>s. active_filter fs b who = Some s \<longrightarrow>
             (\<exists>e. parse_filter_expr (re_sql env) s = Inr e \<and> (scans_under is_marker p \<longrightarrow> scans_under (is_filter e) q)))"
proof (cases "active_filter fs b who")
  case None
  then have "row_filter_rewrite (re_plain env) (re_lp env) (re_sql env) fs b who p = Inr (p, False)"
    by (auto simp: row_filter_rewrite_def active_filter_def split: option.splits if_splits)
  then show ?thesis using assms(2) None by simp
next
  case (Some s)
  let ?L = "re_lp env" and ?E = "re_sql env"
  have td: "transform_down_spec (re_plain env)" using assms(1) by (simp add: rule_env_spec_def)
  have rw: "row_filter_rewrite (re_plain env) ?L ?E fs b who p = and_then (parse_filter_expr ?E s) (\<lambda>e.
      case transform_ref (row_filter_closure ?L e) p False of (Inl e, _) \<Rightarrow> Inl e | (Inr q, ch) \<Rightarrow> Inr (q, ch))"
    using Some by (auto simp: row_filter_rewrite_def active_filter_def transform_down_eq [OF td shallow_row_filter] split: option.splits if_splits)
  show ?thesis
  proof (cases "parse_filter_expr ?E s")
    case (Inl err)
    then show ?thesis using rw Some by simp
  next
    case (Inr e)
    have keep: "\<And>n e'. filter_try_new ?L e n = Inr e' \<Longrightarrow> e' = e"
      using assms(1) parse_filter_expr_source [OF Inr] by (auto simp: rule_env_spec_def)
    have out: "case fst (transform_ref (row_filter_closure ?L e) p False) of
        Inl err \<Rightarrow> (\<exists>e n. filter_try_new ?L e n = Inl err) | Inr q \<Rightarrow> plan_wf q"
      using assms(2)
    proof (rule transform_outcome)
      fix p :: lplan and s assume "plan_wf p"
      then show "case fst (row_filter_closure ?L e p s) of Inl err \<Rightarrow> (\<exists>e n. filter_try_new ?L e n = Inl err)
          | Inr (q, k) \<Rightarrow> plan_wf q \<and> (k = Continue \<longrightarrow> linputs q = linputs p)"
        by (cases p) (auto simp: row_filter_closure_def split: sum.splits)
    qed
    obtain r ch where t: "transform_ref (row_filter_closure ?L e) p False = (r, ch)" by fastforce
    show ?thesis
    proof (cases r)
      case (Inl err)
      then show ?thesis using rw Inr Some t out by auto
    next
      case (Inr q)
      note t' = t [unfolded Inr]
      show ?thesis using rw \<open>parse_filter_expr ?E s = Inr e\<close> Some t' out
          row_filter_transform [OF t' _ keep] row_filter_keeps_scan_free [OF t'] by auto
    qed
  qed
qed

lemma masking_keeps_scan_free:
  assumes "transform_ref (masking_closure L dbg data) p s = (Inr q, s')" "scan_free p"
  shows "scan_free q"
  using assms by (rule transform_guarded) (use masking_closure_continue with_inputs_shape(2) in blast)+

lemma bare_projection_Nil: "\<not> bare_projection [] n"
  by (cases n) (auto simp: covered_def policy_in_def list_all_iff)

lemma masking_result:
  assumes "rule_env_spec env" "plan_wf p"
  shows "case masking_rewrite (re_plain env) (re_lp env) (re_dbg env) fs b p of
      Inl err \<Rightarrow> \<exists>es i. projection_try_new (re_lp env) es i = Inl err
    | Inr (q, ch) \<Rightarrow> plan_wf q \<and> (\<forall>n\<in>lnodes q. \<not> bare_projection (active_masks fs b) n)
        \<and> (scan_free p \<longrightarrow> scan_free q) \<and> (\<forall>e. scans_under (is_filter e) p \<longrightarrow> scans_under (is_filter e) q)"
proof (cases "active_masks fs b = []")
  case True
  then have "masking_rewrite (re_plain env) (re_lp env) (re_dbg env) fs b p = Inr (p, False)"
    by (auto simp: masking_rewrite_def active_masks_def split: option.splits)
  then show ?thesis using assms(2) True by (simp add: bare_projection_Nil)
next
  case False
  let ?L = "re_lp env" and ?f = "masking_closure (re_lp env) (re_dbg env) (active_masks fs b)"
  have td: "transform_down_spec (re_plain env)" using assms(1) by (simp add: rule_env_spec_def)
  have rw: "masking_rewrite (re_plain env) ?L (re_dbg env) fs b p =
      (case transform_ref ?f p False of (Inl e, _) \<Rightarrow> Inl e | (Inr q, ch) \<Rightarrow> Inr (q, ch))"
    using False by (auto simp: masking_rewrite_def active_masks_def transform_down_eq [OF td shallow_masking] split: option.splits)
  have out: "case fst (transform_ref ?f p False) of
      Inl err \<Rightarrow> (\<exists>es i. projection_try_new ?L es i = Inl err) | Inr q \<Rightarrow> plan_wf q"
    using assms(2)
  proof (rule transform_outcome)
    fix p :: lplan and s assume "plan_wf p"
    then show "case fst (?f p s) of Inl err \<Rightarrow> (\<exists>es i. projection_try_new ?L es i = Inl err)
        | Inr (q, k) \<Rightarrow> plan_wf q \<and> (k = Continue \<longrightarrow> linputs q = linputs p)"
      by (cases p) (auto simp: masking_closure_def Let_def split: sum.splits)
  qed
  obtain r ch where t: "transform_ref ?f p False = (r, ch)" by fastforce
  show ?thesis
  proof (cases r)
    case (Inl err)
    then show ?thesis using rw t out by simp
  next
    case (Inr q)
    note t' = t [unfolded Inr]
    show ?thesis using rw t' out masking_transform [OF t'] masking_keeps_filters [OF t'] masking_keeps_scan_free [OF t'] by auto
  qed
qed

lemma dp_keeps_scan_free:
  assumes "transform_ref (dp_closure L R data) p s = (Inr q, s')" "scan_free p"
  shows "scan_free q"
  using assms
proof (rule transform_guarded)
  fix p s q s' assume "dp_closure L R data p s = (Inr (q, Jump), s')" "scan_free p"
  then show "scan_free q" using dp_closure_shape(2) [of L R data p s q s'] by (auto intro: wrap_noise_guarded)
next
  fix p s r s1 cs q
  assume "dp_closure L R data p s = (Inr (r, Continue), s1)" "with_inputs r cs = Inr q" "length cs = length (linputs r)" "\<not> is_scan p"
  then show "\<not> is_scan q" using dp_closure_shape(1) with_inputs_shape(2) by metis
qed (auto simp: shallowD [OF shallow_dp])

lemma requests_Nil: "agg_requests [] p = []"
  by (auto simp: agg_requests_def map_filter_def split: lplan.splits)

lemma guarded_never: "(\<And>n. \<not> bad n) \<Longrightarrow> guarded bad g p"
proof (induction "size p" arbitrary: p rule: less_induct)
  case less
  then show ?case by (subst guarded.simps) (simp add: linputs_size)
qed

lemma dp_result:
  assumes "rule_env_spec env" "plan_wf p"
  shows "case dp_rewrite (re_dp env) (re_lp env) fs R p st of
      (Inl err, _) \<Rightarrow> \<exists>c. err = exhausted_error R c
    | (Inr (q, ch), _) \<Rightarrow> plan_wf q \<and> guarded (needs_noise (active_dp fs (dr_bundle R))) (noised (active_dp fs (dr_bundle R))) q
        \<and> (scan_free p \<longrightarrow> scan_free q) \<and> (\<forall>e. scans_under (is_filter e) p \<longrightarrow> scans_under (is_filter e) q)
        \<and> (\<forall>d. (\<forall>n\<in>lnodes p. \<not> bare_projection d n) \<longrightarrow> (\<forall>n\<in>lnodes q. \<not> bare_projection d n))"
proof (cases "active_dp fs (dr_bundle R) = []")
  case True
  then have "dp_rewrite (re_dp env) (re_lp env) fs R p st = (Inr (p, False), st)"
    by (auto simp: dp_rewrite_def active_dp_def split: option.splits)
  then show ?thesis using assms(2) True by (simp add: guarded_never needs_noise_def requests_Nil)
next
  case False
  let ?d = "active_dp fs (dr_bundle R)"
  have td: "transform_down_spec (re_dp env)" using assms(1) by (simp add: rule_env_spec_def)
  have d: "parse_dp_bundle fs (dr_bundle R) = Some ?d" using False by (auto simp: active_dp_def split: option.splits)
  obtain q ch st' where t: "transform_ref (dp_closure (re_lp env) R ?d) p (False, st\<lparr>dr_pending_error := None\<rparr>) = (Inr q, (ch, st'))"
    "plan_wf q" "st' = fold (debit R) (requests ?d p) (st\<lparr>dr_pending_error := None\<rparr>)"
    using dp_total [OF assms(2), of "re_lp env" R ?d "(False, st\<lparr>dr_pending_error := None\<rparr>)"] by auto
  have rw: "dp_rewrite (re_dp env) (re_lp env) fs R p st =
      (case dr_pending_error st' of Some err \<Rightarrow> (Inl err, st') | None \<Rightarrow> (Inr (q, ch), st'))"
    using d False t(1) by (simp add: dp_rewrite_def transform_down_eq [OF td shallow_dp])
  show ?thesis
  proof (cases "dr_pending_error st'")
    case None
    then show ?thesis
      using rw t(2) dp_transform [OF t(1)] dp_keeps_filters [OF t(1)] dp_keeps_masks [OF t(1)] dp_keeps_scan_free [OF t(1)] by auto
  next
    case (Some err)
    then show ?thesis using rw debit_error [of "st\<lparr>dr_pending_error := None\<rparr>" R "requests ?d p"] t(3) by auto
  qed
qed


end
