(* ===== verification/Rule_Scenario.thy ===== *)
theory Rule_Scenario
  imports Rule_Pipeline
begin

text \<open>
  A small query through the optimizer rules: a contract with a row filter, a redacted column and a
  column under differential privacy, and the properties of the rules on it.
\<close>

definition rule_bundle_json :: json where
  "rule_bundle_json = JObj [(''row_filter'', JStr ''active''), (''allowed_purposes'', JArr [JStr ''billing'']),
     (''column_policies'', JObj [(''email'', JObj [(''mask'', JStr ''redact'')])]),
     (''dp_columns'', JObj [(''amount'', JObj [(''epsilon_per_query'', JInt 1), (''noise_mechanism'', JStr ''laplace'')])])]"

definition rule_sql :: sql_env where
  "rule_sql = \<lparr>parse_sql = (\<lambda>_. Some [Query (Select (Some (Identifier ''active'')))]),
     col_ref = (\<lambda>s. \<lparr>relation = None, column_name = s\<rparr>)\<rparr>"

definition rule_env_ref :: rule_env where
  "rule_env_ref = \<lparr>re_check = transform_ref, re_plain = transform_ref, re_dp = transform_ref, re_lp = lp_ref,
     re_sql = rule_sql, re_json = (\<lambda>_. Some rule_bundle_json), re_dbg = (\<lambda>_. [])\<rparr>"

definition rule_bundle :: contract_bundle_handle where
  "rule_bundle = \<lparr>handle_id = 0, raw_bytes = ''b'', bundle_contract_id = ''c'', bundle_tenant_id = ''t''\<rparr>"

definition analyst :: principal where
  "analyst = \<lparr>principal_id = ''u'', declared_purpose = ''billing'', principal_tier = ''gold'', principal_classification = ''internal''\<rparr>"

definition rule_config :: pipeline_config where
  "rule_config = \<lparr>pc_bundle = rule_bundle, pc_principal = analyst, pc_budget = new_tracker, pc_tenant_id = ''t'',
     pc_initial_budgets = Some [((''t'', ''amount''), Fin 2)]\<rparr>"

definition a_column :: "string \<Rightarrow> df_expr" where
  "a_column s = EColumn \<lparr>relation = None, column_name = s\<rparr>"

definition rule_query :: lplan where
  "rule_query = Aggregate [] [EAggregateFunction ''sum'' [a_column ''amount'']]
     (Projection [a_column ''email'', a_column ''amount''] (TableScan ''orders'' []))"

definition the_marker :: ext_node where
  "the_marker = Marker \<lparr>mk_contract_id = ''c'', mk_tenant_id = ''t'', mk_output_schema = []\<rparr>"

definition rule_result :: lplan where
  "rule_result = Extension (LaplaceNoise \<lparr>noise_column = ''amount'', scale_str = ''1.000000'', noise_output_schema = []\<rparr>)
     [Aggregate [] [EAggregateFunction ''sum'' [a_column ''amount'']]
       (Projection [EAlias (ELiteral (ScUtf8 (Some ''<REDACTED>''))) ''email'', a_column ''amount'']
         (LFilter (a_column ''active'') (Extension the_marker [TableScan ''orders'' []])))]"

lemma scenario_check_data: "parse_check_bundle (re_json rule_env_ref) rule_bundle
    = Some \<lparr>allowed_purposes = [''billing''], required_tier = None, required_classification = None\<rparr>"
  by code_simp

lemma scenario_filter_data: "parse_filter_bundle (re_json rule_env_ref) rule_bundle
    = Some \<lparr>rd_row_filter = Some ''active'', per_principal_row_filters = []\<rparr>"
  by code_simp

lemma scenario_mask_data: "parse_mask_rule_bundle (re_json rule_env_ref) rule_bundle = Some [(''email'', \<lparr>cp_sensitivity = [], cp_mask = ''redact''\<rparr>)]"
  by code_simp

lemma scenario_dp_data: "parse_dp_bundle (re_json rule_env_ref) rule_bundle
    = Some [(''amount'', \<lparr>epsilon_per_query = Fin 1, rule_noise_mechanism = ''laplace''\<rparr>)]"
  by code_simp

lemma scenario_scale: "fixed6 (f64_div (Fin 1) (Fin 1)) = ''1.000000''"
proof -
  have d: "f64_div (Fin 1) (Fin 1) = Fin 1" by code_simp
  have r: "round_even (1000000 :: rat) = 1000000" using round_even_of_int [of 1000000] by simp
  show ?thesis unfolding d by (simp add: Let_def r pad6_def show_nat.simps) code_simp
qed

lemma scenario_consume: "consume (with_enforcement True [((''t'', ''amount''), Fin 2)]) ''t'' ''amount'' (Fin 1)
   = (Inr (), with_enforcement True [((''t'', ''amount''), Fin 1)])"
  by code_simp

definition checked_query :: lplan where
  "checked_query = Aggregate [] [EAggregateFunction ''sum'' [a_column ''amount'']]
     (Projection [a_column ''email'', a_column ''amount''] (Extension the_marker [TableScan ''orders'' []]))"

definition filtered_query :: lplan where
  "filtered_query = Aggregate [] [EAggregateFunction ''sum'' [a_column ''amount'']]
     (Projection [a_column ''email'', a_column ''amount''] (LFilter (a_column ''active'') (Extension the_marker [TableScan ''orders'' []])))"

definition masked_query :: lplan where
  "masked_query = Aggregate [] [EAggregateFunction ''sum'' [a_column ''amount'']]
     (Projection [EAlias (ELiteral (ScUtf8 (Some ''<REDACTED>''))) ''email'', a_column ''amount'']
       (LFilter (a_column ''active'') (Extension the_marker [TableScan ''orders'' []])))"

lemma scenario_checked: "\<exists>st'. contract_check_rewrite transform_ref lp_ref (re_json rule_env_ref) rule_bundle analyst rule_query st = (Inr (checked_query, True), st')"
  by (simp add: contract_check_rewrite_def transform_ref.simps check_closure_def evaluate_scan_def scenario_check_data check_principal_def
      rule_query_def checked_query_def the_marker_def analyst_def lp_ref_def rule_bundle_def [symmetric] Let_def)
     (simp add: rule_bundle_def)

lemma scenario_expr: "parse_filter_expr rule_sql ''active'' = Inr (a_column ''active'')"
  by (simp add: parse_filter_expr_def rule_sql_def where_clause_def a_column_def)

lemma scenario_filtered: "row_filter_rewrite transform_ref lp_ref rule_sql (re_json rule_env_ref) rule_bundle analyst checked_query = Inr (filtered_query, True)"
  by (simp add: row_filter_rewrite_def scenario_filter_data effective_row_filter_def scenario_expr transform_ref.simps
      row_filter_closure_def checked_query_def filtered_query_def the_marker_def lp_ref_def)

lemma scenario_marker: "subtree_has_approval_marker (LFilter e (Extension the_marker ps))"
  "subtree_has_approval_marker (Projection es (LFilter e (Extension the_marker ps)))"
  by (simp_all add: marker_unfold [of "LFilter _ _"] marker_unfold [of "Extension _ _"] marker_unfold [of "Projection _ _"] the_marker_def)

lemma scenario_marker_rebuild: "with_exprs_and_inputs the_marker [p] = Inr (Extension the_marker [p])"
  by (simp add: the_marker_def)

lemma lp_ref_projection: "projection_try_new lp_ref es i = Inr ()"
  by (simp add: lp_ref_def)

lemma scenario_mask_exprs:
  "mask_projected dbg [(''email'', \<lparr>cp_sensitivity = [], cp_mask = ''redact''\<rparr>)] (a_column ''email'')
     = (EAlias (ELiteral (ScUtf8 (Some ''<REDACTED>''))) ''email'', True)"
  "mask_projected dbg [(''email'', \<lparr>cp_sensitivity = [], cp_mask = ''redact''\<rparr>)] (a_column ''amount'') = (a_column ''amount'', False)"
  by (simp_all add: mask_projected_def a_column_def from_bundle_str_def rule_apply_mask_def mask_output_name_def)

lemma scenario_masked: "masking_rewrite transform_ref lp_ref dbg (re_json rule_env_ref) rule_bundle filtered_query = Inr (masked_query, True)"
  by (simp add: masking_rewrite_def scenario_mask_data transform_ref.simps masking_closure_def filtered_query_def masked_query_def
      scenario_mask_exprs scenario_marker scenario_marker_rebuild lp_ref_projection Let_def)

definition scenario_rule :: dp_rule where
  "scenario_rule = \<lparr>dr_bundle = rule_bundle, dr_tenant_id = ''t''\<rparr>"

definition scenario_budget :: dp_rule_state where
  "scenario_budget = \<lparr>dr_budget = with_enforcement True [((''t'', ''amount''), Fin 2)], dr_audit_records = [], dr_uuid = 0, dr_pending_error = None\<rparr>"

lemma scenario_noised: "\<exists>st'. dp_rewrite transform_ref lp_ref (re_json rule_env_ref) scenario_rule masked_query scenario_budget = (Inr (rule_result, True), st')"
  by (simp add: dp_rewrite_def scenario_dp_data transform_ref.simps dp_closure_def masked_query_def rule_result_def scenario_rule_def
      scenario_budget_def scenario_marker collect_agg_columns_def a_column_def scenario_consume wrap_noise_def scenario_scale lp_ref_def)

lemma rule_env_ref_spec: "rule_env_spec rule_env_ref"
  by (auto simp: rule_env_spec_def rule_env_ref_def transform_down_spec_ref lp_ref_def)

lemma scenario_run: "fst (run_pass rule_env_ref (build_pipeline rule_config) rule_query) = Inr rule_result"
proof -
  let ?e = rule_env_ref
  have e: "re_check ?e = transform_ref" "re_plain ?e = transform_ref" "re_dp ?e = transform_ref" "re_lp ?e = lp_ref" "re_sql ?e = rule_sql"
    by (simp_all add: rule_env_ref_def)
  have p: "build_pipeline rule_config = [new_with_shared_set rule_bundle analyst [], RowFilterRule rule_bundle analyst, MaskingRule rule_bundle,
      DPNoiseRule scenario_rule scenario_budget]"
    by (simp add: build_pipeline_def rule_config_def new_with_budget_def scenario_rule_def scenario_budget_def)
  obtain s1 where "contract_check_rewrite transform_ref lp_ref (re_json ?e) rule_bundle analyst rule_query
      \<lparr>cs_audit_records = [], cs_approved_tables = [], cs_approved_set = [], cs_uuid = 0\<rparr> = (Inr (checked_query, True), s1)"
    using scenario_checked by blast
  moreover obtain s4 where "dp_rewrite transform_ref lp_ref (re_json ?e) scenario_rule masked_query scenario_budget = (Inr (rule_result, True), s4)"
    using scenario_noised by blast
  ultimately show ?thesis unfolding p by (simp add: new_with_shared_set_def e scenario_filtered scenario_masked)
qed



theorem wrapped_column_unmasked_witness:
  "masking_rewrite transform_ref lp_ref (\<lambda>_. []) (re_json rule_env_ref) rule_bundle
      (Projection [EScalarFunction ''upper'' [a_column ''email'']] (Extension the_marker [TableScan ''orders'' []]))
    = Inr (Projection [EScalarFunction ''upper'' [a_column ''email'']] (Extension the_marker [TableScan ''orders'' []]), False)
   \<and> rule_policy_for_column (re_json rule_env_ref) rule_bundle ''email'' = PRedact"
  using wrapped_column_unmasked [OF transform_down_spec_ref]
  by (simp add: a_column_def the_marker_def rule_policy_for_column_def scenario_mask_data from_bundle_str_def)

theorem dp_rewrite_exact_witness:
  "\<exists>q ch st'. dp_rewrite transform_ref lp_ref (re_json rule_env_ref) scenario_rule masked_query scenario_budget = (Inr (q, ch), st')
    \<and> dr_budget st' = with_enforcement True [((''t'', ''amount''), Fin 1)]"
proof -
  define D where "D = [(''amount'', \<lparr>epsilon_per_query = Fin 1, rule_noise_mechanism = ''laplace''\<rparr>)]"
  have wf: "plan_wf masked_query" by (simp add: masked_query_def the_marker_def)
  have d: "parse_dp_bundle (re_json rule_env_ref) (dr_bundle scenario_rule) = Some D"
    by (simp add: scenario_rule_def scenario_dp_data D_def)
  have r: "requests D masked_query = [(''amount'', Fin 1)]"
    by (subst requests.simps)
       (simp add: masked_query_def agg_requests_Aggregate scenario_marker collect_agg_columns_def a_column_def D_def map_filter_simps)
  have c: "consume_all (dr_budget scenario_budget) (keyed scenario_rule (requests D masked_query))
      = ([((''t'', ''amount''), Fin 1)], with_enforcement True [((''t'', ''amount''), Fin 1)])"
    by (simp add: r scenario_budget_def scenario_rule_def scenario_consume)
  have "D \<noteq> []" by (simp add: D_def)
  moreover have "keyed scenario_rule (requests D masked_query) = [((''t'', ''amount''), Fin 1)]" by (simp add: r scenario_rule_def)
  ultimately show ?thesis
    using dp_rewrite_exact [OF transform_down_spec_ref wf d, of scenario_budget lp_ref] unfolding c by auto
qed

end
