(* ===== verification/Crypto.thy ===== *)
theory Crypto
  imports Serde_Json Griot_Errors
begin

text \<open>
  The digest and encoding crates the sources call (\<open>sha2\<close>, \<open>hex\<close>, \<open>xxhash-rust\<close>) as the fields of
  one parameter, with what they document: SHA-256 digests have 32 bytes, \<open>hex::encode\<close> prints two
  lower-case digits per byte, xxh64 is a 64-bit number.
\<close>

record crypto =
  sha256 :: "bytes \<Rightarrow> bytes"
  hex_encode :: "bytes \<Rightarrow> string"
  hex_decode :: "string \<Rightarrow> bytes option"
  xxh64 :: "bytes \<Rightarrow> nat"

definition hex_bytes :: "bytes \<Rightarrow> string" where
  "hex_bytes bs = concat (map (\<lambda>c. [hex_digit (code c div 16), hex_digit (code c mod 16)]) bs)"

definition crypto_spec :: "crypto \<Rightarrow> bool" where
  "crypto_spec K \<longleftrightarrow> (\<forall>bs. length (sha256 K bs) = 32 \<and> hex_encode K bs = hex_bytes bs
     \<and> hex_decode K (hex_bytes bs) = Some bs \<and> xxh64 K bs < 2 ^ 64)"

text \<open>\<open>{:016x}\<close>: a 64-bit number in 16 hexadecimal digits.\<close>

definition hex16 :: "nat \<Rightarrow> string" where
  "hex16 n = map (\<lambda>i. hex_digit (n div 16 ^ i mod 16)) (rev [0..<16])"

lemma length_hex_bytes [simp]: "length (hex_bytes bs) = 2 * length bs"
  by (induction bs) (simp_all add: hex_bytes_def)

lemma length_hex16 [simp]: "length (hex16 n) = 16"
  by (simp add: hex16_def)

section \<open>Hexadecimal digits can be read back\<close>

definition hex_value :: "char \<Rightarrow> nat" where
  "hex_value c = (if code c < 58 then code c - 48 else code c - 87)"

lemma hex_value_digit: "n < 16 \<Longrightarrow> hex_value (hex_digit n) = n"
  by (simp add: hex_value_def hex_digit_def)

lemma hex_digit_inj: "m < 16 \<Longrightarrow> n < 16 \<Longrightarrow> hex_digit m = hex_digit n \<longleftrightarrow> m = n"
  by (metis hex_value_digit)

fun hex_read :: "string \<Rightarrow> bytes" where
  "hex_read (a # b # s) = char_of (16 * hex_value a + hex_value b) # hex_read s"
| "hex_read _ = []"

lemma hex_read_bytes [simp]: "hex_read (hex_bytes bs) = bs"
proof (induction bs)
  case (Cons c bs)
  have c: "code c < 256" using of_char_of [of "of_char c :: nat"] by (metis char_of_char of_char_of mod_less_divisor zero_less_numeral)
  have "hex_value (hex_digit (code c div 16)) = code c div 16" using c by (intro hex_value_digit) (simp add: div_less_iff_less_mult)
  moreover have "hex_value (hex_digit (code c mod 16)) = code c mod 16" by (intro hex_value_digit) auto
  ultimately show ?case using Cons by (simp add: hex_bytes_def)
qed (simp add: hex_bytes_def)

lemma hex_bytes_inj: "hex_bytes a = hex_bytes b \<longleftrightarrow> a = b"
  by (metis hex_read_bytes)

text \<open>
  A digest of the documented shape, for witnesses: the first 32 bytes of the input, zero padded.
\<close>

definition crypto_ref :: crypto where
  "crypto_ref = \<lparr>sha256 = (\<lambda>bs. take 32 (bs @ replicate 32 (CHR 0x00))), hex_encode = hex_bytes,
     hex_decode = (\<lambda>s. Some (hex_read s)), xxh64 = (\<lambda>bs. length bs mod 256)\<rparr>"

lemma crypto_spec_ref: "crypto_spec crypto_ref"
proof -
  have "n mod 256 < (2 :: nat) ^ 64" for n by (rule less_le_trans [of _ 256]) simp_all
  then show ?thesis by (simp add: crypto_spec_def crypto_ref_def min_def)
qed

end
