(* ===== verification/Masking_Exec.thy ===== *)
theory Masking_Exec
  imports Physical_Plan Crypto
begin

text \<open>
  \<open>src/src/physical/masking_exec.rs\<close>: reading the column policies from the bundle, the output schema
  they give, and masking a batch. A masked column is computed per Arrow type; types without a handler
  are refused.
\<close>

section \<open>Model\<close>

definition de_masking :: "json \<Rightarrow> (string \<times> string) list option" where
  "de_masking j = Option.bind (struct_fields [''column_masking''] j) (\<lambda>fs.
     defaulted fs ''column_masking'' [] (de_hash_map de_string))"

definition parse_policy_str :: "string \<Rightarrow> string \<Rightarrow> physical_error + mask_policy" where
  "parse_policy_str s column =
     (if s = ''redact'' then Inr PRedact
      else if s = ''hash_sha256'' then Inr PHashSha256
      else if s = ''tokenize'' then Inr PTokenize
      else if s = ''noop'' then Inr PNoop
      else if s = ''partial'' then Inr PPartial
      else if s = ''null'' then Inr PNull
      else Inl (UnknownMaskPolicy s column))"

definition parse_masking_bundle :: "from_slice \<Rightarrow> contract_bundle_handle \<Rightarrow> physical_error + (string \<times> mask_policy) list" where
  "parse_masking_bundle from_slice bundle =
     (if raw_bytes bundle = [] then Inr []
      else and_then (ok_or (ContractBundleMalformed ''MaskingExec bundle JSON parse error'')
             (Option.bind (from_slice (raw_bytes bundle)) de_masking)) (\<lambda>data.
        map_r (\<lambda>(col, s). and_then (parse_policy_str s col) (\<lambda>p. Inr (col, p))) data))"

definition is_string_producing :: "mask_policy \<Rightarrow> bool" where
  "is_string_producing p \<longleftrightarrow> p = PHashSha256 \<or> p = PTokenize \<or> p = PPartial"

definition masked_field_type :: "data_type \<Rightarrow> mask_policy \<Rightarrow> data_type" where
  "masked_field_type t p =
     (if p = PNoop then t
      else if t = Utf8 \<or> t = LargeUtf8 then Utf8
      else if is_string_producing p then Utf8 else t)"

definition masked_output_schema :: "schema \<Rightarrow> (string \<times> mask_policy) list \<Rightarrow> schema" where
  "masked_output_schema s policies = map (\<lambda>f.
     case map_of policies (field_name f) of
       Some p \<Rightarrow> if p \<noteq> PNoop then
           (let out_type = masked_field_type (field_type f) p in
            if out_type = field_type f then f
            else \<lparr>field_name = field_name f, field_type = out_type, nullable = nullable f\<rparr>)
         else f
     | None \<Rightarrow> f) s"

definition masked_schema_for_bundle :: "from_slice \<Rightarrow> schema \<Rightarrow> contract_bundle_handle \<Rightarrow> physical_error + schema" where
  "masked_schema_for_bundle from_slice s bundle =
     and_then (parse_masking_bundle from_slice bundle) (\<lambda>ps. Inr (masked_output_schema s ps))"

definition new_masking :: "from_slice \<Rightarrow> contract_bundle_handle \<Rightarrow> plan \<Rightarrow> world \<Rightarrow> physical_error + plan \<times> world" where
  "new_masking from_slice bundle inner w =
     (if \<not> plan_has_contract_approved inner then Inl (ContractNotApproved ''MaskingExec'')
      else and_then (parse_masking_bundle from_slice bundle) (\<lambda>policies.
        let (i, w') = alloc_node w
        in Inr (MaskingExec \<lparr>mk_bundle = bundle, mk_id = i, column_policies = policies,
             output_schema = masked_output_schema (plan_schema inner) policies\<rparr> inner, w')))"

definition policy_for_column :: "masking_exec \<Rightarrow> string \<Rightarrow> mask_policy" where
  "policy_for_column x n = (case map_of (column_policies x) n of None \<Rightarrow> PNoop | Some p \<Rightarrow> p)"

definition mask_string_value :: "crypto \<Rightarrow> string \<Rightarrow> mask_policy \<Rightarrow> string" where
  "mask_string_value K v p = (case p of
     PRedact \<Rightarrow> ''***''
   | PHashSha256 \<Rightarrow> hex_encode K (sha256 K v)
   | PTokenize \<Rightarrow> hex_encode K (sha256 K v)
   | PPartial \<Rightarrow> ''***'' @ concat (rev (take 4 (rev (utf8_chars v))))
   | PNull \<Rightarrow> []
   | PNoop \<Rightarrow> v)"

fun debug_policy :: "mask_policy \<Rightarrow> string" where
  "debug_policy PRedact = ''Redact''" | "debug_policy PHashSha256 = ''HashSha256''"
| "debug_policy PPartial = ''Partial''" | "debug_policy PNull = ''Null''"
| "debug_policy PNoop = ''Noop''" | "debug_policy PTokenize = ''Tokenize''"

definition mask_via_utf8_cast :: "arrow \<Rightarrow> crypto \<Rightarrow> array \<Rightarrow> string \<Rightarrow> mask_policy \<Rightarrow> physical_error + array" where
  "mask_via_utf8_cast A K col_array col_name p =
     and_then (ok_or (MaskTypeUnsupported col_name ('' with policy '' @ debug_policy p @ '' (not castable to Utf8 for masking)''))
       (cast_utf8 A col_array)) (\<lambda>cast_arr.
     case cast_arr of
       StringArray strings \<Rightarrow> Inr (StringArray (map (map_option (\<lambda>v. mask_string_value K v p)) strings))
     | _ \<Rightarrow> Inl (PhysInternal ''Utf8 cast did not yield StringArray''))"

definition unsupported :: "string \<Rightarrow> string \<Rightarrow> mask_policy \<Rightarrow> physical_error + array" where
  "unsupported col_name ty p = Inl (MaskTypeUnsupported col_name (ty @ '' with policy '' @ debug_policy p))"

definition apply_mask_to_column :: "arrow \<Rightarrow> crypto \<Rightarrow> array \<Rightarrow> string \<Rightarrow> mask_policy \<Rightarrow> physical_error + array" where
  "apply_mask_to_column A K col_array col_name p =
     (if p = PNoop then Inr col_array
      else if is_string_producing p \<and> data_type_of col_array \<noteq> Utf8 \<and> data_type_of col_array \<noteq> LargeUtf8
      then mask_via_utf8_cast A K col_array col_name p
      else case col_array of
        StringArray strings \<Rightarrow> Inr (StringArray (map (map_option (\<lambda>v. mask_string_value K v p)) strings))
      | LargeStringArray strings \<Rightarrow> Inr (StringArray (map (map_option (\<lambda>v. mask_string_value K v p)) strings))
      | Int64Array xs \<Rightarrow> if p = PRedact \<or> p = PNull then Inr (Int64Array (map (map_option (\<lambda>_. 0)) xs))
          else unsupported col_name ''Int64'' p
      | Float64Array xs \<Rightarrow> if p = PRedact \<or> p = PNull then Inr (Float64Array (map (map_option (\<lambda>_. Fin 0)) xs))
          else unsupported col_name ''Float64'' p
      | BooleanArray xs \<Rightarrow> if p = PRedact \<or> p = PNull then Inr (BooleanArray (map (map_option (\<lambda>_. False)) xs))
          else unsupported col_name ''Boolean'' p
      | OtherArray t _ \<Rightarrow> unsupported col_name [] p)"

definition mask_field_column :: "arrow \<Rightarrow> crypto \<Rightarrow> (string \<times> mask_policy) list \<Rightarrow> field \<times> array \<Rightarrow> physical_error + array" where
  "mask_field_column A K policies fa = (case fa of (f, col_array) \<Rightarrow>
     case map_of policies (field_name f) of
       Some p \<Rightarrow> if p \<noteq> PNoop then apply_mask_to_column A K col_array (field_name f) p else Inr col_array
     | None \<Rightarrow> Inr col_array)"

definition apply_masking_to_batch :: "arrow \<Rightarrow> crypto \<Rightarrow> record_batch \<Rightarrow> (string \<times> mask_policy) list \<Rightarrow> schema \<Rightarrow> physical_error + record_batch" where
  "apply_masking_to_batch A K batch policies out_schema =
     and_then (map_r (mask_field_column A K policies) (zip (batch_schema batch) (batch_columns batch))) (\<lambda>columns.
       ok_or (PhysInternal ''RecordBatch reconstruction error'') (try_new A out_schema columns))"

definition mask_item :: "arrow \<Rightarrow> crypto \<Rightarrow> (string \<times> mask_policy) list \<Rightarrow> schema \<Rightarrow> record_batch \<Rightarrow> df_error + record_batch" where
  "mask_item A K policies out_schema batch =
     (if policies = [] then Inr batch
      else map_err DfExternalPhysical (apply_masking_to_batch A K batch policies out_schema))"

section \<open>Reading the policies\<close>

lemma parse_policy_str_bundle: "parse_policy_str (as_bundle_str a) col = Inr (policy_of_action a)"
  by (cases a) (simp_all add: parse_policy_str_def)

lemma sequence_all_Some: "(\<And>x. x \<in> set xs \<Longrightarrow> f x = Some (g x)) \<Longrightarrow> sequence (map f xs) = Some (map g xs)"
  by (induction xs) auto

lemma de_hash_map_values:
  assumes "distinct (map fst kvs)" "\<And>k v. (k, v) \<in> set kvs \<Longrightarrow> f v = Some (g v)"
  shows "\<exists>m. de_hash_map f (JObj kvs) = Some m \<and> distinct (map fst m)
    \<and> (\<forall>k. map_of m k = map_option g (map_of kvs k))"
proof -
  have "sequence (map (\<lambda>(k, v). map_option (Pair k) (f v)) kvs) = Some (map (\<lambda>(k, v). (k, g v)) kvs)"
    by (rule sequence_all_Some) (use assms(2) in auto)
  then have "de_hash_map f (JObj kvs) = Some (hash_map_of (map (\<lambda>(k, v). (k, g v)) kvs))"
    by (simp add: de_hash_map_def)
  moreover have "distinct (map fst (map (\<lambda>(k, v). (k, g v)) kvs))"
    using assms(1) by (simp add: comp_def case_prod_beta)
  ultimately show ?thesis by (simp add: map_of_hash_map_of map_of_rev_distinct map_of_map_values)
qed

lemma map_r_values:
  "(\<And>k v. (k, v) \<in> set kvs \<Longrightarrow> f v k = Inr (g v)) \<Longrightarrow>
   map_r (\<lambda>(k, v). and_then (f v k) (\<lambda>p. Inr (k, p))) kvs = Inr (map (\<lambda>(k, v). (k, g v)) kvs)"
  by (induction kvs) auto

lemma map_of_filter_values:
  "distinct (map fst kvs) \<Longrightarrow>
   map_of (map (\<lambda>(k, v). (k, f v)) (filter (\<lambda>(_, v). P v) kvs)) k
     = (case map_of kvs k of Some v \<Rightarrow> if P v then Some (f v) else None | None \<Rightarrow> None)"
proof (induction kvs)
  case (Cons kv kvs)
  then have "map_of kvs (fst kv) = None" by (simp add: map_of_eq_None_iff)
  then show ?case using Cons by (cases kv) (auto split: option.splits)
qed simp

text \<open>The masks a policy writes into its bundle, and the member as the operator sees it.\<close>

definition bundle_masks :: "resolved_policy \<Rightarrow> (string \<times> json) list" where
  "bundle_masks p = map (\<lambda>(col, action). (col, JStr (as_bundle_str action)))
     (filter (\<lambda>(_, action). action \<noteq> Noop) (column_masks p))"

lemma distinct_bundle_masks: "distinct (map fst (column_masks p)) \<Longrightarrow> distinct (map fst (bundle_masks p))"
  by (simp add: bundle_masks_def comp_def case_prod_beta distinct_map_filter)

lemma map_of_bundle_masks:
  "distinct (map fst (column_masks p)) \<Longrightarrow> map_of (bundle_masks p) col = (case map_of (column_masks p) col of
      Some a \<Rightarrow> if a \<noteq> Noop then Some (JStr (as_bundle_str a)) else None | None \<Rightarrow> None)"
  unfolding bundle_masks_def
  by (rule map_of_filter_values [where f = "\<lambda>a. JStr (as_bundle_str a)" and P = "\<lambda>a. a \<noteq> Noop"])

lemma de_bundle_masks:
  assumes "distinct (map fst (column_masks p))"
  shows "\<exists>m. de_hash_map de_string (map_floats rr (JObj (btree_map (bundle_masks p)))) = Some m \<and> distinct (map fst m)
    \<and> (\<forall>col. map_of m col = (case map_of (column_masks p) col of
         Some a \<Rightarrow> if a \<noteq> Noop then Some (as_bundle_str a) else None | None \<Rightarrow> None))"
proof -
  define str where "str v = (case v of JStr s \<Rightarrow> s | _ \<Rightarrow> [])" for v
  define kvs where "kvs = map (\<lambda>(k, v). (k, map_floats rr v)) (btree_map (bundle_masks p))"
  have d: "distinct (map fst kvs)" using distinct_bundle_masks [OF assms] by (simp add: kvs_def comp_def case_prod_beta)
  have v: "de_string v = Some (str v)" if "(k, v) \<in> set kvs" for k v
    using that by (auto simp: kvs_def bundle_masks_def str_def)
  obtain m where m: "de_hash_map de_string (JObj kvs) = Some m"
    "distinct (map fst m)" "\<And>k. map_of m k = map_option str (map_of kvs k)"
    using de_hash_map_values [of kvs de_string str] d v by blast
  have "map_of kvs col = map_option (map_floats rr) (map_of (bundle_masks p) col)" for col
    by (simp add: kvs_def map_of_map_values map_of_btree_map distinct_bundle_masks [OF assms])
  then have "map_of m col = (case map_of (column_masks p) col of
         Some a \<Rightarrow> if a \<noteq> Noop then Some (as_bundle_str a) else None | None \<Rightarrow> None)" for col
    by (simp add: m(3) map_of_bundle_masks [OF assms] str_def split: option.splits)
  then show ?thesis using m(1,2) by (auto simp: kvs_def)
qed

lemma parse_masking_bundle_policy:
  assumes "serde_json_spec to_vec from_slice rr" "distinct (map fst (column_masks p))"
  shows "\<exists>ps. parse_masking_bundle from_slice (to_bundle_handle to_vec uuid p) = Inr ps \<and> distinct (map fst ps)
    \<and> (\<forall>col. map_of ps col = (case map_of (column_masks p) col of
         Some a \<Rightarrow> if a = Noop then None else Some (policy_of_action a) | None \<Rightarrow> None))"
proof -
  define pol where "pol s = (case parse_policy_str s [] of Inr p \<Rightarrow> p | Inl _ \<Rightarrow> PNoop)" for s
  have pol: "pol (as_bundle_str a) = policy_of_action a" for a by (simp add: pol_def parse_policy_str_bundle)
  obtain kvs where kvs: "from_slice (to_bundle_bytes to_vec p) = Some (JObj kvs)" "to_bundle_bytes to_vec p \<noteq> []"
    "distinct (map fst kvs)" "map_of kvs ''column_masking'' = Some (map_floats rr (JObj (btree_map (bundle_masks p))))"
    using bundle_reread_fields [OF assms(1), of p, folded bundle_masks_def] by blast
  obtain m where m: "de_hash_map de_string (map_floats rr (JObj (btree_map (bundle_masks p)))) = Some m" "distinct (map fst m)"
    and mo: "\<And>col. map_of m col = (case map_of (column_masks p) col of
         Some a \<Rightarrow> if a \<noteq> Noop then Some (as_bundle_str a) else None | None \<Rightarrow> None)"
    using de_bundle_masks [OF assms(2)] by blast
  have "parse_policy_str s k = Inr (pol s)" if "(k, s) \<in> set m" for k s
  proof -
    have "map_of m k = Some s" using that m(2) by simp
    then obtain a where "s = as_bundle_str a" by (auto simp: mo split: option.splits if_splits)
    then show ?thesis by (simp add: pol parse_policy_str_bundle)
  qed
  note r = map_r_values [of m parse_policy_str pol, OF this]
  obtain fs where "struct_fields [''column_masking''] (JObj kvs) = Some fs" "fs ''column_masking'' = map_of kvs ''column_masking''"
    using struct_fields_obj [OF kvs(3), of "[''column_masking'']"] by auto
  then have "de_masking (JObj kvs) = Some m" using kvs(4) m(1) by (simp add: de_masking_def defaulted_def)
  then have "parse_masking_bundle from_slice (to_bundle_handle to_vec uuid p) = Inr (map (\<lambda>(k, s). (k, pol s)) m)"
    using kvs(1,2) r by (simp add: parse_masking_bundle_def to_bundle_handle_def from_x02_bytes_def)
  then show ?thesis using m(2) by (auto simp: comp_def case_prod_beta map_of_map_values mo pol split: option.splits)
qed

section \<open>Masked columns\<close>

lemma null_mask_nth: "i < length xs \<Longrightarrow> map (\<lambda>x. x = None) xs ! i \<longleftrightarrow> xs ! i = None"
  by simp

lemma null_mask_map_option [simp]: "map ((\<lambda>x. x = None) \<circ> map_option f) xs = map (\<lambda>x. x = None) xs"
  by simp

lemma in_i64_zero [simp]: "pred_option in_i64 (map_option (\<lambda>_. 0) x)"
  by (cases x) (simp_all add: in_i64_def)

lemma mask_cast_inv:
  assumes "arrow_spec A" "mask_via_utf8_cast A K a n p = Inr out"
  obtains xs where "cast_utf8 A a = Some (StringArray xs)" "length xs = array_len a"
    "\<forall>i<length xs. null_mask a ! i \<longrightarrow> xs ! i = None"
    "out = StringArray (map (map_option (\<lambda>v. mask_string_value K v p)) xs)"
proof -
  from assms(2) obtain b where b: "cast_utf8 A a = Some b" by (auto simp: mask_via_utf8_cast_def result_simps)
  then obtain xs where "b = StringArray xs" "length xs = array_len a" "\<forall>i<length xs. null_mask a ! i \<longrightarrow> xs ! i = None"
    using arrow_spec_cast [OF assms(1) b] by blast
  then show ?thesis using assms(2) b that by (simp add: mask_via_utf8_cast_def)
qed

text \<open>A masked column has the type the schema announces, the length of its input, and no value where
  the input had none.\<close>

lemma mask_column_type:
  assumes "arrow_spec A" "array_ok a" "apply_mask_to_column A K a n p = Inr out"
  shows "data_type_of out = masked_field_type (data_type_of a) p \<and> array_len out = array_len a \<and> array_ok out
    \<and> (\<forall>i<array_len a. null_mask a ! i \<longrightarrow> null_mask out ! i)"
proof (cases "is_string_producing p \<and> data_type_of a \<noteq> Utf8 \<and> data_type_of a \<noteq> LargeUtf8")
  case True
  then have "p \<noteq> PNoop" by (auto simp: is_string_producing_def)
  with True assms(3) have "mask_via_utf8_cast A K a n p = Inr out" by (simp add: apply_mask_to_column_def)
  from mask_cast_inv [OF assms(1) this] obtain xs where xs: "length xs = array_len a"
    "\<forall>i<length xs. null_mask a ! i \<longrightarrow> xs ! i = None"
    "out = StringArray (map (map_option (\<lambda>v. mask_string_value K v p)) xs)" by blast
  then show ?thesis using True \<open>p \<noteq> PNoop\<close> by (simp add: masked_field_type_def)
next
  case False
  then show ?thesis using assms(2,3)
    by (cases rule: array_ok_cases [OF assms(2)])
       (auto simp: apply_mask_to_column_def masked_field_type_def unsupported_def split: if_splits)
qed

text \<open>The null mask is the same wherever no cast is involved.\<close>

lemma mask_column_nulls:
  assumes "apply_mask_to_column A K a n p = Inr out" "data_type_of a = Utf8 \<or> data_type_of a = LargeUtf8 \<or> \<not> is_string_producing p"
  shows "null_mask out = null_mask a"
  using assms by (cases a) (auto simp: apply_mask_to_column_def unsupported_def split: if_splits)

definition policy_of :: "(string \<times> mask_policy) list \<Rightarrow> field \<Rightarrow> mask_policy" where
  "policy_of policies f = (case map_of policies (field_name f) of None \<Rightarrow> PNoop | Some p \<Rightarrow> p)"

lemma mask_field_column_eq:
  "mask_field_column A K policies (f, a) = apply_mask_to_column A K a (field_name f) (policy_of policies f)"
  by (auto simp: mask_field_column_def policy_of_def apply_mask_to_column_def split: option.splits)

lemma masked_output_schema_eq:
  "masked_output_schema s policies = map (\<lambda>f. f\<lparr>field_type := masked_field_type (field_type f) (policy_of policies f)\<rparr>) s"
  by (auto simp: masked_output_schema_def policy_of_def Let_def masked_field_type_def split: option.splits)

lemma apply_masking_inv:
  assumes "arrow_spec A" "batch_ok b" "apply_masking_to_batch A K b policies (masked_output_schema (batch_schema b) policies) = Inr out"
  obtains cols where "out = \<lparr>batch_schema = masked_output_schema (batch_schema b) policies, batch_columns = cols\<rparr>"
    "batch_fits (masked_output_schema (batch_schema b) policies) cols" "length cols = length (batch_columns b)"
    "\<And>i. i < length (batch_columns b) \<Longrightarrow>
       apply_mask_to_column A K (batch_columns b ! i) (field_name (batch_schema b ! i)) (policy_of policies (batch_schema b ! i))
         = Inr (cols ! i)"
    "\<And>i. i < length (batch_columns b) \<Longrightarrow> array_len (cols ! i) = num_rows b \<and> array_ok (cols ! i)
       \<and> (\<forall>r<num_rows b. null_mask (batch_columns b ! i) ! r \<longrightarrow> null_mask (cols ! i) ! r)"
proof -
  let ?s = "batch_schema b" and ?cs = "batch_columns b"
  have wf: "length ?s = length ?cs" "\<forall>a\<in>set ?cs. array_ok a"
    using assms(2) by (auto simp: batch_ok_def batch_fits_def list_all2_lengthD)
  obtain cols where cols: "map_r (mask_field_column A K policies) (zip ?s ?cs) = Inr cols"
    "batch_fits (masked_output_schema ?s policies) cols"
    "out = \<lparr>batch_schema = masked_output_schema ?s policies, batch_columns = cols\<rparr>"
    using assms(3) by (auto simp: apply_masking_to_batch_def result_simps arrow_spec_try_new [OF assms(1)] split: if_splits)
  have l2: "list_all2 (\<lambda>fa y. mask_field_column A K policies fa = Inr y) (zip ?s ?cs) cols"
    using cols(1) by (simp add: map_r_eq_Inr)
  have len: "length cols = length ?cs" using list_all2_lengthD [OF l2] wf(1) by simp
  have col: "apply_mask_to_column A K (?cs ! i) (field_name (?s ! i)) (policy_of policies (?s ! i)) = Inr (cols ! i)"
    if "i < length ?cs" for i
    using list_all2_nthD [OF l2, of i] that wf(1) by (simp add: mask_field_column_eq)
  have "array_len (cols ! i) = num_rows b \<and> array_ok (cols ! i)
      \<and> (\<forall>r<num_rows b. null_mask (?cs ! i) ! r \<longrightarrow> null_mask (cols ! i) ! r)" if "i < length ?cs" for i
    using mask_column_type [OF assms(1) _ col [OF that]] wf(2) that num_rows_len [OF assms(2), of "?cs ! i"] by simp
  then show ?thesis using that [OF cols(3,2) len] col by blast
qed

lemma apply_masking_conforms:
  assumes "arrow_spec A" "batch_ok b" "apply_masking_to_batch A K b policies (masked_output_schema (batch_schema b) policies) = Inr out"
  shows "batch_schema out = masked_output_schema (batch_schema b) policies \<and> batch_ok out \<and> num_rows out = num_rows b"
proof (rule apply_masking_inv [OF assms])
  fix cols assume h: "out = \<lparr>batch_schema = masked_output_schema (batch_schema b) policies, batch_columns = cols\<rparr>"
    "batch_fits (masked_output_schema (batch_schema b) policies) cols" "length cols = length (batch_columns b)"
    and ty: "\<And>i. i < length (batch_columns b) \<Longrightarrow> array_len (cols ! i) = num_rows b \<and> array_ok (cols ! i)
       \<and> (\<forall>r<num_rows b. null_mask (batch_columns b ! i) ! r \<longrightarrow> null_mask (cols ! i) ! r)"
  have "array_ok a" if "a \<in> set cols" for a using that ty h(3) by (auto simp: in_set_conv_nth)
  then have "batch_ok out" using h(1,2) by (simp add: batch_ok_def)
  moreover have "cols \<noteq> []" using h(2) by (simp add: batch_fits_def)
  then have "num_rows out = array_len (cols ! 0)" using h(1) by (cases cols) (simp_all add: num_rows_def)
  moreover have "0 < length (batch_columns b)" using h(3) \<open>cols \<noteq> []\<close> by (metis length_greater_0_conv)
  ultimately show ?thesis using ty [of 0] h(1) by simp
qed

text \<open>
  C13: masking a batch. If \<open>apply_masking_to_batch\<close> returns a batch, that batch has exactly the output
  schema announced for the input schema, is well-formed, has as many rows, and its i-th column is the
  masked i-th input column under the policy of its field: unmasked columns are untouched, no column
  is dropped, reordered or added, and a null stays null.
\<close>

theorem apply_masking_sound:
  assumes "arrow_spec A" "batch_ok b"
    and "apply_masking_to_batch A K b policies (masked_output_schema (batch_schema b) policies) = Inr out"
  shows "batch_schema out = masked_output_schema (batch_schema b) policies \<and> batch_ok out
    \<and> num_rows out = num_rows b \<and> length (batch_columns out) = length (batch_columns b)
    \<and> (\<forall>i<length (batch_columns b).
         apply_mask_to_column A K (batch_columns b ! i) (field_name (batch_schema b ! i)) (policy_of policies (batch_schema b ! i))
           = Inr (batch_columns out ! i)
       \<and> (\<forall>r<num_rows b. null_mask (batch_columns b ! i) ! r \<longrightarrow> null_mask (batch_columns out ! i) ! r))"
  using apply_masking_conforms [OF assms] by (rule_tac apply_masking_inv [OF assms]) simp

section \<open>What a masked column reveals\<close>

lemma map_option_const_nulls:
  "map (\<lambda>x. x = None) xs = map (\<lambda>x. x = None) ys \<Longrightarrow> map (map_option (\<lambda>_. c)) xs = map (map_option (\<lambda>_. c)) ys"
proof (induction xs arbitrary: ys)
  case (Cons x xs)
  then show ?case by (cases ys; cases x; cases "hd ys") auto
qed simp

lemma mask_string_const: "p = PRedact \<or> p = PNull \<Longrightarrow> mask_string_value K v p = mask_string_value K u p"
  by (auto simp: mask_string_value_def)

text \<open>
  Redacted and nulled columns reveal nothing but type and nulls. Two columns of the same type
  with nulls in the same places, whatever their values, are masked to the same column (or refused
  with the same error) by \<open>redact\<close> and by \<open>null\<close>.
\<close>

theorem redact_no_leak:
  assumes "array_ok a" "array_ok b" "p = PRedact \<or> p = PNull"
    and "data_type_of a = data_type_of b" "null_mask a = null_mask b"
  shows "apply_mask_to_column A K a n p = apply_mask_to_column A K b n p"
proof -
  have np: "\<not> is_string_producing p" "p \<noteq> PNoop" using assms(3) by (auto simp: is_string_producing_def)
  have s: "(\<lambda>v. mask_string_value K v p) = (\<lambda>_. mask_string_value K [] p)"
    using mask_string_const [OF assms(3)] by (intro ext) metis
  show ?thesis
    using assms map_option_const_nulls np
    by (cases a; cases b) (auto simp: apply_mask_to_column_def s unsupported_def)
qed

theorem redact_no_leak_witness:
  "apply_mask_to_column arrow_ref crypto_ref (Int64Array [Some 42, None]) ''salary'' PRedact
     = apply_mask_to_column arrow_ref crypto_ref (Int64Array [Some 7, None]) ''salary'' PRedact"
  by (rule redact_no_leak) (simp_all add: in_i64_def)

end
