(* ===== verification/Laplace_Noise_Exec.thy ===== *)
theory Laplace_Noise_Exec
  imports Masking_Exec
begin

text \<open>
  \<open>src/src/physical/laplace_noise_exec.rs\<close>: reading and validating the DP parameters of a bundle, and
  adding Laplace noise to a batch after debiting the budget. The samples of the standard exponential
  distribution are a parameter \<open>exp1 :: nat \<Rightarrow> f64\<close>, the n-th sample the thread draws.
\<close>

section \<open>Model\<close>

type_synonym dp_config = "(string \<times> (f64 \<times> f64)) list"

definition de_dp_config :: "json \<Rightarrow> (f64 \<times> f64) option" where
  "de_dp_config j = Option.bind (struct_fields [''sensitivity'', ''epsilon''] j) (\<lambda>fs.
     Option.bind (required fs ''sensitivity'' de_f64) (\<lambda>s.
     Option.bind (required fs ''epsilon'' de_f64) (\<lambda>e. Some (e, s))))"

definition de_dp_bundle :: "json \<Rightarrow> dp_config option" where
  "de_dp_bundle j = Option.bind (struct_fields [''dp_columns''] j) (\<lambda>fs.
     defaulted fs ''dp_columns'' [] (de_hash_map de_dp_config))"

definition parse_dp_bundle :: "from_slice \<Rightarrow> contract_bundle_handle \<Rightarrow> physical_error + dp_config" where
  "parse_dp_bundle from_slice bundle =
     (if raw_bytes bundle = [] then Inr []
      else ok_or (ContractBundleMalformed ''LaplaceNoiseExec bundle JSON parse error'')
             (Option.bind (from_slice (raw_bytes bundle)) de_dp_bundle))"

definition validate_dp_params :: "string \<Rightarrow> f64 \<Rightarrow> f64 \<Rightarrow> physical_error + unit" where
  "validate_dp_params column eps sens =
     (if \<not> is_finite eps \<or> f64_le eps (Fin 0) then Inl (InvalidDpParameters column eps sens)
      else if \<not> is_finite sens \<or> f64_le sens (Fin 0) then Inl (InvalidDpParameters column eps sens)
      else Inr ())"

definition build_laplace :: "from_slice \<Rightarrow> contract_bundle_handle \<Rightarrow> string \<Rightarrow> nat \<Rightarrow> plan \<Rightarrow> world \<Rightarrow> physical_error + plan \<times> world" where
  "build_laplace from_slice bundle tenant_id budget inner w =
     (if \<not> plan_has_contract_approved inner then Inl (ContractNotApproved ''LaplaceNoiseExec'')
      else and_then (parse_dp_bundle from_slice bundle) (\<lambda>dp.
        and_then (map_r (\<lambda>(col, eps, sens). validate_dp_params col eps sens) dp) (\<lambda>_.
        let (i, w') = alloc_node w
        in Inr (LaplaceNoiseExec \<lparr>ln_bundle = bundle, ln_budget = budget, ln_tenant = tenant_id,
             ln_id = i, ln_dp_columns = dp\<rparr> inner, w'))))"

text \<open>A tracker handed to a constructor gets a place of its own in the world.\<close>

definition alloc_tracker :: "privacy_budget_tracker \<Rightarrow> world \<Rightarrow> nat \<times> world" where
  "alloc_tracker t w = (next_id w, w\<lparr>next_id := Suc (next_id w), trackers := (trackers w)(next_id w := t)\<rparr>)"

definition new_with_budget :: "from_slice \<Rightarrow> contract_bundle_handle \<Rightarrow> string \<Rightarrow> privacy_budget_tracker \<Rightarrow> plan \<Rightarrow> world \<Rightarrow> physical_error + plan \<times> world" where
  "new_with_budget from_slice bundle tenant_id budget inner w =
     (let (b, w') = alloc_tracker budget w in build_laplace from_slice bundle tenant_id b inner w')"

definition new_permissive :: "from_slice \<Rightarrow> contract_bundle_handle \<Rightarrow> string \<Rightarrow> plan \<Rightarrow> world \<Rightarrow> physical_error + plan \<times> world" where
  "new_permissive from_slice bundle tenant_id inner w =
     (let (b, w') = alloc_tracker new_tracker w in build_laplace from_slice bundle tenant_id b inner w')"

definition sample_laplace :: "(nat \<Rightarrow> f64) \<Rightarrow> f64 \<Rightarrow> nat \<Rightarrow> f64 \<times> nat" where
  "sample_laplace exp1 scale n = (f64_mul (f64_sub (exp1 n) (exp1 (Suc n))) scale, n + 2)"

fun noise_values :: "(nat \<Rightarrow> f64) \<Rightarrow> f64 \<Rightarrow> ('a \<Rightarrow> f64 \<Rightarrow> 'a) \<Rightarrow> 'a option list \<Rightarrow> nat \<Rightarrow> 'a option list \<times> nat" where
  "noise_values exp1 scale add [] n = ([], n)"
| "noise_values exp1 scale add (None # xs) n =
     (case noise_values exp1 scale add xs n of (ys, n') \<Rightarrow> (None # ys, n'))"
| "noise_values exp1 scale add (Some x # xs) n =
     (case sample_laplace exp1 scale n of (noise, n1) \<Rightarrow>
      case noise_values exp1 scale add xs n1 of (ys, n') \<Rightarrow> (Some (add x noise) # ys, n'))"

definition apply_laplace_noise_to_column :: "(nat \<Rightarrow> f64) \<Rightarrow> array \<Rightarrow> string \<Rightarrow> f64 \<Rightarrow> nat \<Rightarrow> physical_error + array \<times> nat" where
  "apply_laplace_noise_to_column exp1 col_array col_name scale n =
     (case col_array of
        Float64Array xs \<Rightarrow> (case noise_values exp1 scale f64_add xs n of (ys, n') \<Rightarrow> Inr (Float64Array ys, n'))
      | Int64Array xs \<Rightarrow> (case noise_values exp1 scale (\<lambda>x noise. f64_round_as_i64 (f64_add (f64_round (of_int x)) noise)) xs n
          of (ys, n') \<Rightarrow> Inr (Int64Array ys, n'))
      | _ \<Rightarrow> Inl (DpTypeUnsupported col_name []))"

text \<open>The state a batch is processed in: the budget, the epsilon total and the random generator.\<close>

record dp_state =
  dp_tracker :: privacy_budget_tracker
  total_epsilon :: f64
  dp_rng :: nat

definition dp_column :: "(nat \<Rightarrow> f64) \<Rightarrow> dp_config \<Rightarrow> string \<Rightarrow> field \<Rightarrow> array \<Rightarrow> dp_state \<Rightarrow> (physical_error + array) \<times> dp_state" where
  "dp_column exp1 dp tenant_id f col_array st =
     (case map_of dp (field_name f) of
        None \<Rightarrow> (Inr col_array, st)
      | Some (eps, sens) \<Rightarrow>
          (case consume (dp_tracker st) tenant_id (field_name f) eps of
             (Inl _, t) \<Rightarrow> (Inl (BudgetExhausted tenant_id (field_name f)), st\<lparr>dp_tracker := t\<rparr>)
           | (Inr _, t) \<Rightarrow>
               (case apply_laplace_noise_to_column exp1 col_array (field_name f) (f64_div sens eps) (dp_rng st) of
                  Inl e \<Rightarrow> (Inl e, st\<lparr>dp_tracker := t\<rparr>)
                | Inr (noised, n) \<Rightarrow> (Inr noised, st\<lparr>dp_tracker := t,
                    total_epsilon := f64_add (total_epsilon st) eps, dp_rng := n\<rparr>))))"

fun dp_columns_loop :: "(nat \<Rightarrow> f64) \<Rightarrow> dp_config \<Rightarrow> string \<Rightarrow> (field \<times> array) list \<Rightarrow> dp_state \<Rightarrow> (physical_error + array list) \<times> dp_state" where
  "dp_columns_loop exp1 dp tenant_id [] st = (Inr [], st)"
| "dp_columns_loop exp1 dp tenant_id ((f, a) # fas) st =
     (case dp_column exp1 dp tenant_id f a st of
        (Inl e, st') \<Rightarrow> (Inl e, st')
      | (Inr c, st') \<Rightarrow> (case dp_columns_loop exp1 dp tenant_id fas st' of
          (Inl e, st'') \<Rightarrow> (Inl e, st'')
        | (Inr cs, st'') \<Rightarrow> (Inr (c # cs), st'')))"

definition apply_dp_to_batch :: "arrow \<Rightarrow> (nat \<Rightarrow> f64) \<Rightarrow> record_batch \<Rightarrow> dp_config \<Rightarrow> string \<Rightarrow> dp_state \<Rightarrow> (physical_error + record_batch) \<times> dp_state" where
  "apply_dp_to_batch A exp1 batch dp tenant_id st =
     (case dp_columns_loop exp1 dp tenant_id (zip (batch_schema batch) (batch_columns batch)) st of
        (Inl e, st') \<Rightarrow> (Inl e, st')
      | (Inr columns, st') \<Rightarrow> (ok_or (PhysInternal ''LaplaceNoiseExec RecordBatch reconstruction'')
          (try_new A (batch_schema batch) columns), st'))"

section \<open>Parameters\<close>

definition dp_param_ok :: "f64 \<Rightarrow> bool" where
  "dp_param_ok x \<longleftrightarrow> is_finite x \<and> 0 < f64_val x"

lemma validate_dp_params_ok: "validate_dp_params c e s = Inr u \<longleftrightarrow> dp_param_ok e \<and> dp_param_ok s"
  by (auto simp: validate_dp_params_def dp_param_ok_def f64_le_finite not_le)

lemma build_laplace_inv:
  assumes "build_laplace from_slice bundle tid b inner w = Inr (p, w')"
  obtains x where "p = LaplaceNoiseExec x inner" "plan_has_contract_approved inner"
    "parse_dp_bundle from_slice bundle = Inr (ln_dp_columns x)" "ln_bundle x = bundle" "ln_budget x = b" "ln_tenant x = tid"
    "\<forall>(c, e, s)\<in>set (ln_dp_columns x). dp_param_ok e \<and> dp_param_ok s"
proof -
  from assms obtain dp us where dp: "parse_dp_bundle from_slice bundle = Inr dp"
    "map_r (\<lambda>(col, eps, sens). validate_dp_params col eps sens) dp = Inr us" "plan_has_contract_approved inner"
    "p = LaplaceNoiseExec \<lparr>ln_bundle = bundle, ln_budget = b, ln_tenant = tid,
             ln_id = next_id w, ln_dp_columns = dp\<rparr> inner"
    by (auto simp: build_laplace_def alloc_node_def and_then_eq_Inr split: if_splits)
  have "\<forall>(c, e, s)\<in>set dp. dp_param_ok e \<and> dp_param_ok s"
    using dp(2) unfolding map_r_eq_Inr
    by (auto simp: list_all2_conv_all_nth in_set_conv_nth validate_dp_params_ok split: prod.splits)
  then show ?thesis using dp(1,3) by (intro that [OF dp(4)]) simp_all
qed

section \<open>Noise\<close>

lemma noise_values_nulls:
  "noise_values exp1 scale add xs n = (ys, n') \<Longrightarrow> map (\<lambda>x. x = None) ys = map (\<lambda>x. x = None) xs"
  by (induction exp1 scale add xs n arbitrary: ys n' rule: noise_values.induct) (auto split: prod.splits)

lemma noise_values_set:
  "noise_values exp1 scale add xs n = (ys, n') \<Longrightarrow> Some y \<in> set ys \<Longrightarrow> \<exists>x z. y = add x z"
  by (induction exp1 scale add xs n arbitrary: ys n' rule: noise_values.induct) (fastforce split: prod.splits)+

lemma noise_column_shape:
  assumes "apply_laplace_noise_to_column exp1 a c scale n = Inr (out, n')"
  shows "data_type_of out = data_type_of a \<and> null_mask out = null_mask a \<and> array_ok out
    \<and> data_type_of a \<in> {Int64, Float64}"
proof (cases a)
  case (Int64Array xs)
  define f where "f = (\<lambda>x noise. f64_round_as_i64 (f64_add (f64_round (of_int x)) noise))"
  obtain ys where y: "noise_values exp1 scale f xs n = (ys, n')" "out = Int64Array ys"
    using assms Int64Array by (auto simp: apply_laplace_noise_to_column_def f_def split: prod.splits)
  have "pred_option in_i64 y" if "y \<in> set ys" for y
    using noise_values_set [OF y(1)] that f64_round_as_i64_bounds by (cases y) (fastforce simp: in_i64_def f_def)+
  then show ?thesis using y noise_values_nulls [OF y(1)] Int64Array by simp
next
  case (Float64Array xs)
  then show ?thesis using assms noise_values_nulls
    by (fastforce simp: apply_laplace_noise_to_column_def split: prod.splits)
qed (use assms in \<open>simp_all add: apply_laplace_noise_to_column_def\<close>)

section \<open>Batches\<close>

text \<open>The debits a batch of this schema asks for, in column order.\<close>

definition dp_requests :: "dp_config \<Rightarrow> string \<Rightarrow> schema \<Rightarrow> (budget_key \<times> f64) list" where
  "dp_requests dp tenant_id s = concat (map (\<lambda>f. case map_of dp (field_name f) of
     None \<Rightarrow> [] | Some (eps, _) \<Rightarrow> [((tenant_id, field_name f), eps)]) s)"

lemma dp_requests_Cons:
  "dp_requests dp tid (f # s) = (case map_of dp (field_name f) of
     None \<Rightarrow> [] | Some (eps, _) \<Rightarrow> [((tid, field_name f), eps)]) @ dp_requests dp tid s"
  by (simp add: dp_requests_def)

lemma dp_column_inv:
  assumes "dp_column exp1 dp tid f a st = (Inr c, st')"
  shows "(map_of dp (field_name f) = None \<and> c = a \<and> st' = st)
    \<or> (\<exists>eps sens n. map_of dp (field_name f) = Some (eps, sens)
        \<and> consume (dp_tracker st) tid (field_name f) eps = (Inr (), dp_tracker st')
        \<and> apply_laplace_noise_to_column exp1 a (field_name f) (f64_div sens eps) (dp_rng st) = Inr (c, n)
        \<and> total_epsilon st' = f64_add (total_epsilon st) eps)"
  using assms by (auto simp: dp_column_def split: option.splits prod.splits sum.splits)

lemma dp_columns_loop_ok:
  assumes "dp_columns_loop exp1 dp tid (zip s cs) st = (Inr out, st')" "length s = length cs"
  shows "consume_all (dp_tracker st) (dp_requests dp tid s) = (dp_requests dp tid s, dp_tracker st')
    \<and> total_epsilon st' = foldl f64_add (total_epsilon st) (map snd (dp_requests dp tid s))
    \<and> list_all2 (\<lambda>(f, a) c. (map_of dp (field_name f) = None \<longrightarrow> c = a)
         \<and> (map_of dp (field_name f) \<noteq> None \<longrightarrow> data_type_of c = data_type_of a \<and> null_mask c = null_mask a
              \<and> array_ok c \<and> data_type_of a \<in> {Int64, Float64})) (zip s cs) out"
  using assms
proof (induction s arbitrary: cs st out)
  case Nil
  then show ?case by (simp add: dp_requests_def)
next
  case (Cons f s)
  then obtain a cs' where cs: "cs = a # cs'" "length s = length cs'" by (cases cs) auto
  with Cons.prems(1) obtain c st1 out' where d: "dp_column exp1 dp tid f a st = (Inr c, st1)"
    "dp_columns_loop exp1 dp tid (zip s cs') st1 = (Inr out', st')" "out = c # out'"
    by (auto split: prod.splits sum.splits)
  note IH = Cons.IH [OF d(2) cs(2)]
  from dp_column_inv [OF d(1)] show ?case
  proof (elim disjE exE conjE)
    fix eps sens n
    assume h: "map_of dp (field_name f) = Some (eps, sens)"
      "consume (dp_tracker st) tid (field_name f) eps = (Inr (), dp_tracker st1)"
      "apply_laplace_noise_to_column exp1 a (field_name f) (f64_div sens eps) (dp_rng st) = Inr (c, n)"
      "total_epsilon st1 = f64_add (total_epsilon st) eps"
    show ?thesis using IH h noise_column_shape [OF h(3)] by (simp add: cs d(3) dp_requests_Cons)
  qed (use IH cs d(3) in \<open>simp add: dp_requests_Cons\<close>)
qed

lemma apply_dp_inv:
  assumes "arrow_spec A" "batch_ok b" "apply_dp_to_batch A exp1 b dp tid st = (Inr out, st')"
  obtains cols where "dp_columns_loop exp1 dp tid (zip (batch_schema b) (batch_columns b)) st = (Inr cols, st')"
    "out = \<lparr>batch_schema = batch_schema b, batch_columns = cols\<rparr>" "batch_fits (batch_schema b) cols"
    "length (batch_schema b) = length (batch_columns b)"
proof -
  from assms(3) obtain cols where c: "dp_columns_loop exp1 dp tid (zip (batch_schema b) (batch_columns b)) st = (Inr cols, st')"
    "try_new A (batch_schema b) cols = Some out"
    by (auto simp: apply_dp_to_batch_def result_simps split: prod.splits sum.splits)
  moreover have "length (batch_schema b) = length (batch_columns b)"
    using assms(2) by (auto simp: batch_ok_def batch_fits_def list_all2_lengthD)
  ultimately show ?thesis using that by (auto simp: arrow_spec_try_new [OF assms(1)] split: if_splits)
qed

lemma dp_loop_nth:
  assumes "dp_columns_loop exp1 dp tid (zip s cs) st = (Inr cols, st')" "length s = length cs" "i < length cs"
  shows "(map_of dp (field_name (s ! i)) = None \<longrightarrow> cols ! i = cs ! i)
       \<and> (map_of dp (field_name (s ! i)) \<noteq> None \<longrightarrow> data_type_of (cols ! i) = data_type_of (cs ! i)
          \<and> null_mask (cols ! i) = null_mask (cs ! i) \<and> array_ok (cols ! i) \<and> data_type_of (cs ! i) \<in> {Int64, Float64})"
  using dp_columns_loop_ok [OF assms(1,2)] assms(2,3) by (auto dest!: list_all2_nthD [where p = i])

lemma apply_dp_conforms:
  assumes "arrow_spec A" "batch_ok b" "apply_dp_to_batch A exp1 b dp tid st = (Inr out, st')"
  shows "batch_schema out = batch_schema b \<and> batch_ok out \<and> num_rows out = num_rows b"
proof -
  obtain cols where cols: "dp_columns_loop exp1 dp tid (zip (batch_schema b) (batch_columns b)) st = (Inr cols, st')"
    "out = \<lparr>batch_schema = batch_schema b, batch_columns = cols\<rparr>" "batch_fits (batch_schema b) cols"
    "length (batch_schema b) = length (batch_columns b)"
    using apply_dp_inv [OF assms] by blast
  have len: "length cols = length (batch_columns b)"
    using dp_columns_loop_ok [OF cols(1,4)] cols(4) by (auto dest!: list_all2_lengthD)
  note nth = dp_loop_nth [OF cols(1,4)]
  have ok: "\<forall>a\<in>set (batch_columns b). array_ok a" using assms(2) by (simp add: batch_ok_def)
  have "array_ok (cols ! i)" if "i < length (batch_columns b)" for i
    using nth [OF that] ok that by (cases "map_of dp (field_name (batch_schema b ! i)) = None") auto
  then have "array_ok c" if "c \<in> set cols" for c using that len by (auto simp: in_set_conv_nth)
  then have "batch_ok out" using cols by (simp add: batch_ok_def)
  moreover have "num_rows out = num_rows b"
  proof (cases "batch_columns b")
    case Nil
    then show ?thesis using len cols by (simp add: num_rows_def)
  next
    case (Cons a as)
    then have "null_mask (cols ! 0) = null_mask a" using nth [of 0] by (cases "map_of dp (field_name (batch_schema b ! 0))") auto
    then show ?thesis using len cols Cons by (cases cols) (auto simp: num_rows_def array_len_def)
  qed
  ultimately show ?thesis using cols(2) by simp
qed

text \<open>
  C14: noise is never free. If \<open>apply_dp_to_batch\<close> returns a batch, then every DP column of the batch
  was debited before (the tracker is the one after granting the request of each DP column, in column
  order, none refused), the reported epsilon is the running sum of those requests, and the batch has
  the input's schema and row count, is well-formed, agrees with the input on every other column and
  has the input's types and nulls on the noised ones. In particular an exhausted budget or a DP column
  of a type other than Int64 and Float64 yields no rows.
\<close>

theorem apply_dp_sound:
  assumes "arrow_spec A" "batch_ok b" "apply_dp_to_batch A exp1 b dp tid st = (Inr out, st')"
  shows "consume_all (dp_tracker st) (dp_requests dp tid (batch_schema b)) = (dp_requests dp tid (batch_schema b), dp_tracker st')
    \<and> total_epsilon st' = foldl f64_add (total_epsilon st) (map snd (dp_requests dp tid (batch_schema b)))
    \<and> batch_schema out = batch_schema b \<and> batch_ok out \<and> num_rows out = num_rows b
    \<and> length (batch_columns out) = length (batch_columns b)
    \<and> (\<forall>i<length (batch_columns b).
         (map_of dp (field_name (batch_schema b ! i)) = None \<longrightarrow> batch_columns out ! i = batch_columns b ! i)
       \<and> (map_of dp (field_name (batch_schema b ! i)) \<noteq> None \<longrightarrow>
            data_type_of (batch_columns out ! i) = data_type_of (batch_columns b ! i)
          \<and> null_mask (batch_columns out ! i) = null_mask (batch_columns b ! i)
          \<and> data_type_of (batch_columns b ! i) \<in> {Int64, Float64}))"
proof -
  obtain cols where cols: "dp_columns_loop exp1 dp tid (zip (batch_schema b) (batch_columns b)) st = (Inr cols, st')"
    "out = \<lparr>batch_schema = batch_schema b, batch_columns = cols\<rparr>" "batch_fits (batch_schema b) cols"
    "length (batch_schema b) = length (batch_columns b)"
    using apply_dp_inv [OF assms] by blast
  note loop = dp_columns_loop_ok [OF cols(1,4)]
  have "length cols = length (batch_columns b)" using loop cols(4) by (auto dest!: list_all2_lengthD)
  then show ?thesis using loop dp_loop_nth [OF cols(1,4)] apply_dp_conforms [OF assms] cols(2) by simp
qed

end
