(* ===== verification/Plan_Execution.thy ===== *)
theory Plan_Execution
  imports Row_Filter_Exec Laplace_Noise_Exec
begin

text \<open>
  Running physical plans: \<open>ExecutionPlan::execute\<close> and \<open>with_new_children\<close> of the operators under
  \<open>src/src/physical\<close>. A stream is lazy: \<open>execute\<close> returns the items of the DataFusion node at the
  bottom and the closures (stages) the operators mapped over it, innermost first; nothing happens
  until the stream is polled. \<open>drive\<close> polls a stream the way a collecting consumer does: item by
  item, each through all stages, until the first error.
\<close>

section \<open>Model\<close>

datatype stage =
    StFilter "string option"
  | StMask "(string \<times> mask_policy) list" schema
  | StDp dp_config nat string nat f64

record stream =
  items :: "(df_error + record_batch) list"
  stages :: "stage list"

text \<open>The libraries a plan runs on; \<open>x_df\<close> is what a DataFusion node yields for a partition.\<close>

record exec_env =
  x_arrow :: arrow
  x_sql :: sql_env
  x_expr :: expr_engine
  x_crypto :: crypto
  x_exp1 :: "nat \<Rightarrow> f64"
  x_df :: "df_node \<Rightarrow> plan list \<Rightarrow> nat \<Rightarrow> world \<Rightarrow> (df_error + (df_error + record_batch) list) \<times> world"

text \<open>Mapping one more closure over the stream of the inner plan.\<close>

definition then_stage :: "(df_error + stream) \<times> world \<Rightarrow> stage \<Rightarrow> (df_error + stream) \<times> world" where [simp]:
  "then_stage r st = (case r of (Inl e, w) \<Rightarrow> (Inl e, w) | (Inr s, w) \<Rightarrow> (Inr (s\<lparr>stages := stages s @ [st]\<rparr>), w))"

text \<open>\<open>execute\<close> of each operator, over that of its inner plan.\<close>

definition contract_approved_execute :: "contract_approved_exec \<Rightarrow> (nat \<Rightarrow> world \<Rightarrow> (df_error + stream) \<times> world) \<Rightarrow> nat \<Rightarrow> world \<Rightarrow> (df_error + stream) \<times> world" where [simp]:
  "contract_approved_execute x inner part w = inner part (emit_approval_event x w)"

definition row_filter_execute :: "row_filter_exec \<Rightarrow> (nat \<Rightarrow> world \<Rightarrow> (df_error + stream) \<times> world) \<Rightarrow> nat \<Rightarrow> world \<Rightarrow> (df_error + stream) \<times> world" where [simp]:
  "row_filter_execute x inner part w = then_stage (inner part w) (StFilter (row_filter_expr x))"

definition masking_execute :: "masking_exec \<Rightarrow> (nat \<Rightarrow> world \<Rightarrow> (df_error + stream) \<times> world) \<Rightarrow> nat \<Rightarrow> world \<Rightarrow> (df_error + stream) \<times> world" where [simp]:
  "masking_execute x inner part w = then_stage (inner part w) (StMask (column_policies x) (output_schema x))"

definition laplace_execute :: "laplace_noise_exec \<Rightarrow> (nat \<Rightarrow> world \<Rightarrow> (df_error + stream) \<times> world) \<Rightarrow> nat \<Rightarrow> world \<Rightarrow> (df_error + stream) \<times> world" where [simp]:
  "laplace_execute x inner part w = (if ln_dp_columns x = [] then inner part w
     else then_stage (inner part w) (StDp (ln_dp_columns x) (ln_budget x) (ln_tenant x) (ln_id x) (Fin 0)))"

definition attestation_execute :: "attestation_exec \<Rightarrow> (nat \<Rightarrow> world \<Rightarrow> (df_error + stream) \<times> world) \<Rightarrow> nat \<Rightarrow> world \<Rightarrow> (df_error + stream) \<times> world" where [simp]:
  "attestation_execute x inner part w = inner part w"

fun execute :: "exec_env \<Rightarrow> plan \<Rightarrow> nat \<Rightarrow> world \<Rightarrow> (df_error + stream) \<times> world" where
  "execute env (DfExec n cs) part w = (case x_df env n cs part w of
     (Inl e, w') \<Rightarrow> (Inl e, w')
   | (Inr its, w') \<Rightarrow> (Inr \<lparr>items = its, stages = []\<rparr>, w'))"
| "execute env (ContractApprovedExec x p) part w = contract_approved_execute x (execute env p) part w"
| "execute env (RowFilterExec x p) part w = row_filter_execute x (execute env p) part w"
| "execute env (MaskingExec x p) part w = masking_execute x (execute env p) part w"
| "execute env (LaplaceNoiseExec x p) part w = laplace_execute x (execute env p) part w"
| "execute env (AttestationExec x p) part w = attestation_execute x (execute env p) part w"

definition dp_item :: "exec_env \<Rightarrow> dp_config \<Rightarrow> nat \<Rightarrow> string \<Rightarrow> nat \<Rightarrow> f64 \<Rightarrow> record_batch \<Rightarrow> world
    \<Rightarrow> (df_error + record_batch) \<times> f64 \<times> world" where
  "dp_item env dp budget tenant_id node acc batch w =
     (case apply_dp_to_batch (x_arrow env) (x_exp1 env) batch dp tenant_id
         \<lparr>dp_tracker = trackers w budget, total_epsilon = acc, dp_rng = rng_pos w\<rparr> of
        (res, st) \<Rightarrow>
          let w1 = w\<lparr>trackers := (trackers w)(budget := dp_tracker st), rng_pos := dp_rng st\<rparr>
          in (case res of
                Inl e \<Rightarrow> (Inl (DfExternalPhysical e), total_epsilon st, w1)
              | Inr noised \<Rightarrow> (Inr noised, total_epsilon st,
                  if f64_lt (Fin 0) (total_epsilon st)
                  then w1\<lparr>eps_cells := (eps_cells w1)(node := Some (total_epsilon st))\<rparr> else w1)))"

fun run_stage :: "exec_env \<Rightarrow> stage \<Rightarrow> record_batch \<Rightarrow> world \<Rightarrow> (df_error + record_batch) \<times> stage \<times> world" where
  "run_stage env (StFilter f) b w = (filter_item (x_arrow env) (x_sql env) (x_expr env) f b, StFilter f, w)"
| "run_stage env (StMask ps s) b w = (mask_item (x_arrow env) (x_crypto env) ps s b, StMask ps s, w)"
| "run_stage env (StDp dp budget tid node acc) b w =
     (case dp_item env dp budget tid node acc b w of (res, acc', w') \<Rightarrow> (res, StDp dp budget tid node acc', w'))"

fun run_stages :: "exec_env \<Rightarrow> stage list \<Rightarrow> record_batch \<Rightarrow> world \<Rightarrow> (df_error + record_batch) \<times> stage list \<times> world" where
  "run_stages env [] b w = (Inr b, [], w)"
| "run_stages env (st # sts) b w = (case run_stage env st b w of
     (Inl e, st', w') \<Rightarrow> (Inl e, st' # sts, w')
   | (Inr b', st', w') \<Rightarrow> (case run_stages env sts b' w' of (res, sts', w'') \<Rightarrow> (res, st' # sts', w'')))"

fun drive :: "exec_env \<Rightarrow> (df_error + record_batch) list \<Rightarrow> stage list \<Rightarrow> world \<Rightarrow> (df_error + record_batch list) \<times> world" where
  "drive env [] sts w = (Inr [], w)"
| "drive env (Inl e # its) sts w = (Inl e, w)"
| "drive env (Inr b # its) sts w = (case run_stages env sts b w of
     (Inl e, _, w') \<Rightarrow> (Inl e, w')
   | (Inr b', sts', w') \<Rightarrow> (case drive env its sts' w' of
       (Inl e, w'') \<Rightarrow> (Inl e, w'')
     | (Inr bs, w'') \<Rightarrow> (Inr (b' # bs), w'')))"

text \<open>Executing one partition and driving it to the end: what collecting a single-partition plan does.\<close>

definition collect_partition :: "exec_env \<Rightarrow> plan \<Rightarrow> nat \<Rightarrow> world \<Rightarrow> (df_error + record_batch list) \<times> world" where
  "collect_partition env p part w = (case execute env p part w of
     (Inl e, w') \<Rightarrow> (Inl e, w')
   | (Inr s, w') \<Rightarrow> drive env (items s) (stages s) w')"

section \<open>Replacing children\<close>

definition needs_child :: "string \<Rightarrow> df_error" where
  "needs_child n = DfInternal (n @ ''::with_new_children requires exactly one child'')"

definition unapproved_child :: "string \<Rightarrow> df_error" where
  "unapproved_child n = DfInternal (n @ ''::with_new_children: new child has no ContractApprovedExec ancestor'')"

definition contract_approved_with_children :: "contract_approved_exec \<Rightarrow> plan list \<Rightarrow> world \<Rightarrow> df_error + plan \<times> world" where [simp]:
  "contract_approved_with_children x cs w = (case cs of
     [] \<Rightarrow> Inl (needs_child ''ContractApprovedExec'')
   | inner # _ \<Rightarrow> (case alloc_node w of (i, w') \<Rightarrow> Inr (ContractApprovedExec (x\<lparr>ca_id := i\<rparr>) inner, w')))"

definition row_filter_with_children :: "row_filter_exec \<Rightarrow> plan list \<Rightarrow> world \<Rightarrow> df_error + plan \<times> world" where [simp]:
  "row_filter_with_children x cs w = (case cs of
     [] \<Rightarrow> Inl (needs_child ''RowFilterExec'')
   | inner # _ \<Rightarrow> if \<not> plan_has_contract_approved inner then Inl (unapproved_child ''RowFilterExec'')
       else (case alloc_node w of (i, w') \<Rightarrow> Inr (RowFilterExec (x\<lparr>rf_id := i\<rparr>) inner, w')))"

text \<open>The output schema is computed anew against the child's.\<close>

definition masking_with_children :: "masking_exec \<Rightarrow> plan list \<Rightarrow> world \<Rightarrow> df_error + plan \<times> world" where [simp]:
  "masking_with_children x cs w = (case cs of
     [] \<Rightarrow> Inl (needs_child ''MaskingExec'')
   | inner # _ \<Rightarrow> if \<not> plan_has_contract_approved inner then Inl (unapproved_child ''MaskingExec'')
       else (case alloc_node w of (i, w') \<Rightarrow> Inr (MaskingExec (x\<lparr>mk_id := i,
         output_schema := masked_output_schema (plan_schema inner) (column_policies x)\<rparr>) inner, w')))"

definition laplace_with_children :: "laplace_noise_exec \<Rightarrow> plan list \<Rightarrow> world \<Rightarrow> df_error + plan \<times> world" where [simp]:
  "laplace_with_children x cs w = (case cs of
     [] \<Rightarrow> Inl (needs_child ''LaplaceNoiseExec'')
   | inner # _ \<Rightarrow> if \<not> plan_has_contract_approved inner then
         Inl (DfInternal ''LaplaceNoiseExec::with_new_children: new child has no ContractApprovedExec'')
       else (case alloc_node w of (i, w') \<Rightarrow> Inr (LaplaceNoiseExec (x\<lparr>ln_id := i\<rparr>) inner, w')))"

definition attestation_with_children :: "attestation_exec \<Rightarrow> plan list \<Rightarrow> world \<Rightarrow> df_error + plan \<times> world" where [simp]:
  "attestation_with_children x cs w = (case cs of
     [] \<Rightarrow> Inl (needs_child ''AttestationExec'')
   | inner # _ \<Rightarrow> Inr (AttestationExec x inner, w))"

fun with_new_children :: "plan \<Rightarrow> plan list \<Rightarrow> world \<Rightarrow> df_error + plan \<times> world" where
  "with_new_children (DfExec n _) cs w = Inr (DfExec n cs, w)"
| "with_new_children (ContractApprovedExec x _) cs w = contract_approved_with_children x cs w"
| "with_new_children (RowFilterExec x _) cs w = row_filter_with_children x cs w"
| "with_new_children (MaskingExec x _) cs w = masking_with_children x cs w"
| "with_new_children (LaplaceNoiseExec x _) cs w = laplace_with_children x cs w"
| "with_new_children (AttestationExec x _) cs w = attestation_with_children x cs w"

section \<open>The contract of an enforcement operator\<close>

text \<open>
  What every enforcement operator promises its users: its constructor refuses a plan without an
  approval, and otherwise puts one node of its own name on top of it.
\<close>

locale enforcement_operator =
  fixes construct :: "contract_bundle_handle \<Rightarrow> plan \<Rightarrow> world \<Rightarrow> physical_error + plan \<times> world"
    and op_name :: string
  assumes refuses: "\<not> plan_has_contract_approved p \<Longrightarrow> construct b p w = Inl (ContractNotApproved op_name)"
    and wraps: "construct b p w = Inr (q, w') \<Longrightarrow> plan_children q = [p] \<and> plan_name q = op_name"
begin

lemma result_approved: "construct b p w = Inr (q, w') \<Longrightarrow> plan_has_contract_approved p \<and> plan_has_contract_approved q"
  using refuses [of p b w] wraps [of b p w q w'] by (cases "plan_has_contract_approved p")
    (auto simp: plan_has_contract_approved.simps [of q])

lemma approval_below:
  assumes "construct b p w = Inr (q, w')"
  shows "\<exists>r\<in>subplans p. plan_name r = ''ContractApprovedExec''"
  using result_approved [OF assms] approved_iff by blast

lemma subplans_result:
  assumes "construct b p w = Inr (q, w')"
  shows "subplans q = insert q (subplans p)"
  using wraps [OF assms] by (subst subplans.simps) simp

end

interpretation rf_op: enforcement_operator "new_row_filter from_slice" "''RowFilterExec''" for from_slice
  by unfold_locales (auto simp: new_row_filter_def alloc_node_def and_then_eq_Inr split: if_splits)

interpretation mk_op: enforcement_operator "new_masking from_slice" "''MaskingExec''" for from_slice
  by unfold_locales (auto simp: new_masking_def alloc_node_def and_then_eq_Inr split: if_splits)

interpretation ln_op: enforcement_operator "\<lambda>bundle. build_laplace from_slice bundle tid budget" "''LaplaceNoiseExec''"
  for from_slice tid budget
  by unfold_locales (auto simp: build_laplace_def alloc_node_def and_then_eq_Inr split: if_splits)

end
