(* ===== verification/Attestation_Exec.thy ===== *)
theory Attestation_Exec
  imports Plan_Execution
begin

text \<open>
  \<open>src/src/physical/attestation_exec.rs\<close>: the top operator and the attestation envelope it makes.
  The Arrow IPC writer, the clock and DataFusion's \<open>collect\<close> are parameters.
\<close>

section \<open>Model\<close>

record attestation_envelope =
  env_query_sha :: string
  env_contract_id :: string
  env_contract_version :: string
  env_result_hash :: string
  env_rules_applied :: "string list"
  env_epsilon_consumed :: "f64 option"
  env_delta_consumed :: "f64 option"
  env_timestamp_utc :: string
  env_engine_version :: string
  env_signature :: bytes

definition de_contract_version :: "json \<Rightarrow> string option" where
  "de_contract_version j = Option.bind (struct_fields [''contract_id'', ''contract_version''] j) (\<lambda>fs.
     Option.bind (defaulted fs ''contract_id'' [] de_string) (\<lambda>_. defaulted fs ''contract_version'' [] de_string))"

definition extract_contract_version :: "from_slice \<Rightarrow> contract_bundle_handle \<Rightarrow> physical_error + string" where
  "extract_contract_version from_slice bundle =
     (if raw_bytes bundle = [] then Inr []
      else ok_or (ContractBundleMalformed ''AttestationExec bundle JSON parse error'')
             (Option.bind (from_slice (raw_bytes bundle)) de_contract_version))"

definition sha256_hex :: "crypto \<Rightarrow> string \<Rightarrow> string" where
  "sha256_hex K s = hex_encode K (sha256 K s)"

definition new_attestation :: "from_slice \<Rightarrow> crypto \<Rightarrow> contract_bundle_handle \<Rightarrow> string \<Rightarrow> plan \<Rightarrow> physical_error + plan" where
  "new_attestation from_slice K bundle query_sql inner =
     (if bundle_contract_id bundle = [] then Inl MissingContractReference
      else and_then (extract_contract_version from_slice bundle) (\<lambda>version.
        if version = [] then Inl MissingContractReference
        else Inr (AttestationExec \<lparr>at_bundle = bundle, query_sha = sha256_hex K query_sql,
               at_contract_version = version\<rparr> inner)))"

text \<open>\<open>ipc\<close>: the file writer's outcome for a schema and its batches, in order (initialise, write, finish).\<close>

type_synonym ipc_writer = "schema \<Rightarrow> record_batch list \<Rightarrow> string + bytes"

definition compute_result_hash :: "ipc_writer \<Rightarrow> crypto \<Rightarrow> record_batch list \<Rightarrow> physical_error + string" where
  "compute_result_hash ipc K batches = (case batches of
     [] \<Rightarrow> Inr (hex16 (xxh64 K []))
   | b # _ \<Rightarrow> and_then (map_err AttestationSerializationFailed (ipc (batch_schema b) batches)) (\<lambda>buf.
       if buf = [] then Inl (AttestationSerializationFailed ''IPC serialization produced empty buffer after finish()'')
       else Inr (hex16 (xxh64 K buf))))"

definition enforcement_names :: "string list" where
  "enforcement_names = [''ContractApprovedExec'', ''RowFilterExec'', ''MaskingExec'', ''LaplaceNoiseExec'', ''AttestationExec'']"

function collect_rules_applied :: "plan \<Rightarrow> string list" where
  "collect_rules_applied p = (if plan_name p \<in> set enforcement_names then [plan_name p] else [])
     @ concat (map collect_rules_applied (plan_children p))"
  by pat_completeness auto
termination
  by (relation "measure size") (auto simp: plan_children_size)

declare collect_rules_applied.simps [simp del]

fun first_some :: "'a option list \<Rightarrow> 'a option" where
  "first_some [] = None"
| "first_some (Some x # xs) = Some x"
| "first_some (None # xs) = first_some xs"

fun find_epsilon_consumed :: "world \<Rightarrow> plan \<Rightarrow> f64 option" where
  "find_epsilon_consumed w (LaplaceNoiseExec x _) = eps_cells w (ln_id x)"
| "find_epsilon_consumed w (DfExec _ cs) = first_some (map (find_epsilon_consumed w) cs)"
| "find_epsilon_consumed w (ContractApprovedExec _ p) = find_epsilon_consumed w p"
| "find_epsilon_consumed w (RowFilterExec _ p) = find_epsilon_consumed w p"
| "find_epsilon_consumed w (MaskingExec _ p) = find_epsilon_consumed w p"
| "find_epsilon_consumed w (AttestationExec _ p) = find_epsilon_consumed w p"

definition build_placeholder_signature :: "crypto \<Rightarrow> string \<Rightarrow> string \<Rightarrow> bytes" where
  "build_placeholder_signature K qsha rhash = sha256 K (qsha @ rhash)"

definition CARGO_PKG_VERSION :: string where
  "CARGO_PKG_VERSION = ''0.1.0''"

type_synonym collector = "plan \<Rightarrow> world \<Rightarrow> (df_error + record_batch list) \<times> world"

definition execute_attested :: "collector \<Rightarrow> ipc_writer \<Rightarrow> crypto \<Rightarrow> string \<Rightarrow> attestation_exec \<Rightarrow> plan \<Rightarrow> world
    \<Rightarrow> (physical_error + record_batch list \<times> attestation_envelope) \<times> world" where
  "execute_attested collect ipc K now x inner w =
     (case collect inner w of
        (Inl e, w') \<Rightarrow> (Inl (PhysDataFusion e), w')
      | (Inr batches, w') \<Rightarrow>
          (and_then (compute_result_hash ipc K batches) (\<lambda>result_hash.
             Inr (batches, \<lparr>env_query_sha = query_sha x, env_contract_id = bundle_contract_id (at_bundle x),
               env_contract_version = at_contract_version x, env_result_hash = result_hash,
               env_rules_applied = collect_rules_applied inner,
               env_epsilon_consumed = find_epsilon_consumed w' inner, env_delta_consumed = None,
               env_timestamp_utc = now, env_engine_version = CARGO_PKG_VERSION,
               env_signature = build_placeholder_signature K (query_sha x) result_hash\<rparr>)), w'))"

section \<open>Facts\<close>

lemma rules_simps [simp]:
  "collect_rules_applied (DfExec n cs) = (if node_name n \<in> set enforcement_names then [node_name n] else [])
     @ concat (map collect_rules_applied cs)"
  "collect_rules_applied (ContractApprovedExec x p) = ''ContractApprovedExec'' # collect_rules_applied p"
  "collect_rules_applied (RowFilterExec r p) = ''RowFilterExec'' # collect_rules_applied p"
  "collect_rules_applied (MaskingExec m p) = ''MaskingExec'' # collect_rules_applied p"
  "collect_rules_applied (LaplaceNoiseExec l p) = ''LaplaceNoiseExec'' # collect_rules_applied p"
  "collect_rules_applied (AttestationExec a p) = ''AttestationExec'' # collect_rules_applied p"
  by (subst collect_rules_applied.simps, simp add: enforcement_names_def)+

lemma new_attestation_inv:
  assumes "new_attestation from_slice K bundle sql inner = Inr p"
  obtains x where "p = AttestationExec x inner" "at_bundle x = bundle" "query_sha x = sha256_hex K sql"
    "at_contract_version x \<noteq> []" "bundle_contract_id bundle \<noteq> []"
  using assms by (auto simp: new_attestation_def and_then_eq_Inr split: if_splits)

lemma result_hash_length: "compute_result_hash ipc K bs = Inr h \<Longrightarrow> length h = 16"
  by (auto simp: compute_result_hash_def result_simps split: list.splits if_splits)

text \<open>
  C20: what an attestation binds. The operator exists only for a bundle with a contract id and
  version. If an attested run returns, it returns exactly the batches the plan delivered, its envelope
  names the bundle's contract, the hash of the query text, the hash of those batches and the
  enforcement operators of the plan, and the text that is signed determines both hashes: two attested
  queries that sign the same text have the same query hash and the same result hash.
\<close>

theorem attestation_binds:
  assumes "crypto_spec K" "new_attestation from_slice K bundle sql inner = Inr (AttestationExec x inner)"
    and "execute_attested collect ipc K now x inner w = (Inr (batches, env), w')"
  shows "bundle_contract_id bundle \<noteq> [] \<and> env_contract_version env \<noteq> []
    \<and> env_contract_id env = bundle_contract_id bundle
    \<and> env_query_sha env = hex_bytes (sha256 K sql)
    \<and> collect inner w = (Inr batches, w')
    \<and> compute_result_hash ipc K batches = Inr (env_result_hash env)
    \<and> env_rules_applied env = collect_rules_applied inner
    \<and> env_signature env = sha256 K (env_query_sha env @ env_result_hash env)
    \<and> (\<forall>q h. length q = 64 \<and> q @ h = env_query_sha env @ env_result_hash env
         \<longrightarrow> q = env_query_sha env \<and> h = env_result_hash env)"
proof -
  have x: "at_bundle x = bundle" "query_sha x = sha256_hex K sql" "at_contract_version x \<noteq> []" "bundle_contract_id bundle \<noteq> []"
    using new_attestation_inv [OF assms(2)] by auto
  have k: "sha256_hex K sql = hex_bytes (sha256 K sql)" "length (sha256 K sql) = 32"
    using assms(1) by (simp_all add: sha256_hex_def crypto_spec_def)
  obtain h where e: "collect inner w = (Inr batches, w')" "compute_result_hash ipc K batches = Inr h"
    "env = \<lparr>env_query_sha = query_sha x, env_contract_id = bundle_contract_id (at_bundle x),
               env_contract_version = at_contract_version x, env_result_hash = h,
               env_rules_applied = collect_rules_applied inner,
               env_epsilon_consumed = find_epsilon_consumed w' inner, env_delta_consumed = None,
               env_timestamp_utc = now, env_engine_version = CARGO_PKG_VERSION,
               env_signature = build_placeholder_signature K (query_sha x) h\<rparr>"
    using assms(3) by (auto simp: execute_attested_def and_then_eq_Inr split: prod.splits sum.splits)
  have len: "length (query_sha x) = 64" using x(2) k by simp
  have split: "\<forall>q h'. length q = 64 \<and> q @ h' = query_sha x @ h \<longrightarrow> q = query_sha x \<and> h' = h"
    using len append_eq_append_conv by metis
  show ?thesis using x k(1) e(1,2) split
    by (auto simp: e(3) build_placeholder_signature_def)
qed

end
