(* ===== verification/Plan_Invariants.thy ===== *)
theory Plan_Invariants
  imports Attestation_Exec
begin

text \<open>
  Invariants of the physical plans that can be assembled with the constructors and
  \<open>with_new_children\<close> of \<open>src/src/physical\<close>: every enforcement operator stands above a genuine
  \<open>ContractApprovedExec\<close>, and every batch a plan delivers has the schema the plan announces.
\<close>

section \<open>Plans that can be built\<close>

text \<open>
  Any sequence of constructor calls and child replacements, over DataFusion nodes that do not call
  themselves \<open>ContractApprovedExec\<close>.
\<close>

inductive built :: "from_slice \<Rightarrow> crypto \<Rightarrow> plan \<Rightarrow> bool" for fs K where
  df: "node_name n \<noteq> ''ContractApprovedExec'' \<Longrightarrow> \<forall>c\<in>set cs. built fs K c \<Longrightarrow> built fs K (DfExec n cs)"
| approve: "built fs K p \<Longrightarrow> new_contract_approved b p w = Inr (q, w') \<Longrightarrow> built fs K q"
| row_filter: "built fs K p \<Longrightarrow> new_row_filter fs b p w = Inr (q, w') \<Longrightarrow> built fs K q"
| masking: "built fs K p \<Longrightarrow> new_masking fs b p w = Inr (q, w') \<Longrightarrow> built fs K q"
| laplace: "built fs K p \<Longrightarrow> build_laplace fs b tid budget p w = Inr (q, w') \<Longrightarrow> built fs K q"
| attest: "built fs K p \<Longrightarrow> new_attestation fs K b sql p = Inr q \<Longrightarrow> built fs K q"
| rewrite: "built fs K p \<Longrightarrow> \<forall>c\<in>set cs. built fs K c \<Longrightarrow> with_new_children p cs w = Inr (q, w') \<Longrightarrow> built fs K q"

fun is_enforcement :: "plan \<Rightarrow> bool" where
  "is_enforcement (RowFilterExec _ _) = True"
| "is_enforcement (MaskingExec _ _) = True"
| "is_enforcement (LaplaceNoiseExec _ _) = True"
| "is_enforcement _ = False"

definition approved_by_contract :: "plan \<Rightarrow> bool" where
  "approved_by_contract r \<longleftrightarrow> (\<exists>x p. r = ContractApprovedExec x p \<and> bundle_contract_id (ca_bundle x) \<noteq> [])"

definition has_approval :: "plan \<Rightarrow> bool" where
  "has_approval p \<longleftrightarrow> (\<exists>r\<in>subplans p. approved_by_contract r)"

text \<open>The invariant: names are honest, approvals carry a contract, enforcement stands above one.\<close>

definition plan_inv :: "plan \<Rightarrow> bool" where
  "plan_inv p \<longleftrightarrow> (\<forall>q\<in>subplans p. (plan_name q = ''ContractApprovedExec'' \<longrightarrow> approved_by_contract q)
     \<and> (is_enforcement q \<longrightarrow> has_approval q))"

lemma subplans_simps [simp]:
  "subplans (DfExec n cs) = insert (DfExec n cs) (\<Union>c\<in>set cs. subplans c)"
  "subplans (ContractApprovedExec x p) = insert (ContractApprovedExec x p) (subplans p)"
  "subplans (RowFilterExec r p) = insert (RowFilterExec r p) (subplans p)"
  "subplans (MaskingExec m p) = insert (MaskingExec m p) (subplans p)"
  "subplans (LaplaceNoiseExec l p) = insert (LaplaceNoiseExec l p) (subplans p)"
  "subplans (AttestationExec a p) = insert (AttestationExec a p) (subplans p)"
  by (subst subplans.simps, simp)+

lemma self_subplan [simp]: "p \<in> subplans p"
  by (subst subplans.simps) simp

lemma approval_genuine: "plan_inv p \<Longrightarrow> plan_has_contract_approved p \<Longrightarrow> has_approval p"
  by (auto simp: plan_inv_def has_approval_def approved_iff)

lemma plan_inv_wrap:
  assumes "plan_inv p" "subplans q = insert q (subplans p)"
    and "plan_name q = ''ContractApprovedExec'' \<Longrightarrow> approved_by_contract q"
    and "is_enforcement q \<Longrightarrow> plan_has_contract_approved p"
  shows "plan_inv q"
proof -
  have "has_approval q" if "is_enforcement q"
    using approval_genuine [OF assms(1) assms(4) [OF that]] assms(2) by (auto simp: has_approval_def)
  then show ?thesis using assms(1-3) by (auto simp: plan_inv_def)
qed

lemma with_new_children_inv:
  assumes "with_new_children p cs w = Inr (q, w')"
  shows "(\<exists>n ds. p = DfExec n ds \<and> q = DfExec n cs)
    \<or> (\<exists>c\<in>set cs. subplans q = insert q (subplans c) \<and> plan_name q = plan_name p
        \<and> (is_enforcement q \<longrightarrow> plan_has_contract_approved c) \<and> (approved_by_contract p \<longrightarrow> approved_by_contract q))"
proof (cases cs)
  case Nil
  then show ?thesis using assms by (cases p) auto
next
  case (Cons c cs')
  then show ?thesis using assms
    by (cases p) (auto simp: alloc_node_def approved_by_contract_def split: if_splits)
qed

lemma plan_inv_rewrite:
  assumes "plan_inv p" "\<forall>c\<in>set cs. plan_inv c" "with_new_children p cs w = Inr (q, w')"
  shows "plan_inv q"
  using with_new_children_inv [OF assms(3)]
proof (elim disjE exE bexE conjE)
  fix n ds assume h: "p = DfExec n ds" "q = DfExec n cs"
  then have "node_name n \<noteq> ''ContractApprovedExec''"
    using assms(1) by (auto simp: plan_inv_def approved_by_contract_def)
  then show ?thesis using assms(2) h by (auto simp: plan_inv_def)
next
  fix c assume h: "c \<in> set cs" "subplans q = insert q (subplans c)" "plan_name q = plan_name p"
    "is_enforcement q \<longrightarrow> plan_has_contract_approved c" "approved_by_contract p \<longrightarrow> approved_by_contract q"
  have "plan_name p = ''ContractApprovedExec'' \<Longrightarrow> approved_by_contract p"
    using assms(1) self_subplan [of p] unfolding plan_inv_def by blast
  then show ?thesis by (rule_tac plan_inv_wrap [of c]) (use assms(2) h in auto)
qed

lemma built_inv: "built fs K p \<Longrightarrow> plan_inv p"
proof (induction rule: built.induct)
  case (df n cs)
  then show ?case by (auto simp: plan_inv_def)
next
  case (approve p b w q w')
  show ?case by (rule plan_inv_wrap [OF approve.IH])
      (use approve.hyps(2) in \<open>auto simp: new_contract_approved_def alloc_node_def approved_by_contract_def split: if_splits\<close>)
next
  case (row_filter p b w q w')
  show ?case by (rule plan_inv_wrap [OF row_filter.IH rf_op.subplans_result [OF row_filter.hyps(2)]])
      (use rf_op.result_approved [OF row_filter.hyps(2)] rf_op.wraps [OF row_filter.hyps(2)] in auto)
next
  case (masking p b w q w')
  show ?case by (rule plan_inv_wrap [OF masking.IH mk_op.subplans_result [OF masking.hyps(2)]])
      (use mk_op.result_approved [OF masking.hyps(2)] mk_op.wraps [OF masking.hyps(2)] in auto)
next
  case (laplace p b tid budget w q w')
  show ?case by (rule plan_inv_wrap [OF laplace.IH ln_op.subplans_result [OF laplace.hyps(2)]])
      (use ln_op.result_approved [OF laplace.hyps(2)] ln_op.wraps [OF laplace.hyps(2)] in auto)
next
  case (attest p b sql q)
  obtain x where "q = AttestationExec x p" using attest.hyps(2) by (rule new_attestation_inv)
  then show ?case by (rule_tac plan_inv_wrap [OF attest.IH]) simp_all
next
  case (rewrite p cs w q w')
  show ?case by (rule plan_inv_rewrite [of p cs w q w']) (use rewrite in auto)
qed

text \<open>
  C5: no enforcement without approval. In every plan that can be put together with the operators'
  constructors and \<open>with_new_children\<close>, each row-filter, masking and noise operator has below it a
  \<open>ContractApprovedExec\<close> made for a bundle with a contract id, provided no DataFusion node borrows
  that operator's name.
\<close>

theorem enforcement_above_approval:
  assumes "built fs K p" "q \<in> subplans p" "is_enforcement q"
  shows "\<exists>x inner. ContractApprovedExec x inner \<in> subplans q \<and> bundle_contract_id (ca_bundle x) \<noteq> []"
proof -
  have "has_approval q" using built_inv [OF assms(1)] assms(2,3) by (simp add: plan_inv_def)
  then show ?thesis unfolding has_approval_def approved_by_contract_def by blast
qed

text \<open>
  The approval check trusts names. A DataFusion node that merely reports the name
  \<open>ContractApprovedExec\<close> satisfies \<open>plan_has_contract_approved\<close>, so the enforcement constructors
  accept a plan in which no contract was ever approved.
\<close>

theorem approval_check_by_name:
  "plan_has_contract_approved (DfExec \<lparr>node_name = ''ContractApprovedExec'', node_schema = s, node_key = k\<rparr> [])
   \<and> \<not> has_approval (DfExec \<lparr>node_name = ''ContractApprovedExec'', node_schema = s, node_key = k\<rparr> [])
   \<and> is_ok (new_row_filter fs \<lparr>handle_id = 0, raw_bytes = [], bundle_contract_id = [], bundle_tenant_id = []\<rparr>
        (DfExec \<lparr>node_name = ''ContractApprovedExec'', node_schema = s, node_key = k\<rparr> []) w)"
  by (simp add: has_approval_def approved_by_contract_def new_row_filter_def parse_row_filter_def alloc_node_def)

section \<open>Schemas of delivered batches\<close>

definition conforms :: "schema \<Rightarrow> record_batch \<Rightarrow> bool" where
  "conforms s b \<longleftrightarrow> batch_ok b \<and> batch_schema b = s"

text \<open>A masking operator announces the masked schema of its input, as its constructors make it.\<close>

fun plan_typed :: "plan \<Rightarrow> bool" where
  "plan_typed (DfExec _ _) = True"
| "plan_typed (ContractApprovedExec _ p) = plan_typed p"
| "plan_typed (RowFilterExec _ p) = plan_typed p"
| "plan_typed (MaskingExec x p) \<longleftrightarrow> plan_typed p
     \<and> output_schema x = masked_output_schema (plan_schema p) (column_policies x)"
| "plan_typed (LaplaceNoiseExec _ p) = plan_typed p"
| "plan_typed (AttestationExec _ p) = plan_typed p"

lemma built_typed: "built fs K p \<Longrightarrow> plan_typed p"
proof (induction rule: built.induct)
  case (rewrite p cs w q w')
  then show ?case by (cases p) (auto simp: alloc_node_def split: list.splits if_splits)
qed (auto simp: new_contract_approved_def new_row_filter_def new_masking_def build_laplace_def new_attestation_def
      alloc_node_def and_then_eq_Inr split: if_splits)

text \<open>The schema a batch of schema \<open>s\<close> has after a list of stages, if the stages fit together.\<close>

fun stages_to :: "schema \<Rightarrow> stage list \<Rightarrow> schema \<Rightarrow> bool" where
  "stages_to s [] t = (s = t)"
| "stages_to s (StFilter _ # sts) t = stages_to s sts t"
| "stages_to s (StMask ps out # sts) t = (out = masked_output_schema s ps \<and> stages_to out sts t)"
| "stages_to s (StDp _ _ _ _ _ # sts) t = stages_to s sts t"

lemma stages_to_snoc:
  "stages_to s sts t \<Longrightarrow> stages_to s (sts @ [StFilter f]) t"
  "stages_to s sts t \<Longrightarrow> stages_to s (sts @ [StDp dp r tid n acc]) t"
  "stages_to s sts t \<Longrightarrow> stages_to s (sts @ [StMask ps (masked_output_schema t ps)]) (masked_output_schema t ps)"
  by (induction s sts t rule: stages_to.induct) auto

lemma masked_schema_none [simp]: "masked_output_schema s [] = s"
  by (simp add: masked_output_schema_def)

text \<open>What DataFusion documents of a node: its batches have its schema.\<close>

definition df_conforms :: "exec_env \<Rightarrow> bool" where
  "df_conforms env \<longleftrightarrow> (\<forall>n cs part w its w' b. x_df env n cs part w = (Inr its, w') \<and> Inr b \<in> set its
     \<longrightarrow> conforms (node_schema n) b)"

text \<open>The operators that only add a stage to the stream of their input.\<close>

fun own_stage :: "plan \<Rightarrow> stage list" where
  "own_stage (RowFilterExec x _) = [StFilter (row_filter_expr x)]"
| "own_stage (MaskingExec x _) = [StMask (column_policies x) (output_schema x)]"
| "own_stage (LaplaceNoiseExec x _) = (if ln_dp_columns x = [] then []
     else [StDp (ln_dp_columns x) (ln_budget x) (ln_tenant x) (ln_id x) (Fin 0)])"
| "own_stage _ = []"

lemma execute_inv:
  assumes "execute env p part w = (Inr s, w')"
  shows "(\<exists>n cs. p = DfExec n cs \<and> x_df env n cs part w = (Inr (items s), w') \<and> stages s = [])
    \<or> (\<exists>c w1 s1. plan_children p = [c] \<and> (\<forall>n cs. p \<noteq> DfExec n cs) \<and> execute env c part w1 = (Inr s1, w')
         \<and> items s = items s1 \<and> stages s = stages s1 @ own_stage p)"
  using assms by (cases p) (fastforce split: prod.splits sum.splits if_splits)+

lemma own_stage_to:
  assumes "plan_typed p" "plan_children p = [c]" "\<forall>n cs. p \<noteq> DfExec n cs" "stages_to s sts (plan_schema c)"
  shows "stages_to s (sts @ own_stage p) (plan_schema p) \<and> plan_typed c"
  using assms by (cases p) (auto simp: stages_to_snoc)

lemma execute_stages:
  assumes "plan_typed p" "df_conforms env" "execute env p part w = (Inr s, w')"
  shows "\<exists>base. (\<forall>b. Inr b \<in> set (items s) \<longrightarrow> conforms base b) \<and> stages_to base (stages s) (plan_schema p)"
  using assms(1,3)
proof (induction "size p" arbitrary: p w s w' rule: less_induct)
  case less
  from execute_inv [OF less.prems(2)] show ?case
  proof (elim disjE exE conjE)
    fix n cs assume "p = DfExec n cs" "x_df env n cs part w = (Inr (items s), w')" "stages s = []"
    then show ?thesis using assms(2) by (auto simp: df_conforms_def)
  next
    fix c w1 s1 assume h: "plan_children p = [c]" "\<forall>n cs. p \<noteq> DfExec n cs" "execute env c part w1 = (Inr s1, w')"
      "items s = items s1" "stages s = stages s1 @ own_stage p"
    have "size c < size p" using h(1) plan_children_size [of c p] by simp
    moreover have "plan_typed c" using less.prems(1) h(1,2) by (cases p) auto
    ultimately obtain base where "\<forall>b. Inr b \<in> set (items s1) \<longrightarrow> conforms base b" "stages_to base (stages s1) (plan_schema c)"
      using less.hyps h(3) by blast
    then show ?thesis using own_stage_to [OF less.prems(1) h(1,2)] h(4,5) by auto
  qed
qed

lemma dp_item_conforms:
  assumes "arrow_spec (x_arrow env)" "conforms s b" "dp_item env dp r tid n acc b w = (Inr b', acc', w')"
  shows "conforms s b'"
proof -
  from assms(3) obtain st st' where "apply_dp_to_batch (x_arrow env) (x_exp1 env) b dp tid st = (Inr b', st')"
    by (auto simp: dp_item_def Let_def split: prod.splits sum.splits)
  then show ?thesis using apply_dp_conforms [OF assms(1)] assms(2) by (auto simp: conforms_def)
qed

lemma mask_item_conforms:
  assumes "arrow_spec A" "conforms s b" "mask_item A K ps (masked_output_schema s ps) b = Inr b'"
  shows "conforms (masked_output_schema s ps) b'"
proof (cases "ps = []")
  case True
  then show ?thesis using assms by (simp add: mask_item_def)
next
  case False
  then have "apply_masking_to_batch A K b ps (masked_output_schema (batch_schema b) ps) = Inr b'"
    using assms(2,3) by (auto simp: mask_item_def conforms_def result_simps)
  then show ?thesis using apply_masking_conforms [OF assms(1)] assms(2) by (auto simp: conforms_def)
qed

lemma run_stage_conforms:
  assumes "arrow_spec (x_arrow env)" "conforms s b" "stages_to s (st # sts) t" "run_stage env st b w = (res, st', w')"
  shows "stages_to s (st' # sts') t \<longleftrightarrow> stages_to s (st # sts') t"
    and "res = Inr b' \<Longrightarrow> \<exists>s'. conforms s' b' \<and> stages_to s' sts t
           \<and> (\<forall>sts'. stages_to s' sts' t \<longrightarrow> stages_to s (st' # sts') t)"
proof -
  show "stages_to s (st' # sts') t \<longleftrightarrow> stages_to s (st # sts') t"
    using assms(4) by (cases st) (auto split: prod.splits)
  assume r: "res = Inr b'"
  show "\<exists>s'. conforms s' b' \<and> stages_to s' sts t \<and> (\<forall>sts'. stages_to s' sts' t \<longrightarrow> stages_to s (st' # sts') t)"
  proof (cases st)
    case (StFilter f)
    then have "conforms s b'" using filter_item_ok [OF assms(1)] assms(2,4) r by (auto simp: conforms_def)
    then show ?thesis using assms(3,4) StFilter by auto
  next
    case (StMask ps out)
    then have "conforms out b'" using mask_item_conforms [OF assms(1,2)] assms(3,4) r by auto
    then show ?thesis using assms(3,4) StMask by auto
  next
    case (StDp dp budget tid n acc)
    then have "conforms s b'" using dp_item_conforms [OF assms(1,2)] assms(4) r by (auto split: prod.splits)
    then show ?thesis using assms(3,4) StDp by (auto split: prod.splits)
  qed
qed

lemma run_stages_conforms:
  assumes "arrow_spec (x_arrow env)" "conforms s b" "stages_to s sts t" "run_stages env sts b w = (Inr b', sts', w')"
  shows "conforms t b' \<and> stages_to s sts' t"
  using assms(2-4)
proof (induction sts arbitrary: s b w sts')
  case (Cons st sts)
  from Cons.prems(3) obtain b1 st1 w1 sts1 where h: "run_stage env st b w = (Inr b1, st1, w1)"
    "run_stages env sts b1 w1 = (Inr b', sts1, w')" "sts' = st1 # sts1"
    by (auto split: prod.splits sum.splits)
  obtain s1 where s1: "conforms s1 b1" "stages_to s1 sts t" "\<forall>sts'. stages_to s1 sts' t \<longrightarrow> stages_to s (st1 # sts') t"
    using run_stage_conforms(2) [OF assms(1) Cons.prems(1,2) h(1) refl] by blast
  then show ?case using Cons.IH [OF s1(1,2) h(2)] h(3) by auto
qed auto

lemma drive_conforms:
  assumes "arrow_spec (x_arrow env)" "\<forall>b. Inr b \<in> set its \<longrightarrow> conforms s b" "stages_to s sts t"
    and "drive env its sts w = (Inr bs, w')"
  shows "\<forall>b\<in>set bs. conforms t b"
  using assms
proof (induction env its sts w arbitrary: bs w' rule: drive.induct)
  case (3 env b its sts w)
  from "3.prems"(4) obtain b1 sts1 w1 bs1 where h: "run_stages env sts b w = (Inr b1, sts1, w1)"
    "drive env its sts1 w1 = (Inr bs1, w')" "bs = b1 # bs1"
    by (auto split: prod.splits sum.splits)
  have "conforms t b1 \<and> stages_to s sts1 t"
    using run_stages_conforms [OF "3.prems"(1) _ "3.prems"(3) h(1)] "3.prems"(2) by simp
  moreover have "\<forall>b\<in>set bs1. conforms t b"
    using "3.IH" [OF h(1) [symmetric] refl refl "3.prems"(1) _ _ h(2)] "3.prems"(2) calculation by simp
  ultimately show ?case using h(3) by simp
qed auto

text \<open>
  C15: what a plan announces is what it delivers. For every plan that can be built, if collecting a
  partition succeeds, each batch it returns is well-formed and has exactly the schema the plan
  reports, whatever filters, masks and noise were applied below and whichever columns masking
  retyped.
\<close>

theorem collect_conforms:
  assumes "built fs K p" "arrow_spec (x_arrow env)" "df_conforms env"
    and "collect_partition env p part w = (Inr bs, w')"
  shows "\<forall>b\<in>set bs. batch_ok b \<and> batch_schema b = plan_schema p"
proof -
  from assms(4) obtain s w1 where s: "execute env p part w = (Inr s, w1)" "drive env (items s) (stages s) w1 = (Inr bs, w')"
    by (auto simp: collect_partition_def split: prod.splits sum.splits)
  obtain base where "\<forall>b. Inr b \<in> set (items s) \<longrightarrow> conforms base b" "stages_to base (stages s) (plan_schema p)"
    using execute_stages [OF built_typed [OF assms(1)] assms(3) s(1)] by blast
  from drive_conforms [OF assms(2) this s(2)] show ?thesis by (simp add: conforms_def)
qed

end
