(* ===== verification/Plan_Display.thy ===== *)
theory Plan_Display
  imports Plan_Invariants
begin

text \<open>
  How the physical operators of \<open>src/src/physical\<close> present themselves in an explained plan
  (\<open>DisplayAs::fmt_as\<close>), and the messages of \<open>OptimizerRuleError\<close> (\<open>src/src/optimizer_rules/mod.rs\<close>). The
  attestation operator cuts its query hash by bytes, which panics inside a multi-byte character; for every
  operator that can be built it does not.
\<close>

section \<open>Model\<close>

text \<open>\<open>&s[..n]\<close>; out of range, or inside a character, it panics (\<open>None\<close>).\<close>

definition str_prefix :: "nat \<Rightarrow> string \<Rightarrow> string option" where
  "str_prefix n s = (if n \<le> length s \<and> (n < length s \<longrightarrow> \<not> is_cont (s ! n)) then Some (take n s) else None)"

definition contract_approved_display :: "contract_approved_exec \<Rightarrow> string" where
  "contract_approved_display x = ''ContractApprovedExec(contract_id='' @ bundle_contract_id (ca_bundle x) @ '')''"

definition row_filter_display :: "row_filter_exec \<Rightarrow> string" where
  "row_filter_display x = ''RowFilterExec(contract_id='' @ bundle_contract_id (rf_bundle x) @ '')''"

definition masking_display :: "masking_exec \<Rightarrow> string" where
  "masking_display x = ''MaskingExec(contract_id='' @ bundle_contract_id (mk_bundle x) @ '')''"

definition laplace_display :: "laplace_noise_exec \<Rightarrow> string" where
  "laplace_display x = ''LaplaceNoiseExec(contract_id='' @ bundle_contract_id (ln_bundle x) @ '', tenant_id='' @ ln_tenant x @ '')''"

definition attestation_display :: "attestation_exec \<Rightarrow> string option" where
  "attestation_display x = map_option
     (\<lambda>sha. ''AttestationExec(contract_id='' @ bundle_contract_id (at_bundle x) @ '', query_sha='' @ sha @ '')'')
     (str_prefix (min 8 (length (query_sha x))) (query_sha x))"

text \<open>The line of a plan node; what a DataFusion node prints is a parameter.\<close>

fun fmt_as :: "(df_node \<Rightarrow> string) \<Rightarrow> plan \<Rightarrow> string option" where
  "fmt_as df (DfExec n _) = Some (df n)"
| "fmt_as df (ContractApprovedExec x _) = Some (contract_approved_display x)"
| "fmt_as df (RowFilterExec x _) = Some (row_filter_display x)"
| "fmt_as df (MaskingExec x _) = Some (masking_display x)"
| "fmt_as df (LaplaceNoiseExec x _) = Some (laplace_display x)"
| "fmt_as df (AttestationExec x _) = attestation_display x"

text \<open>\<open>df_text\<close> is the message of a DataFusion error.\<close>

datatype optimizer_rule_error =
    RuleContractCheckDenied string
  | RulePrivacyBudgetExhausted string string
  | RuleMissingMarker string
  | RuleContractFilterUnsupported string
  | RuleDataFusion df_error
  | RuleInternal string

fun rule_error_message :: "(df_error \<Rightarrow> string) \<Rightarrow> optimizer_rule_error \<Rightarrow> string" where
  "rule_error_message df_text (RuleContractCheckDenied why) = ''contract check denied: '' @ why"
| "rule_error_message df_text (RulePrivacyBudgetExhausted tid col) =
     ''privacy budget exhausted for tenant '' @ quoted tid @ '', column '' @ quoted col"
| "rule_error_message df_text (RuleMissingMarker tab) =
     ''missing ContractCheckMarker on scan of '' @ quoted tab @ '': ContractCheckRule must run first''"
| "rule_error_message df_text (RuleContractFilterUnsupported why) = ''contract filter unsupported: '' @ why"
| "rule_error_message df_text (RuleDataFusion e) = ''datafusion error: '' @ df_text e"
| "rule_error_message df_text (RuleInternal why) = ''internal optimizer error: '' @ why"

section \<open>Presenting a plan that was built\<close>

lemma hex_digit_no_cont: "n < 16 \<Longrightarrow> \<not> is_cont (hex_digit n)"
  by (simp add: hex_digit_def is_cont_def)

lemma hex_bytes_no_cont: "c \<in> set (hex_bytes bs) \<Longrightarrow> \<not> is_cont c"
proof -
  have "code x div 16 < 16" for x :: char using nat_of_char_less_256 [of x] by (simp add: div_less_iff_less_mult del: nat_of_char_less_256)
  then show "c \<in> set (hex_bytes bs) \<Longrightarrow> \<not> is_cont c" by (auto simp: hex_bytes_def hex_digit_no_cont)
qed

fun node_ascii :: "plan \<Rightarrow> bool" where
  "node_ascii (AttestationExec x _) \<longleftrightarrow> (\<forall>c\<in>set (query_sha x). \<not> is_cont c)"
| "node_ascii _ \<longleftrightarrow> True"

definition sha_ascii :: "plan \<Rightarrow> bool" where
  "sha_ascii p \<longleftrightarrow> (\<forall>q\<in>subplans p. node_ascii q)"

lemma with_new_children_sha:
  assumes "with_new_children p cs w = Inr (q, w')" "sha_ascii p" "\<forall>c\<in>set cs. sha_ascii c"
  shows "sha_ascii q"
proof (cases cs)
  case Nil
  then show ?thesis using assms(1) by (cases p) (auto simp: sha_ascii_def)
next
  case (Cons c cs')
  then show ?thesis using assms by (cases p) (auto simp: sha_ascii_def alloc_node_def split: if_splits)
qed

lemma built_sha_ascii:
  assumes "crypto_spec K" "built fs K p"
  shows "sha_ascii p"
  using assms(2)
proof (induction rule: built.induct)
  case (df n cs)
  then show ?case by (auto simp: sha_ascii_def)
next
  case (approve p b w q w')
  then show ?case by (auto simp: sha_ascii_def new_contract_approved_def alloc_node_def split: if_splits)
next
  case (row_filter p b w q w')
  then show ?case by (auto simp: sha_ascii_def new_row_filter_def alloc_node_def and_then_eq_Inr split: if_splits)
next
  case (masking p b w q w')
  then show ?case by (auto simp: sha_ascii_def new_masking_def alloc_node_def and_then_eq_Inr split: if_splits)
next
  case (laplace p b tid budget w q w')
  obtain x where "q = LaplaceNoiseExec x p" using laplace.hyps(2) by (rule build_laplace_inv)
  then show ?case using laplace.IH by (simp add: sha_ascii_def)
next
  case (attest p b sql q)
  obtain x where x: "q = AttestationExec x p" "query_sha x = sha256_hex K sql" using attest.hyps(2) by (rule new_attestation_inv)
  have "sha256_hex K sql = hex_bytes (sha256 K sql)" using assms(1) by (simp add: sha256_hex_def crypto_spec_def)
  then show ?case using x attest.IH hex_bytes_no_cont by (auto simp: sha_ascii_def)
next
  case (rewrite p cs w q w')
  then show ?case using with_new_children_sha by blast
qed

text \<open>
  Explaining a plan does not panic: every node of a plan that can be built has a line.
\<close>

theorem built_plan_displays:
  assumes "crypto_spec K" "built fs K p" "q \<in> subplans p"
  shows "fmt_as df q \<noteq> None"
proof (cases q)
  case (AttestationExec x r)
  then have "\<forall>c\<in>set (query_sha x). \<not> is_cont c" using built_sha_ascii [OF assms(1,2)] assms(3) by (fastforce simp: sha_ascii_def)
  then show ?thesis using AttestationExec by (simp add: attestation_display_def str_prefix_def)
qed simp_all

end
