(* ===== verification/Ddl_Guard.thy ===== *)
theory Ddl_Guard
  imports Griot_Errors
begin

text \<open>
  The syntactic DDL gate of \<open>src/src/lib.rs\<close>: \<open>DdlGuard::strip_comments\<close> and
  \<open>DdlGuard::reject_unsafe_ddl\<close>. The scanner reads the UTF-8 bytes of the statement and pushes
  \<open>bytes[i] as char\<close>, so the cleaned text is a list of code points below 256; one HOL \<open>char\<close>
  stands for a byte of the input and for a code point of the output. Each \<open>while\<close> loop over the
  index \<open>i\<close> is a recursion over the rest of the input.
\<close>

section \<open>Model\<close>

definition DISALLOWED_VERBS :: "string list" where
  "DISALLOWED_VERBS = [''INSTALL'', ''LOAD'', ''ATTACH'', ''COPY'', ''EXTENSION'']"

abbreviation QUOTE :: char where "QUOTE \<equiv> CHR 0x27"
abbreviation NEWLINE :: char where "NEWLINE \<equiv> CHR 0x0A"

definition starts2 :: "char \<Rightarrow> char \<Rightarrow> string \<Rightarrow> bool" where
  "starts2 a b s = (case s of x # y # _ \<Rightarrow> x = a \<and> y = b | _ \<Rightarrow> False)"

text \<open>The inner loop of a block comment: the rest after \<open>depth\<close> comments have been closed.\<close>

function skip_block :: "nat \<Rightarrow> string \<Rightarrow> string" where
  "skip_block depth s =
     (if s = [] \<or> depth = 0 then s
      else if starts2 (CHR ''/'') (CHR ''*'') s then skip_block (depth + 1) (drop 2 s)
      else if starts2 (CHR ''*'') (CHR ''/'') s then skip_block (depth - 1) (drop 2 s)
      else skip_block depth (drop 1 s))"
  by pat_completeness auto
termination
  by (relation "measure (\<lambda>(d, s). length s)") (auto simp: starts2_def split: list.splits)

definition skip_line :: "string \<Rightarrow> string" where
  "skip_line s = dropWhile (\<lambda>c. c \<noteq> NEWLINE) s"

text \<open>
  The inner loop of a string literal, entered after its opening quote: the text pushed and the
  rest. A doubled quote is pushed and then, as in the source, the loop is left.
\<close>

fun copy_literal :: "string \<Rightarrow> string \<times> string" where
  "copy_literal [] = ([], [])"
| "copy_literal (c # s) =
     (if c = QUOTE then
        (case s of q # s' \<Rightarrow> if q = QUOTE then ([QUOTE, QUOTE], s') else ([QUOTE], s)
         | [] \<Rightarrow> ([QUOTE], s))
      else (let (out, rest) = copy_literal s in (c # out, rest)))"

declare skip_block.simps [simp del]

lemma skip_block_length: "length (skip_block d s) \<le> length s"
proof (induction d s rule: skip_block.induct)
  case (1 d s)
  show ?case
  proof (cases "s = [] \<or> d = 0")
    case True
    then show ?thesis by (simp add: skip_block.simps [of d s])
  next
    case False
    then consider "starts2 (CHR ''/'') (CHR ''*'') s"
      | "\<not> starts2 (CHR ''/'') (CHR ''*'') s" "starts2 (CHR ''*'') (CHR ''/'') s"
      | "\<not> starts2 (CHR ''/'') (CHR ''*'') s" "\<not> starts2 (CHR ''*'') (CHR ''/'') s" by blast
    then show ?thesis
    proof cases
      case 1
      with "1.IH"(1) False show ?thesis by (simp add: skip_block.simps [of d s])
    next
      case 2
      with "1.IH"(2) False show ?thesis by (simp add: skip_block.simps [of d s])
    next
      case 3
      with "1.IH"(3) False show ?thesis by (simp add: skip_block.simps [of d s])
    qed
  qed
qed

lemma copy_literal_length: "length (snd (copy_literal s)) \<le> length s"
proof (induction s)
  case (Cons c s)
  then show ?case by (cases s) (auto simp: case_prod_beta)
qed simp

function strip_comments :: "string \<Rightarrow> string" where
  "strip_comments s =
     (case s of
        [] \<Rightarrow> []
      | c # s' \<Rightarrow>
          if starts2 (CHR ''/'') (CHR ''*'') s then CHR '' '' # strip_comments (skip_block 1 (drop 2 s))
          else if starts2 (CHR ''-'') (CHR ''-'') s then CHR '' '' # strip_comments (skip_line (drop 2 s))
          else if c = QUOTE then
            QUOTE # fst (copy_literal s') @ strip_comments (snd (copy_literal s'))
          else c # strip_comments s')"
  by pat_completeness auto
termination
proof (relation "measure length", goal_cases)
  case 1
  then show ?case by simp
next
  case (2 s c s')
  then show ?case using skip_block_length [of 1 "drop 2 s"] by (auto simp: starts2_def split: list.splits)
next
  case (3 s c s')
  then show ?case using length_dropWhile_le [of "\<lambda>c. c \<noteq> NEWLINE" "drop 2 s"]
    by (auto simp: starts2_def skip_line_def split: list.splits)
next
  case (4 s c s')
  then show ?case using copy_literal_length [of s'] by simp
next
  case (5 s c s')
  then show ?case by simp
qed

declare strip_comments.simps [simp del]

text \<open>\<open>char::is_whitespace\<close> on code points below 256.\<close>

definition latin_ws :: "char \<Rightarrow> bool" where
  "latin_ws c \<longleftrightarrow> code c \<in> {9, 10, 11, 12, 13, 32, 133, 160}"

text \<open>\<open>statement.split_whitespace().next().unwrap_or("").to_ascii_uppercase()\<close>.\<close>

definition first_token :: "string \<Rightarrow> string" where
  "first_token s = to_ascii_uppercase (takeWhile (\<lambda>c. \<not> latin_ws c) (dropWhile latin_ws s))"

fun check_statements :: "string list \<Rightarrow> engine_error + unit" where
  "check_statements [] = Inr ()"
| "check_statements (st # sts) =
     (let tok = first_token st in
      if tok = [] then check_statements sts
      else (case find (\<lambda>v. tok = v) DISALLOWED_VERBS of
              Some v \<Rightarrow> Inl (UnsafeDdlRejected v)
            | None \<Rightarrow> check_statements sts))"

definition reject_unsafe_ddl :: "string \<Rightarrow> engine_error + unit" where
  "reject_unsafe_ddl sql = check_statements (split_on (CHR '';'') (strip_comments sql))"

section \<open>The statement check\<close>

lemma check_statements_ok:
  "check_statements sts = Inr () \<longleftrightarrow> (\<forall>st\<in>set sts. first_token st \<notin> set DISALLOWED_VERBS)"
  by (induction sts) (auto simp: Let_def find_None_iff DISALLOWED_VERBS_def split: option.splits if_splits)

lemma check_statements_reports:
  "check_statements sts = Inl e \<Longrightarrow> \<exists>v\<in>set DISALLOWED_VERBS. e = UnsafeDdlRejected v"
  by (induction sts) (auto simp: Let_def find_Some_iff split: option.splits if_splits)

text \<open>
  What the guard is for, said without the splitting machinery: somewhere after the start or a
  semicolon, up to white space, stands a disallowed verb as a whole token.
\<close>

definition has_unsafe_verb :: "string \<Rightarrow> bool" where
  "has_unsafe_verb t \<longleftrightarrow> (\<exists>pre ws tok post. t = pre @ ws @ tok @ post
     \<and> (pre = [] \<or> last pre = CHR '';'') \<and> (\<forall>c\<in>set ws. latin_ws c)
     \<and> (\<forall>c\<in>set tok. \<not> latin_ws c \<and> c \<noteq> CHR '';'')
     \<and> (post = [] \<or> hd post = CHR '';'' \<or> latin_ws (hd post))
     \<and> to_ascii_uppercase tok \<in> set DISALLOWED_VERBS)"

lemma latin_ws_semicolon [simp]: "\<not> latin_ws (CHR '';'')"
  by (simp add: latin_ws_def)

lemma empty_not_disallowed [simp]: "[] \<notin> set DISALLOWED_VERBS"
  by (simp add: DISALLOWED_VERBS_def)

lemma first_token_decompose:
  assumes "\<forall>c\<in>set ws. latin_ws c" "\<forall>c\<in>set tok. \<not> latin_ws c" "tok \<noteq> []"
    and "post = [] \<or> latin_ws (hd post)"
  shows "first_token (ws @ tok @ post) = to_ascii_uppercase tok"
proof -
  have "dropWhile latin_ws (ws @ tok @ post) = tok @ post"
    using assms by (simp add: dropWhile_append2) (cases tok, auto)
  moreover have "takeWhile (\<lambda>c. \<not> latin_ws c) (tok @ post) = tok"
    using assms by (simp add: takeWhile_append2) (cases post, auto)
  ultimately show ?thesis by (simp add: first_token_def)
qed

lemma segment_unsafe:
  assumes "segment_of (CHR '';'') t st" "first_token st \<in> set DISALLOWED_VERBS"
  shows "has_unsafe_verb t"
proof -
  from assms(1) obtain pre post where t: "t = pre @ st @ post" "pre = [] \<or> last pre = CHR '';''"
    "post = [] \<or> hd post = CHR '';''" "CHR '';'' \<notin> set st" by (auto simp: segment_of_def)
  let ?ws = "takeWhile latin_ws st" and ?r = "dropWhile latin_ws st"
  let ?tok = "takeWhile (\<lambda>c. \<not> latin_ws c) ?r" and ?r' = "dropWhile (\<lambda>c. \<not> latin_ws c) ?r"
  have st: "st = ?ws @ ?tok @ ?r'" by simp
  have tok: "CHR '';'' \<notin> set ?tok" using t(4) by (metis set_dropWhileD set_takeWhileD)
  have r': "?r' = [] \<or> latin_ws (hd ?r')" using hd_dropWhile [of "\<lambda>c. \<not> latin_ws c" ?r] by blast
  show ?thesis
    unfolding has_unsafe_verb_def
  proof (intro exI conjI)
    show "t = pre @ ?ws @ ?tok @ (?r' @ post)" using t(1) st by simp
    show "to_ascii_uppercase ?tok \<in> set DISALLOWED_VERBS" using assms(2) by (simp add: first_token_def)
    show "?r' @ post = [] \<or> hd (?r' @ post) = CHR '';'' \<or> latin_ws (hd (?r' @ post))"
      using r' t(3) by (metis append_self_conv2 hd_append)
    show "\<forall>c\<in>set ?ws. latin_ws c" by (auto dest: set_takeWhileD)
    show "\<forall>c\<in>set ?tok. \<not> latin_ws c \<and> c \<noteq> CHR '';''" using tok by (auto dest: set_takeWhileD)
  qed (rule t(2))
qed

lemma unsafe_segment:
  assumes "has_unsafe_verb t"
  shows "\<exists>st. segment_of (CHR '';'') t st \<and> first_token st \<in> set DISALLOWED_VERBS"
proof -
  from assms obtain pre ws tok post where t: "t = pre @ ws @ tok @ post"
    and pre: "pre = [] \<or> last pre = CHR '';''" and ws: "\<forall>c\<in>set ws. latin_ws c"
    and tok: "\<forall>c\<in>set tok. \<not> latin_ws c \<and> c \<noteq> CHR '';''"
    and post: "post = [] \<or> hd post = CHR '';'' \<or> latin_ws (hd post)"
    and v: "to_ascii_uppercase tok \<in> set DISALLOWED_VERBS" by (auto simp: has_unsafe_verb_def)
  let ?x = "takeWhile (\<lambda>c. c \<noteq> CHR '';'') post" and ?y = "dropWhile (\<lambda>c. c \<noteq> CHR '';'') post"
  have "tok \<noteq> []" using v by (auto simp: to_ascii_uppercase_def)
  moreover have "?x = [] \<or> latin_ws (hd ?x)" using post by (cases post) auto
  ultimately have "first_token (ws @ tok @ ?x) = to_ascii_uppercase tok"
    using ws tok by (intro first_token_decompose) auto
  moreover have "segment_of (CHR '';'') t (ws @ tok @ ?x)"
    unfolding segment_of_def
  proof (intro conjI exI)
    show "t = pre @ (ws @ tok @ ?x) @ ?y" by (simp add: t)
    show "?y = [] \<or> hd ?y = CHR '';''" using hd_dropWhile [of "\<lambda>c. c \<noteq> CHR '';''" post] by auto
    have "CHR '';'' \<notin> set ?x" by (rule notI) (drule set_takeWhileD, simp)
    moreover have "CHR '';'' \<notin> set ws" using ws latin_ws_semicolon by metis
    ultimately show "CHR '';'' \<notin> set (ws @ tok @ ?x)" using tok by auto
  qed (rule pre)
  ultimately show ?thesis using v by metis
qed

text \<open>
  C27: the guard rejects a statement text exactly when, after comments are stripped, some
  semicolon-separated statement begins (up to white space) with one of the disallowed verbs, in
  any letter case; the only error it reports is the rejection of such a verb.
\<close>

theorem reject_unsafe_ddl_exact:
  "(reject_unsafe_ddl sql = Inr () \<longleftrightarrow> \<not> has_unsafe_verb (strip_comments sql))
   \<and> (case reject_unsafe_ddl sql of Inl e \<Rightarrow> \<exists>v\<in>set DISALLOWED_VERBS. e = UnsafeDdlRejected v | Inr _ \<Rightarrow> True)"
proof
  show "reject_unsafe_ddl sql = Inr () \<longleftrightarrow> \<not> has_unsafe_verb (strip_comments sql)"
    unfolding reject_unsafe_ddl_def check_statements_ok
    by (metis segment_unsafe unsafe_segment split_on_pieces)
  show "case reject_unsafe_ddl sql of Inl e \<Rightarrow> \<exists>v\<in>set DISALLOWED_VERBS. e = UnsafeDdlRejected v | Inr _ \<Rightarrow> True"
    unfolding reject_unsafe_ddl_def using check_statements_reports by (auto split: sum.splits)
qed

section \<open>Comment stripping\<close>

lemma strip_comments_Nil [simp]: "strip_comments [] = []"
  by (simp add: strip_comments.simps)

lemma strip_comments_block: "strip_comments (CHR ''/'' # CHR ''*'' # s) = CHR '' '' # strip_comments (skip_block 1 s)"
  by (subst strip_comments.simps) (simp add: starts2_def)

lemma strip_comments_line: "strip_comments (CHR ''-'' # CHR ''-'' # s) = CHR '' '' # strip_comments (skip_line s)"
  by (subst strip_comments.simps) (simp add: starts2_def)

lemma strip_comments_quote:
  "strip_comments (QUOTE # s) = QUOTE # fst (copy_literal s) @ strip_comments (snd (copy_literal s))"
  by (subst strip_comments.simps) (simp add: starts2_def split: list.splits)

lemma strip_comments_other:
  "c \<noteq> QUOTE \<Longrightarrow> \<not> starts2 (CHR ''/'') (CHR ''*'') (c # s) \<Longrightarrow> \<not> starts2 (CHR ''-'') (CHR ''-'') (c # s)
     \<Longrightarrow> strip_comments (c # s) = c # strip_comments s"
  by (subst strip_comments.simps) simp

lemma starts2_iff: "starts2 a b s \<longleftrightarrow> (\<exists>r. s = a # b # r)"
  by (auto simp: starts2_def split: list.splits)

lemma strip_comments_Cons:
  "\<exists>r. strip_comments (c # s) = c # r \<or> strip_comments (c # s) = CHR '' '' # r"
  by (auto simp: strip_comments.simps [of "c # s"])

lemma strip_comments_head:
  obtains "s = []" "strip_comments s = []"
    | c s' r where "s = c # s'" "strip_comments s = c # r"
    | c s' r where "s = c # s'" "strip_comments s = CHR '' '' # r"
proof (cases s)
  case (Cons c s')
  with that strip_comments_Cons [of c s'] show ?thesis by blast
qed (use that in simp)

lemma copy_literal_again:
  assumes "copy_literal s = (lit, rest)"
    and "\<And>x r. out = x # r \<Longrightarrow> rest = [] \<or> hd rest = x \<or> x \<noteq> QUOTE"
    and "rest = [] \<longleftrightarrow> out = []"
  shows "copy_literal (lit @ out) = (lit, out)"
  using assms
proof (induction s arbitrary: lit)
  case Nil
  then show ?case by simp
next
  case (Cons c s)
  show ?case
  proof (cases "c = QUOTE")
    case True
    then consider "s = []" | r where "s = QUOTE # r" | q r where "s = q # r" "q \<noteq> QUOTE" by (cases s) auto
    then show ?thesis
    proof cases
      case 3
      then have e: "lit = [QUOTE]" "rest = q # r" using Cons.prems(1) True by auto
      then have "out = [] \<or> hd out \<noteq> QUOTE" using Cons.prems(2) 3 by (cases out) auto
      then show ?thesis using e by (cases out) auto
    qed (use Cons.prems True in auto)
  next
    case False
    then obtain lit' where "copy_literal s = (lit', rest)" "lit = c # lit'"
      using Cons.prems(1) by (cases "copy_literal s") auto
    then show ?thesis using Cons.IH [of lit'] Cons.prems(2,3) False by simp
  qed
qed

text \<open>
  Stripping is idempotent, so no comment survives it: a second pass over the cleaned text
  finds nothing more to remove.
\<close>

theorem strip_comments_idempotent: "strip_comments (strip_comments sql) = strip_comments sql"
proof (induction "length sql" arbitrary: sql rule: less_induct)
  case less
  have space: "strip_comments (CHR '' '' # x) = CHR '' '' # strip_comments x" for x
    by (rule strip_comments_other) (simp_all add: starts2_iff)
  consider "sql = []" | s where "sql = CHR ''/'' # CHR ''*'' # s" | s where "sql = CHR ''-'' # CHR ''-'' # s"
    | s where "sql = QUOTE # s"
    | c s where "sql = c # s" "c \<noteq> QUOTE" "\<not> starts2 (CHR ''/'') (CHR ''*'') sql" "\<not> starts2 (CHR ''-'') (CHR ''-'') sql"
    by (cases sql) (auto simp: starts2_iff)
  then show ?case
  proof cases
    case 2
    have "length (skip_block 1 s) < length sql" using skip_block_length [of 1 s] 2 by simp
    then show ?thesis using less 2 by (simp add: strip_comments_block space)
  next
    case 3
    have "length (skip_line s) < length sql"
      using length_dropWhile_le [of "\<lambda>c. c \<noteq> NEWLINE" s] 3 by (simp add: skip_line_def)
    then show ?thesis using less 3 by (simp add: strip_comments_line space)
  next
    case 4
    obtain lit rest where lr: "copy_literal s = (lit, rest)" by (cases "copy_literal s")
    have IH: "strip_comments (strip_comments rest) = strip_comments rest"
      using less copy_literal_length [of s] 4 lr by simp
    have "copy_literal (lit @ strip_comments rest) = (lit, strip_comments rest)"
      by (rule copy_literal_again [OF lr]; cases rule: strip_comments_head [of rest]) auto
    then show ?thesis using IH 4 lr by (simp add: strip_comments_quote)
  next
    case (5 c s)
    have IH: "strip_comments (strip_comments s) = strip_comments s" using less 5 by simp
    have e: "strip_comments sql = c # strip_comments s" using 5 by (simp add: strip_comments_other)
    have "\<not> starts2 (CHR ''/'') (CHR ''*'') (c # strip_comments s)" "\<not> starts2 (CHR ''-'') (CHR ''-'') (c # strip_comments s)"
      using 5 by (cases rule: strip_comments_head [of s]; auto simp: starts2_iff)+
    then show ?thesis using IH e 5 by (simp add: strip_comments_other)
  qed simp
qed

lemma first_token_space [simp]: "first_token (CHR '' '' # s) = first_token s"
  by (simp add: first_token_def latin_ws_def)

lemma check_leading_space:
  "check_statements (split_on (CHR '';'') (CHR '' '' # t)) = check_statements (split_on (CHR '';'') t)"
  by (cases "split_on (CHR '';'') t") (simp_all add: Let_def)

text \<open>
  A block comment (nested to any depth) or a line comment in front of a statement never
  changes the verdict: the guard decides as it would on the text after the comment.
\<close>

theorem reject_ignores_leading_comment:
  "reject_unsafe_ddl (''/*'' @ s) = reject_unsafe_ddl (skip_block 1 s)
   \<and> reject_unsafe_ddl (''--'' @ s) = reject_unsafe_ddl (skip_line s)"
  by (simp add: reject_unsafe_ddl_def strip_comments_block strip_comments_line check_leading_space
      del: split_on.simps)


end
