(* ===== verification/Engine_Shell.thy ===== *)
theory Engine_Shell
  imports Policy Ddl_Guard Arrow_Model
begin

text \<open>
  \<open>K04DEngine\<close> and \<open>InitConfig\<close> of \<open>src/src/lib.rs\<close>: the sealed engine shell, which runs no statement
  before a contract bundle is injected and none the DDL guard rejects. The DataFusion session is a
  parameter: a record of the calls the shell makes on it.
\<close>

section \<open>Model\<close>

record init_config =
  ic_tenant_id :: string
  contract_bundle_endpoint :: string
  attestation_endpoint :: string
  max_result_rows :: nat
  storaged_socket :: string

definition validate :: "init_config \<Rightarrow> engine_error + unit" where
  "validate c =
     (if ic_tenant_id c = [] then Inl (InvalidConfig ''tenant_id must not be empty'')
      else if contract_bundle_endpoint c = [] then Inl (InvalidConfig ''contract_bundle_endpoint must not be empty'')
      else if attestation_endpoint c = [] then Inl (InvalidConfig ''attestation_endpoint must not be empty'')
      else if max_result_rows c = 0 then Inl (InvalidConfig ''max_result_rows must be > 0'')
      else if storaged_socket c = [] then Inl (InvalidConfig ''storaged_socket must not be empty'')
      else Inr ())"

text \<open>
  The session: a fresh context, planning and collecting a statement, in-memory tables, and the
  registration of tables, Parquet files and Lance datasets.
\<close>

record 'x session_ops =
  session_new :: 'x
  session_sql :: "string \<Rightarrow> 'x \<Rightarrow> (df_error + record_batch list) \<times> 'x"
  mem_table_try_new :: "schema \<Rightarrow> record_batch list list \<Rightarrow> df_error + nat"
  register_table :: "string \<Rightarrow> nat \<Rightarrow> 'x \<Rightarrow> (df_error + unit) \<times> 'x"
  register_parquet :: "string \<Rightarrow> string \<Rightarrow> 'x \<Rightarrow> (df_error + unit) \<times> 'x"
  lance_open :: "string \<Rightarrow> string \<Rightarrow> string \<Rightarrow> string \<Rightarrow> string + nat"

record 'x k04d_engine =
  ke_config :: init_config
  ke_bundle :: "contract_bundle_handle option"
  ke_ctx :: "'x option"

definition new_with_config :: "init_config \<Rightarrow> engine_error + 'x k04d_engine" where
  "new_with_config config = and_then (validate config) (\<lambda>_. Inr \<lparr>ke_config = config, ke_bundle = None, ke_ctx = None\<rparr>)"

definition engine_tenant_id :: "'x k04d_engine \<Rightarrow> string" where
  "engine_tenant_id e = ic_tenant_id (ke_config e)"

definition has_contract_bundle :: "'x k04d_engine \<Rightarrow> bool" where
  "has_contract_bundle e \<longleftrightarrow> ke_bundle e \<noteq> None"

definition inject_contract_bundle :: "contract_bundle_handle \<Rightarrow> 'x k04d_engine \<Rightarrow> 'x k04d_engine" where
  "inject_contract_bundle b e = e\<lparr>ke_bundle := Some b\<rparr>"

definition ensure_ctx :: "'x session_ops \<Rightarrow> 'x k04d_engine \<Rightarrow> 'x \<times> 'x k04d_engine" where
  "ensure_ctx S e = (case ke_ctx e of
     Some x \<Rightarrow> (x, e)
   | None \<Rightarrow> (session_new S, e\<lparr>ke_ctx := Some (session_new S)\<rparr>))"

definition shell_query :: "'x session_ops \<Rightarrow> string \<Rightarrow> 'x k04d_engine \<Rightarrow> (engine_error + record_batch list) \<times> 'x k04d_engine" where
  "shell_query S sql e =
     (if ke_bundle e = None then (Inl NoContractBundle, e)
      else case reject_unsafe_ddl sql of
        Inl err \<Rightarrow> (Inl err, e)
      | Inr _ \<Rightarrow> (case ensure_ctx S e of (x, e1) \<Rightarrow>
          (case session_sql S sql x of (r, x') \<Rightarrow> (map_err EngineDataFusion r, e1\<lparr>ke_ctx := Some x'\<rparr>))))"

definition register_memory_table :: "'x session_ops \<Rightarrow> string \<Rightarrow> schema \<Rightarrow> record_batch list list \<Rightarrow> 'x k04d_engine
    \<Rightarrow> (engine_error + unit) \<times> 'x k04d_engine" where
  "register_memory_table S name sch parts e = (case ensure_ctx S e of (x, e1) \<Rightarrow>
     (case mem_table_try_new S sch parts of
        Inl err \<Rightarrow> (Inl (EngineDataFusion err), e1)
      | Inr provider \<Rightarrow> (case register_table S name provider x of (r, x') \<Rightarrow>
          (map_err EngineDataFusion r, e1\<lparr>ke_ctx := Some x'\<rparr>))))"

definition register_parquet_table :: "'x session_ops \<Rightarrow> string \<Rightarrow> string \<Rightarrow> 'x k04d_engine \<Rightarrow> (engine_error + unit) \<times> 'x k04d_engine" where
  "register_parquet_table S name path e = (case ensure_ctx S e of (x, e1) \<Rightarrow>
     (case register_parquet S name path x of (r, x') \<Rightarrow> (map_err EngineDataFusion r, e1\<lparr>ke_ctx := Some x'\<rparr>)))"

definition register_lance_table :: "'x session_ops \<Rightarrow> string \<Rightarrow> string \<Rightarrow> string \<Rightarrow> string \<Rightarrow> 'x k04d_engine \<Rightarrow> (engine_error + unit) \<times> 'x k04d_engine" where
  "register_lance_table S name asset_id tenant principal_jwt e = (case ensure_ctx S e of (x, e1) \<Rightarrow>
     (case lance_open S asset_id tenant principal_jwt (storaged_socket (ke_config e1)) of
        Inl why \<Rightarrow> (Inl (LanceRegistration asset_id why), e1)
      | Inr provider \<Rightarrow> (case register_table S name provider x of (r, x') \<Rightarrow>
          (map_err EngineDataFusion r, e1\<lparr>ke_ctx := Some x'\<rparr>))))"

section \<open>The gate\<close>

lemma validate_iff: "validate c = Inr () \<longleftrightarrow> ic_tenant_id c \<noteq> [] \<and> contract_bundle_endpoint c \<noteq> [] \<and> attestation_endpoint c \<noteq> []
    \<and> max_result_rows c \<noteq> 0 \<and> storaged_socket c \<noteq> []"
  by (simp add: validate_def)

lemma ensure_ctx_bundle: "ensure_ctx S e = (x, e1) \<Longrightarrow> ke_bundle e1 = ke_bundle e \<and> ke_ctx e1 = Some x"
  by (auto simp: ensure_ctx_def split: option.splits)

text \<open>A statement reaches the session only with a bundle in place and past the guard.\<close>

definition admitted :: "string \<Rightarrow> 'x k04d_engine \<Rightarrow> bool" where
  "admitted sql e \<longleftrightarrow> has_contract_bundle e \<and> reject_unsafe_ddl sql = Inr ()"

lemma shell_query_admitted:
  "admitted sql e \<Longrightarrow> \<exists>x. (ke_ctx e = Some x \<or> ke_ctx e = None \<and> x = session_new S)
     \<and> shell_query S sql e = (map_err EngineDataFusion (fst (session_sql S sql x)), e\<lparr>ke_ctx := Some (snd (session_sql S sql x))\<rparr>)"
  by (auto simp: admitted_def has_contract_bundle_def shell_query_def ensure_ctx_def split: option.splits prod.splits)

lemma shell_query_refused:
  "\<not> admitted sql e \<Longrightarrow> \<exists>err. shell_query S sql e = (Inl err, e) \<and> (err = NoContractBundle \<or> reject_unsafe_ddl sql = Inl err)"
  by (cases "reject_unsafe_ddl sql") (auto simp: admitted_def has_contract_bundle_def shell_query_def)

lemma shell_query_bundle: "ke_bundle (snd (shell_query S sql e)) = ke_bundle e"
  by (cases "admitted sql e") (auto dest: shell_query_admitted [of sql e S] shell_query_refused [of sql e S])

text \<open>The life of an engine, with the statements its session was given, in order.\<close>

inductive shell_run :: "'x session_ops \<Rightarrow> 'x k04d_engine \<Rightarrow> string list \<Rightarrow> bool" for S where
  start: "new_with_config c = Inr e \<Longrightarrow> shell_run S e []"
| inject: "shell_run S e h \<Longrightarrow> shell_run S (inject_contract_bundle b e) h"
| run_query: "shell_run S e h \<Longrightarrow> shell_run S (snd (shell_query S sql e)) (if admitted sql e then h @ [sql] else h)"
| memory: "shell_run S e h \<Longrightarrow> shell_run S (snd (register_memory_table S name sch parts e)) h"
| parquet: "shell_run S e h \<Longrightarrow> shell_run S (snd (register_parquet_table S name path e)) h"
| lance: "shell_run S e h \<Longrightarrow> shell_run S (snd (register_lance_table S name asset tenant jwt e)) h"

lemma register_bundle:
  "ke_bundle (snd (register_memory_table S name sch parts e)) = ke_bundle e"
  "ke_bundle (snd (register_parquet_table S name path e)) = ke_bundle e"
  "ke_bundle (snd (register_lance_table S name asset tenant jwt e)) = ke_bundle e"
  by (auto simp: register_memory_table_def register_parquet_table_def register_lance_table_def
      dest: ensure_ctx_bundle split: prod.splits sum.splits)


text \<open>
  Of the configuration only the socket path is ever used after validation: a query has the same answer
  under any row limit and any endpoints.
\<close>

lemma query_ignores_limits: "fst (shell_query S sql (e\<lparr>ke_config := c\<rparr>)) = fst (shell_query S sql e)"
  by (simp add: shell_query_def ensure_ctx_def split: option.splits sum.splits prod.splits)

definition session_ref :: "string list session_ops" where
  "session_ref = \<lparr>session_new = [], session_sql = (\<lambda>s x. (Inr [], x @ [s])), mem_table_try_new = (\<lambda>_ _. Inr 0),
     register_table = (\<lambda>_ _ x. (Inr (), x)), register_parquet = (\<lambda>_ _ x. (Inr (), x)), lance_open = (\<lambda>_ _ _ _. Inr 0)\<rparr>"

definition config_ref :: init_config where
  "config_ref = \<lparr>ic_tenant_id = ''t'', contract_bundle_endpoint = ''unix:///run/griot/t04.sock'', attestation_endpoint = ''unix:///run/griot/t05.sock'',
     max_result_rows = 100, storaged_socket = ''/run/griot/t04.sock''\<rparr>"


end
