(* ===== verification/Query_Cache.thy ===== *)
theory Query_Cache
  imports Arrow_Model Crypto
begin

text \<open>
  \<open>src/src/query_cache.rs\<close>: the per-tenant cache of enforced results. The LRU map of the \<open>lru\<close> crate
  is a parameter (a record of its operations); \<open>lru_spec\<close> states what the crate documents, in terms of
  the list \<open>lru_iter\<close> gives, most recently used first. Instants are nanoseconds, and \<open>buffer_lens\<close> gives
  the lengths of an Arrow array's buffers. Byte counts are sizes of memory that is in use, far below
  \<open>2 ^ 64\<close>, and are kept as \<open>nat\<close>. The mutex makes every operation atomic.
\<close>

section \<open>Model\<close>

record cache_entry =
  ce_batches :: "record_batch list"
  byte_size :: nat
  inserted_at :: nat
  ce_attestation_jws :: string

record cache_key =
  ck_tenant_id :: string
  sql_sha256 :: bytes

record query_cache_config =
  max_entries :: nat
  max_bytes :: nat
  ttl_secs :: nat

record ('k, 'v, 'c) lru_ops =
  lru_new :: "nat \<Rightarrow> 'c"
  lru_get :: "'k \<Rightarrow> 'c \<Rightarrow> 'v option \<times> 'c"
  lru_put :: "'k \<Rightarrow> 'v \<Rightarrow> 'c \<Rightarrow> 'c"
  lru_pop :: "'k \<Rightarrow> 'c \<Rightarrow> 'v option \<times> 'c"
  lru_pop_lru :: "'c \<Rightarrow> ('k \<times> 'v) option \<times> 'c"
  lru_iter :: "'c \<Rightarrow> ('k \<times> 'v) list"
  lru_clear :: "'c \<Rightarrow> 'c"

record 'c query_cache =
  qc_lru :: 'c
  total_bytes :: nat

type_synonym 'c cache_ops = "(cache_key, cache_entry, 'c) lru_ops"

definition cache_key_of :: "crypto \<Rightarrow> string \<Rightarrow> string \<Rightarrow> cache_key" where
  "cache_key_of K tenant sql = \<lparr>ck_tenant_id = tenant, sql_sha256 = sha256 K sql\<rparr>"

definition default_cache_config :: query_cache_config where
  "default_cache_config = \<lparr>max_entries = 10000, max_bytes = 256 * 1024 * 1024, ttl_secs = 60\<rparr>"

definition new_cache :: "'c cache_ops \<Rightarrow> query_cache_config \<Rightarrow> 'c query_cache" where
  "new_cache ops cfg = \<lparr>qc_lru = lru_new ops (max (max_entries cfg) 1), total_bytes = 0\<rparr>"

definition nanos :: nat where
  "nanos = 10 ^ 9"

definition cache_get :: "'c cache_ops \<Rightarrow> query_cache_config \<Rightarrow> crypto \<Rightarrow> nat \<Rightarrow> string \<Rightarrow> string \<Rightarrow> 'c query_cache
    \<Rightarrow> (record_batch list \<times> string) option \<times> 'c query_cache" where
  "cache_get ops cfg K now tenant sql qc =
     (let key = cache_key_of K tenant sql in
      case lru_get ops key (qc_lru qc) of
        (None, l) \<Rightarrow> (None, qc\<lparr>qc_lru := l\<rparr>)
      | (Some entry, l) \<Rightarrow>
          if now - inserted_at entry > ttl_secs cfg * nanos
          then (None, qc\<lparr>qc_lru := snd (lru_pop ops key l), total_bytes := total_bytes qc - byte_size entry\<rparr>)
          else (Some (ce_batches entry, ce_attestation_jws entry), qc\<lparr>qc_lru := l\<rparr>))"

definition estimate_batches_bytes :: "(array \<Rightarrow> nat list) \<Rightarrow> record_batch list \<Rightarrow> nat" where
  "estimate_batches_bytes buffer_lens bs = sum_list (map (\<lambda>c. sum_list (buffer_lens c)) (concat (map batch_columns bs)))"

text \<open>The eviction loop of \<open>put\<close>: \<open>None\<close> would be a loop that never ends.\<close>

partial_function (option) evict_for :: "'c cache_ops \<Rightarrow> query_cache_config \<Rightarrow> nat \<Rightarrow> 'c query_cache \<Rightarrow> 'c query_cache option" where
  "evict_for ops cfg sz qc =
     (if total_bytes qc + sz > max_bytes cfg \<and> lru_iter ops (qc_lru qc) \<noteq> []
      then (case lru_pop_lru ops (qc_lru qc) of
              (Some (_, evicted), l) \<Rightarrow> evict_for ops cfg sz \<lparr>qc_lru = l, total_bytes = total_bytes qc - byte_size evicted\<rparr>
            | (None, l) \<Rightarrow> evict_for ops cfg sz (qc\<lparr>qc_lru := l\<rparr>))
      else Some qc)"

definition cache_put :: "'c cache_ops \<Rightarrow> query_cache_config \<Rightarrow> crypto \<Rightarrow> (array \<Rightarrow> nat list) \<Rightarrow> nat \<Rightarrow> string \<Rightarrow> string
    \<Rightarrow> record_batch list \<Rightarrow> string \<Rightarrow> 'c query_cache \<Rightarrow> 'c query_cache option" where
  "cache_put ops cfg K buffer_lens now tenant sql bs jws qc =
     (let key = cache_key_of K tenant sql; sz = estimate_batches_bytes buffer_lens bs in
      Option.bind (evict_for ops cfg sz qc) (\<lambda>qc'.
        Some \<lparr>qc_lru = lru_put ops key \<lparr>ce_batches = bs, byte_size = sz, inserted_at = now, ce_attestation_jws = jws\<rparr> (qc_lru qc'),
              total_bytes = total_bytes qc' + sz\<rparr>))"

fun pop_keys :: "'c cache_ops \<Rightarrow> cache_key list \<Rightarrow> 'c query_cache \<Rightarrow> 'c query_cache" where
  "pop_keys ops [] qc = qc"
| "pop_keys ops (k # ks) qc = (case lru_pop ops k (qc_lru qc) of
     (Some entry, l) \<Rightarrow> pop_keys ops ks \<lparr>qc_lru = l, total_bytes = total_bytes qc - byte_size entry\<rparr>
   | (None, l) \<Rightarrow> pop_keys ops ks (qc\<lparr>qc_lru := l\<rparr>))"

definition invalidate_tenant :: "'c cache_ops \<Rightarrow> string \<Rightarrow> 'c query_cache \<Rightarrow> 'c query_cache" where
  "invalidate_tenant ops tenant qc =
     pop_keys ops (map fst (filter (\<lambda>(k, _). ck_tenant_id k = tenant) (lru_iter ops (qc_lru qc)))) qc"

definition invalidate_all :: "'c cache_ops \<Rightarrow> 'c query_cache \<Rightarrow> 'c query_cache" where
  "invalidate_all ops qc = \<lparr>qc_lru = lru_clear ops (qc_lru qc), total_bytes = 0\<rparr>"

record cache_stats =
  entry_count :: nat
  stat_total_bytes :: nat

definition cache_stats_of :: "'c cache_ops \<Rightarrow> 'c query_cache \<Rightarrow> cache_stats" where
  "cache_stats_of ops qc = \<lparr>entry_count = length (lru_iter ops (qc_lru qc)), stat_total_bytes = total_bytes qc\<rparr>"

section \<open>The LRU map\<close>

definition without :: "'k \<Rightarrow> ('k \<times> 'v) list \<Rightarrow> ('k \<times> 'v) list" where
  "without k xs = filter (\<lambda>kv. fst kv \<noteq> k) xs"

text \<open>
  What the crate documents of a map of capacity \<open>n\<close>: keys are unique and at most \<open>n\<close>; \<open>get\<close> returns the
  value and moves the key to the front; \<open>put\<close> puts it at the front, dropping the last entry when the
  capacity is exceeded; \<open>pop\<close> and \<open>pop_lru\<close> remove a given and the last entry.
\<close>

definition lru_spec :: "('k, 'v, 'c) lru_ops \<Rightarrow> nat \<Rightarrow> ('c \<Rightarrow> bool) \<Rightarrow> bool" where
  "lru_spec ops n ok \<longleftrightarrow> ok (lru_new ops n) \<and> lru_iter ops (lru_new ops n) = [] \<and>
     (\<forall>c. ok c \<longrightarrow> distinct (map fst (lru_iter ops c)) \<and> length (lru_iter ops c) \<le> n
       \<and> (\<forall>k. fst (lru_get ops k c) = map_of (lru_iter ops c) k \<and> ok (snd (lru_get ops k c))
           \<and> lru_iter ops (snd (lru_get ops k c)) = (case map_of (lru_iter ops c) k of
               None \<Rightarrow> lru_iter ops c | Some v \<Rightarrow> (k, v) # without k (lru_iter ops c)))
       \<and> (\<forall>k v. ok (lru_put ops k v c) \<and> lru_iter ops (lru_put ops k v c) = take n ((k, v) # without k (lru_iter ops c)))
       \<and> (\<forall>k. fst (lru_pop ops k c) = map_of (lru_iter ops c) k \<and> ok (snd (lru_pop ops k c))
           \<and> lru_iter ops (snd (lru_pop ops k c)) = without k (lru_iter ops c))
       \<and> ok (snd (lru_pop_lru ops c))
       \<and> (if lru_iter ops c = [] then lru_pop_lru ops c = (None, c)
          else fst (lru_pop_lru ops c) = Some (last (lru_iter ops c)) \<and> lru_iter ops (snd (lru_pop_lru ops c)) = butlast (lru_iter ops c))
       \<and> ok (lru_clear ops c) \<and> lru_iter ops (lru_clear ops c) = [])"

text \<open>A reference instance: the list itself, with the capacity beside it.\<close>

definition lru_ref :: "('k, 'v, nat \<times> ('k \<times> 'v) list) lru_ops" where
  "lru_ref = \<lparr>lru_new = (\<lambda>n. (n, [])),
     lru_get = (\<lambda>k (n, xs). (map_of xs k, (n, case map_of xs k of None \<Rightarrow> xs | Some v \<Rightarrow> (k, v) # without k xs))),
     lru_put = (\<lambda>k v (n, xs). (n, take n ((k, v) # without k xs))),
     lru_pop = (\<lambda>k (n, xs). (map_of xs k, (n, without k xs))),
     lru_pop_lru = (\<lambda>(n, xs). if xs = [] then (None, (n, xs)) else (Some (last xs), (n, butlast xs))),
     lru_iter = snd, lru_clear = (\<lambda>(n, xs). (n, []))\<rparr>"

lemma distinct_without: "distinct (map fst xs) \<Longrightarrow> distinct (map fst (without k xs))"
  by (simp add: without_def distinct_map_filter)

lemma without_fresh [simp]: "k \<notin> fst ` set (without k xs)"
  by (auto simp: without_def)

lemma length_without: "length (without k xs) \<le> length xs"
  by (simp add: without_def)

lemma length_without_less: "map_of xs k = Some v \<Longrightarrow> length (without k xs) < length xs"
  by (auto simp: without_def intro!: length_filter_less dest: map_of_SomeD)

lemma without_front: "length xs \<le> n \<Longrightarrow> length (without k xs) \<le> n" "map_of xs k = Some v \<Longrightarrow> length xs \<le> n \<Longrightarrow> Suc (length (without k xs)) \<le> n"
  using length_without [of k xs] length_without_less [of xs k v] by auto

lemma distinct_take_front: "distinct (map fst xs) \<Longrightarrow> distinct (map fst (take n ((k, v) # without k xs)))"
  by (subst take_map [symmetric], rule distinct_take) (simp add: distinct_without)

lemma lru_spec_ref: "lru_spec lru_ref n (\<lambda>c. fst c = n \<and> length (snd c) \<le> n \<and> distinct (map fst (snd c)))"
  unfolding lru_spec_def
proof (intro conjI allI impI)
qed (auto simp: lru_ref_def distinct_without without_front distinct_take_front map_butlast distinct_butlast split: option.splits if_splits)

text \<open>The laws one by one, for the proofs below.\<close>

lemma lru_laws:
  assumes "lru_spec ops n ok" "ok c"
  shows "distinct (map fst (lru_iter ops c))" "length (lru_iter ops c) \<le> n"
    and "fst (lru_get ops k c) = map_of (lru_iter ops c) k" "ok (snd (lru_get ops k c))"
    and "lru_iter ops (snd (lru_get ops k c)) = (case map_of (lru_iter ops c) k of
           None \<Rightarrow> lru_iter ops c | Some v \<Rightarrow> (k, v) # without k (lru_iter ops c))"
    and "ok (lru_put ops k v c)" "lru_iter ops (lru_put ops k v c) = take n ((k, v) # without k (lru_iter ops c))"
    and "fst (lru_pop ops k c) = map_of (lru_iter ops c) k" "ok (snd (lru_pop ops k c))"
    and "lru_iter ops (snd (lru_pop ops k c)) = without k (lru_iter ops c)"
    and "ok (snd (lru_pop_lru ops c))"
    and "lru_iter ops c \<noteq> [] \<Longrightarrow> fst (lru_pop_lru ops c) = Some (last (lru_iter ops c))"
    and "lru_iter ops c \<noteq> [] \<Longrightarrow> lru_iter ops (snd (lru_pop_lru ops c)) = butlast (lru_iter ops c)"
    and "ok (lru_clear ops c)" "lru_iter ops (lru_clear ops c) = []"
  using assms unfolding lru_spec_def by (simp_all split: if_splits)

lemma lru_new_laws:
  "lru_spec ops n ok \<Longrightarrow> ok (lru_new ops n)" "lru_spec ops n ok \<Longrightarrow> lru_iter ops (lru_new ops n) = []"
  by (simp_all add: lru_spec_def)

section \<open>Contents and accounting\<close>

abbreviation items :: "'c cache_ops \<Rightarrow> 'c query_cache \<Rightarrow> (cache_key \<times> cache_entry) list" where
  "items ops qc \<equiv> lru_iter ops (qc_lru qc)"

definition stored_bytes :: "(cache_key \<times> cache_entry) list \<Rightarrow> nat" where
  "stored_bytes xs = sum_list (map (\<lambda>kv. byte_size (snd kv)) xs)"

lemma stored_bytes_simps [simp]: "stored_bytes [] = 0" "stored_bytes (kv # xs) = byte_size (snd kv) + stored_bytes xs"
  by (simp_all add: stored_bytes_def)

lemma stored_bytes_butlast: "xs \<noteq> [] \<Longrightarrow> stored_bytes (butlast xs) + byte_size (snd (last xs)) = stored_bytes xs"
  by (induction xs) (auto simp: stored_bytes_def)

lemma stored_bytes_without: "stored_bytes (without k xs) \<le> stored_bytes xs"
  by (induction xs) (auto simp: without_def)

lemma stored_bytes_take: "stored_bytes (take n xs) \<le> stored_bytes xs"
proof (induction xs arbitrary: n)
  case (Cons kv xs)
  then show ?case by (cases n) auto
qed simp

lemma stored_bytes_pop: "distinct (map fst xs) \<Longrightarrow> map_of xs k = Some e \<Longrightarrow> stored_bytes (without k xs) + byte_size e = stored_bytes xs"
proof (induction xs)
  case (Cons kv xs)
  show ?case
  proof (cases "fst kv = k")
    case True
    then have "k \<notin> set (map fst xs)" using Cons.prems(1) by simp
    then have "\<forall>x\<in>set xs. fst x \<noteq> k" by (metis image_eqI list.set_map)
    then have "without k (kv # xs) = xs" using True by (simp add: without_def)
    then show ?thesis using Cons.prems True by simp
  next
    case False
    then show ?thesis using Cons by (auto simp: without_def)
  qed
qed simp

text \<open>The eviction loop ends, whatever the counters say, with room for the entry or nothing left.\<close>

lemma evict_for_total:
  assumes "lru_spec ops n ok"
  shows "ok (qc_lru qc) \<Longrightarrow> stored_bytes (items ops qc) \<le> total_bytes qc \<Longrightarrow>
    \<exists>qc' j. evict_for ops cfg sz qc = Some qc' \<and> ok (qc_lru qc') \<and> items ops qc' = take j (items ops qc)
      \<and> stored_bytes (items ops qc') \<le> total_bytes qc'
      \<and> (total_bytes qc' + sz \<le> max_bytes cfg \<or> items ops qc' = [])"
proof (induction "length (items ops qc)" arbitrary: qc rule: less_induct)
  case less
  note l = lru_laws [OF assms less.prems(1)]
  show ?case
  proof (cases "total_bytes qc + sz > max_bytes cfg \<and> items ops qc \<noteq> []")
    case False
    then show ?thesis using less.prems
      by (subst evict_for.simps) (auto intro!: exI [of _ qc] exI [of _ "length (items ops qc)"])
  next
    case True
    define q where "q = \<lparr>qc_lru = snd (lru_pop_lru ops (qc_lru qc)), total_bytes = total_bytes qc - byte_size (snd (last (items ops qc)))\<rparr>"
    have pop: "lru_pop_lru ops (qc_lru qc) = (Some (last (items ops qc)), snd (lru_pop_lru ops (qc_lru qc)))"
      using l(12) True by (metis prod.collapse)
    have it: "items ops q = butlast (items ops qc)" using l(13) True by (simp add: q_def)
    have st: "stored_bytes (items ops q) \<le> total_bytes q"
      using it stored_bytes_butlast [of "items ops qc"] less.prems(2) True by (simp add: q_def)
    have "length (items ops q) < length (items ops qc)" "ok (qc_lru q)" using it True l(11) by (simp_all add: q_def)
    from less.hyps [OF this st] obtain qc' j where q: "evict_for ops cfg sz q = Some qc'" "ok (qc_lru qc')" "items ops qc' = take j (items ops q)"
        "stored_bytes (items ops qc') \<le> total_bytes qc'" "total_bytes qc' + sz \<le> max_bytes cfg \<or> items ops qc' = []"
      by blast
    have "take j (butlast (items ops qc)) = take (min j (length (items ops qc) - 1)) (items ops qc)"
      by (simp add: butlast_conv_take min.commute)
    with q(3) it have "items ops qc' = take (min j (length (items ops qc) - 1)) (items ops qc)" by simp
    moreover have "evict_for ops cfg sz qc = Some qc'"
      using True q(1) by (subst evict_for.simps, subst pop) (simp add: q_def case_prod_beta)
    ultimately show ?thesis using q by blast
  qed
qed

lemma pop_keys_contents:
  assumes "lru_spec ops n ok"
  shows "ok (qc_lru qc) \<Longrightarrow> stored_bytes (items ops qc) \<le> total_bytes qc \<Longrightarrow>
    ok (qc_lru (pop_keys ops ks qc)) \<and> stored_bytes (items ops (pop_keys ops ks qc)) \<le> total_bytes (pop_keys ops ks qc)
      \<and> items ops (pop_keys ops ks qc) = filter (\<lambda>kv. fst kv \<notin> set ks) (items ops qc)"
proof (induction ks arbitrary: qc)
  case (Cons k ks)
  note l = lru_laws [OF assms Cons.prems(1)]
  let ?l = "snd (lru_pop ops k (qc_lru qc))"
  define q where "q = (case map_of (items ops qc) k of None \<Rightarrow> qc\<lparr>qc_lru := ?l\<rparr>
    | Some e \<Rightarrow> \<lparr>qc_lru = ?l, total_bytes = total_bytes qc - byte_size e\<rparr>)"
  have step: "pop_keys ops (k # ks) qc = pop_keys ops ks q"
    using l(8) [of k] by (cases "lru_pop ops k (qc_lru qc)") (auto simp: q_def split: option.splits)
  have q: "qc_lru q = ?l" "items ops q = without k (items ops qc)" using l(10) by (simp_all add: q_def split: option.splits)
  have st: "stored_bytes (items ops q) \<le> total_bytes q"
  proof (cases "map_of (items ops qc) k")
    case None
    then show ?thesis using q(2) stored_bytes_without [of k "items ops qc"] Cons.prems(2) by (simp add: q_def)
  next
    case (Some e)
    then show ?thesis using q(2) stored_bytes_pop [OF l(1) Some] Cons.prems(2) by (simp add: q_def)
  qed
  have "ok (qc_lru q)" using q(1) l(9) by simp
  note ih = Cons.IH [OF this st]
  have f: "filter (\<lambda>kv. fst kv \<notin> set ks) (without k (items ops qc)) = filter (\<lambda>kv. fst kv \<notin> set (k # ks)) (items ops qc)"
    by (auto simp: without_def intro: filter_cong)
  show ?case unfolding step using ih unfolding q(2) f .
qed simp

section \<open>Operations and histories\<close>

datatype cache_event =
    PutEv nat string string "record_batch list" string
  | GetEv nat string string
  | InvalidateEv string
  | InvalidateAllEv

fun cache_step :: "'c cache_ops \<Rightarrow> query_cache_config \<Rightarrow> crypto \<Rightarrow> (array \<Rightarrow> nat list) \<Rightarrow> cache_event \<Rightarrow> 'c query_cache \<Rightarrow> 'c query_cache option" where
  "cache_step ops cfg K bl (PutEv now tenant sql bs jws) qc = cache_put ops cfg K bl now tenant sql bs jws qc"
| "cache_step ops cfg K bl (GetEv now tenant sql) qc = Some (snd (cache_get ops cfg K now tenant sql qc))"
| "cache_step ops cfg K bl (InvalidateEv tenant) qc = Some (invalidate_tenant ops tenant qc)"
| "cache_step ops cfg K bl InvalidateAllEv qc = Some (invalidate_all ops qc)"

fun cache_run :: "'c cache_ops \<Rightarrow> query_cache_config \<Rightarrow> crypto \<Rightarrow> (array \<Rightarrow> nat list) \<Rightarrow> cache_event list \<Rightarrow> 'c query_cache \<Rightarrow> 'c query_cache option" where
  "cache_run ops cfg K bl [] qc = Some qc"
| "cache_run ops cfg K bl (ev # evs) qc = Option.bind (cache_step ops cfg K bl ev qc) (cache_run ops cfg K bl evs)"

text \<open>The specification: what was last put under a key and not invalidated since.\<close>

fun latest_step :: "crypto \<Rightarrow> (array \<Rightarrow> nat list) \<Rightarrow> cache_event \<Rightarrow> (cache_key \<rightharpoonup> cache_entry) \<Rightarrow> (cache_key \<rightharpoonup> cache_entry)" where
  "latest_step K bl (PutEv now tenant sql bs jws) m = m(cache_key_of K tenant sql \<mapsto>
     \<lparr>ce_batches = bs, byte_size = estimate_batches_bytes bl bs, inserted_at = now, ce_attestation_jws = jws\<rparr>)"
| "latest_step K bl (GetEv now tenant sql) m = m"
| "latest_step K bl (InvalidateEv tenant) m = (\<lambda>k. if ck_tenant_id k = tenant then None else m k)"
| "latest_step K bl InvalidateAllEv m = Map.empty"

definition latest :: "crypto \<Rightarrow> (array \<Rightarrow> nat list) \<Rightarrow> cache_event list \<Rightarrow> (cache_key \<rightharpoonup> cache_entry)" where
  "latest K bl evs = fold (latest_step K bl) evs Map.empty"

definition cache_inv :: "'c cache_ops \<Rightarrow> ('c \<Rightarrow> bool) \<Rightarrow> (cache_key \<rightharpoonup> cache_entry) \<Rightarrow> 'c query_cache \<Rightarrow> bool" where
  "cache_inv ops ok m qc \<longleftrightarrow> ok (qc_lru qc) \<and> stored_bytes (items ops qc) \<le> total_bytes qc
     \<and> (\<forall>kv\<in>set (items ops qc). m (fst kv) = Some (snd kv))"

lemma cache_inv_subset:
  "cache_inv ops ok m qc \<Longrightarrow> ok (qc_lru qc') \<Longrightarrow> stored_bytes (items ops qc') \<le> total_bytes qc' \<Longrightarrow>
     set (items ops qc') \<subseteq> set (items ops qc) \<Longrightarrow> cache_inv ops ok m qc'"
  by (auto simp: cache_inv_def)

lemma set_without: "set (without k xs) = {kv \<in> set xs. fst kv \<noteq> k}"
  by (auto simp: without_def)

lemma cache_get_inv:
  assumes "lru_spec ops n ok" "cache_inv ops ok m qc"
  shows "cache_inv ops ok m (snd (cache_get ops cfg K now tenant sql qc))"
    and "fst (cache_get ops cfg K now tenant sql qc) = Some (bs, jws) \<Longrightarrow>
      \<exists>e. m (cache_key_of K tenant sql) = Some e \<and> ce_batches e = bs \<and> ce_attestation_jws e = jws \<and> now - inserted_at e \<le> ttl_secs cfg * nanos"
proof -
  have okc: "ok (qc_lru qc)" using assms(2) by (simp add: cache_inv_def)
  let ?k = "cache_key_of K tenant sql"
  note l = lru_laws [OF assms(1) okc]
  obtain L where g: "lru_get ops ?k (qc_lru qc) = (map_of (items ops qc) ?k, L)" using l(3) [of ?k] by (metis prod.collapse)
  have okl: "ok L" and itl: "lru_iter ops L = (case map_of (items ops qc) ?k of
      None \<Rightarrow> items ops qc | Some v \<Rightarrow> (?k, v) # without ?k (items ops qc))"
    using l(4,5) [of ?k] unfolding g by simp_all
  note l2 = lru_laws [OF assms(1) okl]
  have st: "stored_bytes (items ops qc) \<le> total_bytes qc" using assms(2) by (simp add: cache_inv_def)
  have "cache_inv ops ok m (snd (cache_get ops cfg K now tenant sql qc)) \<and> (fst (cache_get ops cfg K now tenant sql qc) = Some (bs, jws) \<longrightarrow>
      (\<exists>e. m ?k = Some e \<and> ce_batches e = bs \<and> ce_attestation_jws e = jws \<and> now - inserted_at e \<le> ttl_secs cfg * nanos))"
  proof (cases "map_of (items ops qc) ?k")
    case None
    then show ?thesis using g okl itl st
      by (auto simp: cache_get_def Let_def intro!: cache_inv_subset [OF assms(2)])
  next
    case (Some e)
    note b = stored_bytes_pop [OF l(1) Some]
    have it: "lru_iter ops L = (?k, e) # without ?k (items ops qc)" using itl Some by simp
    have it2: "lru_iter ops (snd (lru_pop ops ?k L)) = without ?k (items ops qc)"
      using l2(10) [of ?k] it by (simp add: without_def)
    have mk: "m ?k = Some e" using assms(2) map_of_SomeD [OF Some] by (auto simp: cache_inv_def)
    show ?thesis
    proof (cases "now - inserted_at e > ttl_secs cfg * nanos")
      case True
      have "cache_inv ops ok m (qc\<lparr>qc_lru := snd (lru_pop ops ?k L), total_bytes := total_bytes qc - byte_size e\<rparr>)"
        by (rule cache_inv_subset [OF assms(2)]) (use l2(9) it2 b st in \<open>auto simp: set_without\<close>)
      then show ?thesis using g Some True by (simp add: cache_get_def Let_def)
    next
      case False
      have "cache_inv ops ok m (qc\<lparr>qc_lru := L\<rparr>)"
        by (rule cache_inv_subset [OF assms(2)]) (use okl it b st map_of_SomeD [OF Some] in \<open>auto simp: set_without\<close>)
      then show ?thesis using g Some False mk by (simp add: cache_get_def Let_def)
    qed
  qed
  then show "cache_inv ops ok m (snd (cache_get ops cfg K now tenant sql qc))"
    and "fst (cache_get ops cfg K now tenant sql qc) = Some (bs, jws) \<Longrightarrow>
      \<exists>e. m ?k = Some e \<and> ce_batches e = bs \<and> ce_attestation_jws e = jws \<and> now - inserted_at e \<le> ttl_secs cfg * nanos"
    by blast+
qed

lemma cache_put_inv:
  assumes "lru_spec ops n ok" "cache_inv ops ok m qc"
  shows "\<exists>qc'. cache_put ops cfg K bl now tenant sql bs jws qc = Some qc'
    \<and> cache_inv ops ok (latest_step K bl (PutEv now tenant sql bs jws) m) qc'
    \<and> (stored_bytes (items ops qc') \<le> max_bytes cfg \<or> length (items ops qc') \<le> 1)"
proof -
  define e where "e = \<lparr>ce_batches = bs, byte_size = estimate_batches_bytes bl bs, inserted_at = now, ce_attestation_jws = jws\<rparr>"
  let ?k = "cache_key_of K tenant sql"
  obtain q j where q: "evict_for ops cfg (byte_size e) qc = Some q" "ok (qc_lru q)" "items ops q = take j (items ops qc)"
      "stored_bytes (items ops q) \<le> total_bytes q" "total_bytes q + byte_size e \<le> max_bytes cfg \<or> items ops q = []"
    using evict_for_total [OF assms(1), of qc cfg "byte_size e"] assms(2) unfolding cache_inv_def by blast
  define qc' where "qc' = \<lparr>qc_lru = lru_put ops ?k e (qc_lru q), total_bytes = total_bytes q + byte_size e\<rparr>"
  note l = lru_laws [OF assms(1) q(2)]
  have it: "items ops qc' = take n ((?k, e) # without ?k (items ops q))" by (simp add: qc'_def l(7))
  have sb: "stored_bytes (items ops qc') \<le> byte_size e + stored_bytes (items ops q)"
    using stored_bytes_take [of n "(?k, e) # without ?k (items ops q)"] stored_bytes_without [of ?k "items ops q"] unfolding it by simp
  have "set (items ops qc') \<subseteq> insert (?k, e) (set (without ?k (items ops q)))"
    unfolding it using set_take_subset [of n "(?k, e) # without ?k (items ops q)"] by simp
  then have sub: "set (items ops qc') \<subseteq> insert (?k, e) {kv \<in> set (items ops qc). fst kv \<noteq> ?k}"
    using q(3) set_take_subset [of j "items ops qc"] by (auto simp: set_without)
  have p: "cache_put ops cfg K bl now tenant sql bs jws qc = Some qc'"
    using q(1) by (simp add: cache_put_def Let_def qc'_def e_def)
  have lt: "latest_step K bl (PutEv now tenant sql bs jws) m = m(?k \<mapsto> e)" by (simp add: e_def)
  have old: "\<forall>kv\<in>set (items ops qc). m (fst kv) = Some (snd kv)" using assms(2) by (simp add: cache_inv_def)
  have "ok (qc_lru qc')" by (simp add: qc'_def l(6))
  moreover have "stored_bytes (items ops qc') \<le> total_bytes qc'" using sb q(4) by (simp add: qc'_def)
  moreover have "\<forall>kv\<in>set (items ops qc'). (m(?k \<mapsto> e)) (fst kv) = Some (snd kv)" using sub old by auto
  moreover have "stored_bytes (items ops qc') \<le> max_bytes cfg \<or> length (items ops qc') \<le> 1"
    using sb q(4,5) by (auto simp: it without_def)
  ultimately show ?thesis using p unfolding lt cache_inv_def by blast
qed

lemma invalidate_tenant_inv:
  assumes "lru_spec ops n ok" "cache_inv ops ok m qc"
  shows "cache_inv ops ok (\<lambda>k. if ck_tenant_id k = tenant then None else m k) (invalidate_tenant ops tenant qc)"
proof -
  define ks where "ks = map fst (filter (\<lambda>(k, _). ck_tenant_id k = tenant) (items ops qc))"
  have *: "ok (qc_lru (pop_keys ops ks qc))" "stored_bytes (items ops (pop_keys ops ks qc)) \<le> total_bytes (pop_keys ops ks qc)"
    "items ops (pop_keys ops ks qc) = filter (\<lambda>kv. fst kv \<notin> set ks) (items ops qc)"
    using pop_keys_contents [OF assms(1), of qc ks] assms(2) unfolding cache_inv_def by blast+
  have "ck_tenant_id (fst kv) \<noteq> tenant" if "kv \<in> set (items ops (pop_keys ops ks qc))" for kv
  proof -
    have kv: "kv \<in> set (items ops qc)" "fst kv \<notin> set ks" using that *(3) by auto
    have "set ks = fst ` {x \<in> set (items ops qc). ck_tenant_id (fst x) = tenant}"
      by (simp add: ks_def case_prod_beta)
    with kv show ?thesis by blast
  qed
  then show ?thesis using assms(2) * unfolding cache_inv_def invalidate_tenant_def ks_def [symmetric] by auto
qed

lemma cache_step_inv:
  assumes "lru_spec ops n ok" "cache_inv ops ok m qc"
  shows "\<exists>qc'. cache_step ops cfg K bl ev qc = Some qc' \<and> cache_inv ops ok (latest_step K bl ev m) qc'"
proof (cases ev)
  case (PutEv now tenant sql bs jws)
  then show ?thesis using cache_put_inv [OF assms, of cfg K bl now tenant sql bs jws] by auto
next
  case (GetEv now tenant sql)
  then show ?thesis using cache_get_inv(1) [OF assms] by simp
next
  case (InvalidateEv tenant)
  then show ?thesis using invalidate_tenant_inv [OF assms] by simp
next
  case InvalidateAllEv
  then show ?thesis using lru_laws(14,15) [OF assms(1)] assms(2) by (simp add: cache_inv_def invalidate_all_def)
qed

lemma cache_run_inv:
  assumes "lru_spec ops n ok"
  shows "cache_inv ops ok m qc \<Longrightarrow> \<exists>qc'. cache_run ops cfg K bl evs qc = Some qc' \<and> cache_inv ops ok (fold (latest_step K bl) evs m) qc'"
proof (induction evs arbitrary: m qc)
  case (Cons ev evs)
  then show ?case using cache_step_inv [OF assms Cons.prems, of cfg K bl ev] by fastforce
qed simp

lemma new_cache_inv: "lru_spec ops (max (max_entries cfg) 1) ok \<Longrightarrow> cache_inv ops ok Map.empty (new_cache ops cfg)"
  by (simp add: cache_inv_def new_cache_def lru_new_laws)

text \<open>
  C30: the cache never gets stuck. Over any LRU map that behaves as documented, every sequence of
  operations on a fresh cache returns: in particular the eviction loop of \<open>put\<close> ends even when the byte
  counter has drifted away from the sizes of the entries that are left.
\<close>

theorem cache_run_total:
  assumes "lru_spec ops (max (max_entries cfg) 1) ok"
  shows "\<exists>qc. cache_run ops cfg K bl evs (new_cache ops cfg) = Some qc"
  using cache_run_inv [OF assms new_cache_inv [OF assms]] by blast

text \<open>
  C11: what a hit returns. After any history, a lookup for a tenant and a query answers only with the
  batches and attestation of the latest \<open>put\<close> under that tenant and the digest of that query, and only
  if no invalidation of the tenant came after it and it is at most the configured time old. A result
  stored for one tenant is therefore never served to another.
\<close>

theorem cache_hit_exact:
  assumes "lru_spec ops (max (max_entries cfg) 1) ok" "cache_run ops cfg K bl evs (new_cache ops cfg) = Some qc"
    and "fst (cache_get ops cfg K now tenant sql qc) = Some (bs, jws)"
  shows "\<exists>e. latest K bl evs \<lparr>ck_tenant_id = tenant, sql_sha256 = sha256 K sql\<rparr> = Some e
    \<and> bs = ce_batches e \<and> jws = ce_attestation_jws e \<and> now - inserted_at e \<le> ttl_secs cfg * nanos"
proof -
  have "cache_inv ops ok (latest K bl evs) qc"
    using cache_run_inv [OF assms(1) new_cache_inv [OF assms(1)], of cfg K bl evs] assms(2) by (auto simp: latest_def)
  from cache_get_inv(2) [OF assms(1) this assms(3)] show ?thesis by (auto simp: cache_key_of_def)
qed

text \<open>
  C29: the bounds of the cache. After any history, \<open>put\<close> leaves at most \<open>max_entries\<close> entries (at least
  one is always allowed), and the entries together take at most \<open>max_bytes\<close> unless the new entry is the
  only one left; the byte counter is never below what is stored.
\<close>

theorem cache_put_bounded:
  assumes "lru_spec ops (max (max_entries cfg) 1) ok" "cache_run ops cfg K bl evs (new_cache ops cfg) = Some qc"
  shows "\<exists>qc'. cache_put ops cfg K bl now tenant sql bs jws qc = Some qc'
    \<and> entry_count (cache_stats_of ops qc') \<le> max (max_entries cfg) 1
    \<and> stored_bytes (items ops qc') \<le> stat_total_bytes (cache_stats_of ops qc')
    \<and> (stored_bytes (items ops qc') \<le> max_bytes cfg \<or> length (items ops qc') \<le> 1)"
proof -
  have "cache_inv ops ok (latest K bl evs) qc"
    using cache_run_inv [OF assms(1) new_cache_inv [OF assms(1)], of cfg K bl evs] assms(2) by (auto simp: latest_def)
  from cache_put_inv [OF assms(1) this, of cfg K bl now tenant sql bs jws] show ?thesis
    using lru_laws(2) [OF assms(1)] by (auto simp: cache_inv_def cache_stats_of_def)
qed

text \<open>
  The byte counter drifts. Storing a result again under the same key adds its size a second time:
  one entry of 8 bytes is counted as 16.
\<close>

theorem double_put_overcounts:
  "map_option (cache_stats_of lru_ref) (cache_run lru_ref \<lparr>max_entries = 4, max_bytes = 64, ttl_secs = 60\<rparr> crypto_ref (\<lambda>_. [8])
      [PutEv 0 ''t'' ''q'' [\<lparr>batch_schema = [], batch_columns = [Int64Array [Some 1]]\<rparr>] ''j'',
       PutEv 1 ''t'' ''q'' [\<lparr>batch_schema = [], batch_columns = [Int64Array [Some 1]]\<rparr>] ''j'']
      (new_cache lru_ref \<lparr>max_entries = 4, max_bytes = 64, ttl_secs = 60\<rparr>))
   = Some \<lparr>entry_count = 1, stat_total_bytes = 16\<rparr>"
proof -
  define k where "k = sha256 crypto_ref ''q''"
  show ?thesis
    by (simp add: cache_put_def Let_def estimate_batches_bytes_def evict_for.simps new_cache_def lru_ref_def cache_key_of_def
        k_def [symmetric] without_def cache_stats_of_def)
qed

theorem cache_run_total_witness:
  "\<exists>qc. cache_run lru_ref default_cache_config crypto_ref (\<lambda>_. [8]) [PutEv 0 ''t'' ''q'' [] ''j'', InvalidateEv ''t''] (new_cache lru_ref default_cache_config) = Some qc"
  using cache_run_total [OF lru_spec_ref] by blast

theorem cache_hit_exact_witness:
  "\<exists>e. latest crypto_ref (\<lambda>_. [8]) [PutEv 0 ''t'' ''q'' [] ''j''] \<lparr>ck_tenant_id = ''t'', sql_sha256 = sha256 crypto_ref ''q''\<rparr> = Some e
     \<and> [] = ce_batches e \<and> ''j'' = ce_attestation_jws e"
proof -
  define k where "k = sha256 crypto_ref ''q''"
  let ?e = "\<lparr>ce_batches = [], byte_size = 0, inserted_at = 0, ce_attestation_jws = ''j''\<rparr>"
  let ?qc = "\<lparr>qc_lru = (10000, [(\<lparr>ck_tenant_id = ''t'', sql_sha256 = k\<rparr>, ?e)]), total_bytes = 0\<rparr>"
  have "cache_run lru_ref default_cache_config crypto_ref (\<lambda>_. [8]) [PutEv 0 ''t'' ''q'' [] ''j''] (new_cache lru_ref default_cache_config) = Some ?qc"
    by (simp add: cache_put_def Let_def estimate_batches_bytes_def evict_for.simps new_cache_def lru_ref_def cache_key_of_def
        k_def [symmetric] without_def default_cache_config_def)
  moreover have "fst (cache_get lru_ref default_cache_config crypto_ref 5 ''t'' ''q'' ?qc) = Some ([], ''j'')"
    by (simp add: cache_get_def Let_def lru_ref_def cache_key_of_def k_def [symmetric] default_cache_config_def nanos_def)
  ultimately show ?thesis using cache_hit_exact [OF lru_spec_ref] by blast
qed

theorem cache_put_bounded_witness:
  "\<exists>qc'. cache_put lru_ref default_cache_config crypto_ref (\<lambda>_. [8]) 0 ''t'' ''q'' [] ''j'' (new_cache lru_ref default_cache_config) = Some qc'
     \<and> entry_count (cache_stats_of lru_ref qc') \<le> 10000"
  using cache_put_bounded [OF lru_spec_ref, of default_cache_config crypto_ref "\<lambda>_. [8]" "[]" "new_cache lru_ref default_cache_config" 0 "''t''" "''q''" "[]" "''j''"]
  by (auto simp: default_cache_config_def)

section \<open>The cache as its clients see it\<close>

text \<open>
  What a client of the cache relies on: \<open>holds q t d bs\<close> says that \<open>bs\<close> may be answered to tenant \<open>t\<close> for a
  query with digest \<open>d\<close>; only \<open>put\<close> adds to it, and only for its own tenant and query.
\<close>

locale result_cache =
  fixes get :: "nat \<Rightarrow> string \<Rightarrow> string \<Rightarrow> 'q \<Rightarrow> (record_batch list \<times> string) option \<times> 'q"
    and put :: "nat \<Rightarrow> string \<Rightarrow> string \<Rightarrow> record_batch list \<Rightarrow> string \<Rightarrow> 'q \<Rightarrow> 'q option"
    and drop_tenant :: "string \<Rightarrow> 'q \<Rightarrow> 'q"
    and digest :: "string \<Rightarrow> bytes"
    and wf :: "'q \<Rightarrow> bool"
    and holds :: "'q \<Rightarrow> string \<Rightarrow> bytes \<Rightarrow> record_batch list \<Rightarrow> bool"
  assumes get_wf: "wf q \<Longrightarrow> wf (snd (get now t s q))"
    and get_hit: "wf q \<Longrightarrow> fst (get now t s q) = Some (bs, j) \<Longrightarrow> holds q t (digest s) bs"
    and get_holds: "wf q \<Longrightarrow> holds (snd (get now t s q)) t' d bs \<Longrightarrow> holds q t' d bs"
    and put_wf: "wf q \<Longrightarrow> \<exists>q'. put now t s bs j q = Some q' \<and> wf q'"
    and put_holds: "wf q \<Longrightarrow> put now t s bs j q = Some q' \<Longrightarrow> holds q' t' d bs' \<Longrightarrow> t' = t \<and> d = digest s \<and> bs' = bs \<or> holds q t' d bs'"
    and drop_wf: "wf q \<Longrightarrow> wf (drop_tenant t q)"
    and drop_holds: "wf q \<Longrightarrow> holds (drop_tenant t q) t' d bs \<Longrightarrow> holds q t' d bs \<and> t' \<noteq> t"
begin

definition sound :: "(string \<Rightarrow> bytes \<Rightarrow> record_batch list \<Rightarrow> bool) \<Rightarrow> 'q \<Rightarrow> bool" where
  "sound P q \<longleftrightarrow> wf q \<and> (\<forall>t d bs. holds q t d bs \<longrightarrow> P t d bs)"

lemma sound_mono: "sound P q \<Longrightarrow> (\<And>t d bs. P t d bs \<Longrightarrow> Q t d bs) \<Longrightarrow> sound Q q"
  by (auto simp: sound_def)

lemma get_sound: "sound P q \<Longrightarrow> get now t s q = (r, q') \<Longrightarrow> sound P q' \<and> (\<forall>bs j. r = Some (bs, j) \<longrightarrow> P t (digest s) bs)"
  using get_wf [of q now t s] get_hit [of q now t s] get_holds [of q now t s] by (auto simp: sound_def)

lemma put_sound: "sound P q \<Longrightarrow> P t (digest s) bs \<Longrightarrow> \<exists>q'. put now t s bs j q = Some q' \<and> sound P q'"
  using put_wf [of q now t s bs j] put_holds [of q now t s bs j] unfolding sound_def by metis

lemma drop_sound: "sound P q \<Longrightarrow> sound (\<lambda>t' d bs. P t' d bs \<and> t' \<noteq> t) (drop_tenant t q)"
  using drop_wf [of q t] drop_holds [of q t] by (auto simp: sound_def)

end

definition cache_wf :: "'c cache_ops \<Rightarrow> ('c \<Rightarrow> bool) \<Rightarrow> 'c query_cache \<Rightarrow> bool" where
  "cache_wf ops ok qc \<longleftrightarrow> ok (qc_lru qc) \<and> stored_bytes (items ops qc) \<le> total_bytes qc"

definition cache_holds :: "'c cache_ops \<Rightarrow> 'c query_cache \<Rightarrow> string \<Rightarrow> bytes \<Rightarrow> record_batch list \<Rightarrow> bool" where
  "cache_holds ops qc t d bs \<longleftrightarrow> (\<exists>e. (\<lparr>ck_tenant_id = t, sql_sha256 = d\<rparr>, e) \<in> set (items ops qc) \<and> ce_batches e = bs)"

lemma cache_wf_inv: "lru_spec ops n ok \<Longrightarrow> cache_wf ops ok qc \<Longrightarrow> cache_inv ops ok (map_of (items ops qc)) qc"
  using lru_laws(1) [of ops n ok "qc_lru qc"] by (auto simp: cache_wf_def cache_inv_def)

lemma cache_inv_wf: "cache_inv ops ok m qc \<Longrightarrow> cache_wf ops ok qc"
  by (simp add: cache_inv_def cache_wf_def)

lemma cache_inv_holds: "cache_inv ops ok m qc \<Longrightarrow> cache_holds ops qc t d bs \<Longrightarrow> \<exists>e. m \<lparr>ck_tenant_id = t, sql_sha256 = d\<rparr> = Some e \<and> ce_batches e = bs"
  by (fastforce simp: cache_inv_def cache_holds_def)

lemma map_of_holds: "map_of (items ops qc) \<lparr>ck_tenant_id = t, sql_sha256 = d\<rparr> = Some e \<Longrightarrow> cache_holds ops qc t d (ce_batches e)"
  by (auto simp: cache_holds_def dest: map_of_SomeD)

lemma query_cache_is_result_cache:
  assumes "lru_spec ops n ok"
  shows "result_cache (cache_get ops cfg K) (cache_put ops cfg K bl) (invalidate_tenant ops) (sha256 K) (cache_wf ops ok) (cache_holds ops)"
proof
  fix q now t s bs j t' d bs' q' assume wf: "cache_wf ops ok q"
  note i = cache_wf_inv [OF assms wf]
  note g = cache_get_inv [OF assms i, where cfg = cfg and K = K and now = now and tenant = t and sql = s]
  show "cache_wf ops ok (snd (cache_get ops cfg K now t s q))" using g(1) by (rule cache_inv_wf)
  show "cache_holds ops q t (sha256 K s) bs" if "fst (cache_get ops cfg K now t s q) = Some (bs, j)"
    using g(2) [OF that] map_of_holds by (fastforce simp: cache_key_of_def)
  show "cache_holds ops q t' d bs" if "cache_holds ops (snd (cache_get ops cfg K now t s q)) t' d bs"
    using cache_inv_holds [OF g(1) that] map_of_holds by fastforce
  note p = cache_put_inv [OF assms i, where cfg = cfg and K = K and bl = bl and now = now and tenant = t and sql = s and bs = bs and jws = j]
  show "\<exists>q'. cache_put ops cfg K bl now t s bs j q = Some q' \<and> cache_wf ops ok q'" using p cache_inv_wf by blast
  show "t' = t \<and> d = sha256 K s \<and> bs' = bs \<or> cache_holds ops q t' d bs'"
    if "cache_put ops cfg K bl now t s bs j q = Some q'" "cache_holds ops q' t' d bs'"
  proof -
    have "cache_inv ops ok (latest_step K bl (PutEv now t s bs j) (map_of (items ops q))) q'" using p that(1) by auto
    from cache_inv_holds [OF this that(2)] show ?thesis
      by (auto simp: cache_key_of_def map_of_holds split: if_splits)
  qed
  note v = invalidate_tenant_inv [OF assms i, of t]
  show "cache_wf ops ok (invalidate_tenant ops t q)" using v by (rule cache_inv_wf)
  show "cache_holds ops q t' d bs \<and> t' \<noteq> t" if "cache_holds ops (invalidate_tenant ops t q) t' d bs"
    using cache_inv_holds [OF v that] by (auto simp: map_of_holds split: if_splits)
qed

interpretation query_results: result_cache "cache_get lru_ref default_cache_config crypto_ref" "cache_put lru_ref default_cache_config crypto_ref (\<lambda>_. [])"
    "invalidate_tenant lru_ref" "sha256 crypto_ref"
    "cache_wf lru_ref (\<lambda>c. fst c = max_entries default_cache_config \<and> length (snd c) \<le> max_entries default_cache_config \<and> distinct (map fst (snd c)))"
    "cache_holds lru_ref"
  by (rule query_cache_is_result_cache [OF lru_spec_ref])

end
