(* ===== verification/Worker_Pool.thy ===== *)
theory Worker_Pool
  imports Engine_Shell Query_Cache "HOL-Library.Multiset"
begin

text \<open>
  \<open>src/src/long_running_pool_manager.rs\<close>: the pool of query workers. The operations are functions on the
  pool's state; their interleaving is the step relation \<open>pool_step\<close>, with one step per atomic action of
  a worker, of \<open>submit\<close> (the check of the shutdown flag, then routing and sending) and of the manager.
  The fields \<open>submitted\<close>, \<open>refused\<close>, \<open>replies\<close>, \<open>dropped\<close> and \<open>executed\<close> record what was observed.
\<close>

section \<open>Model\<close>

record query_task =
  task_id :: nat
  task_sql :: string
  task_tenant :: string
  principal_jwt :: string
  correlation_id :: string

datatype pool_error = PoolShutdown | QueueFull nat | PoolEngine engine_error | PoolInternal string

record query_result_ok =
  qr_batches :: "record_batch list"
  qr_attestation_jws :: string
  qr_correlation_id :: string

type_synonym query_result = "pool_error + query_result_ok"

record pool_config =
  worker_count :: nat
  queue_depth :: nat
  drain_timeout_secs :: nat
  heartbeat_secs :: nat

definition default_pool_config :: pool_config where
  "default_pool_config = \<lparr>worker_count = 4, queue_depth = 64, drain_timeout_secs = 30, heartbeat_secs = 30\<rparr>"

text \<open>
  A worker: the handle's queue, counter and flag, and where its loop stands: at its top (\<open>Idle\<close>, where it
  looks at the shutdown flag), in \<open>recv\<close> with its timeout, executing, or with a result to publish. Between
  \<open>Draining\<close> and \<open>Stopped\<close> the channel is empty but still open. A panic in the engine ends the worker's
  task where it stands (\<open>Crashed\<close>).
\<close>

datatype 'x phase =
    Starting
  | Idle "'x k04d_engine"
  | Waiting "'x k04d_engine"
  | Busy "'x k04d_engine" query_task
  | Publishing "'x k04d_engine" query_task query_result
  | Draining
  | Stopped
  | Crashed

record 'x worker =
  w_queue :: "query_task list"
  w_in_flight :: nat
  w_alive :: bool
  w_phase :: "'x phase"

record ('x, 'c) pool =
  workers :: "'x worker list"
  tenant_affinity :: "(string \<times> nat) list"
  shutdown_flag :: bool
  pool_cache :: "'c query_cache"
  submitting :: "query_task list"
  submitted :: "query_task list"
  refused :: "(query_task \<times> pool_error) list"
  replies :: "(query_task \<times> query_result) list"
  dropped :: "query_task list"
  executed :: "(string \<times> string \<times> record_batch list) list"

record ('x, 'c) pool_env =
  pe_session :: "'x session_ops"
  pe_lru :: "'c cache_ops"
  pe_cache_config :: query_cache_config
  pe_crypto :: crypto
  pe_buffers :: "array \<Rightarrow> nat list"
  pe_config :: pool_config
  pe_init :: init_config
  pe_bundle :: "contract_bundle_handle option"

text \<open>\<open>start\<close>; a bounded channel of depth 0 panics when it is made (\<open>None\<close>).\<close>

definition start_pool :: "('x, 'c) pool_env \<Rightarrow> 'c query_cache \<Rightarrow> ('x, 'c) pool option" where
  "start_pool E cache = (if 0 < worker_count (pe_config E) \<and> queue_depth (pe_config E) = 0 then None
     else Some \<lparr>workers = replicate (worker_count (pe_config E)) \<lparr>w_queue = [], w_in_flight = 0, w_alive = True, w_phase = Starting\<rparr>,
       tenant_affinity = [], shutdown_flag = False, pool_cache = cache, submitting = [], submitted = [], refused = [], replies = [],
       dropped = [], executed = []\<rparr>)"

text \<open>The first live worker with the fewest queries in flight, by index.\<close>

fun least_loaded :: "'x worker list \<Rightarrow> nat \<Rightarrow> (nat \<times> nat) option" where
  "least_loaded [] i = None"
| "least_loaded (w # ws) i = (case least_loaded ws (Suc i) of
     None \<Rightarrow> if w_alive w then Some (i, w_in_flight w) else None
   | Some (j, n) \<Rightarrow> if w_alive w \<and> w_in_flight w \<le> n then Some (i, w_in_flight w) else Some (j, n))"

definition pinned :: "('x, 'c) pool_env \<Rightarrow> ('x, 'c) pool \<Rightarrow> string \<Rightarrow> nat option" where
  "pinned E p tenant = (case map_of (tenant_affinity p) tenant of
     None \<Rightarrow> None
   | Some wid \<Rightarrow> if wid < length (workers p) \<and> w_alive (workers p ! wid) \<and> length (w_queue (workers p ! wid)) < queue_depth (pe_config E)
       then Some wid else None)"

definition select_worker :: "('x, 'c) pool_env \<Rightarrow> string \<Rightarrow> ('x, 'c) pool \<Rightarrow> nat \<times> ('x, 'c) pool" where
  "select_worker E tenant p = (case pinned E p tenant of
     Some wid \<Rightarrow> (wid, p)
   | None \<Rightarrow> (let best = (case least_loaded (workers p) 0 of Some (i, _) \<Rightarrow> i | None \<Rightarrow> 0)
       in (best, p\<lparr>tenant_affinity := AList.update tenant best (tenant_affinity p)\<rparr>)))"

definition set_worker :: "nat \<Rightarrow> 'x worker \<Rightarrow> ('x, 'c) pool \<Rightarrow> ('x, 'c) pool" where
  "set_worker i w p = p\<lparr>workers := (workers p)[i := w]\<rparr>"

text \<open>\<open>try_send\<close>: the channel has room and its receiver still exists.\<close>

definition receiver_open :: "'x worker \<Rightarrow> bool" where
  "receiver_open w \<longleftrightarrow> w_phase w \<noteq> Stopped \<and> w_phase w \<noteq> Crashed"

definition try_send :: "('x, 'c) pool_env \<Rightarrow> query_task \<Rightarrow> 'x worker \<Rightarrow> 'x worker option" where
  "try_send E t w = (if receiver_open w \<and> length (w_queue w) < queue_depth (pe_config E)
     then Some (w\<lparr>w_queue := w_queue w @ [t]\<rparr>) else None)"

text \<open>The part of \<open>submit\<close> after its check; indexing an empty pool panics (\<open>None\<close>).\<close>

definition submit_send :: "('x, 'c) pool_env \<Rightarrow> query_task \<Rightarrow> ('x, 'c) pool \<Rightarrow> ((pool_error + unit) \<times> ('x, 'c) pool) option" where
  "submit_send E t p = (case select_worker E (task_tenant t) p of (wid, p1) \<Rightarrow>
     if wid < length (workers p1) then Some (case try_send E t (workers p1 ! wid) of
         Some w \<Rightarrow> (Inr (), set_worker wid w p1)
       | None \<Rightarrow> (Inl (QueueFull (worker_count (pe_config E))), p1))
     else None)"

definition submit :: "('x, 'c) pool_env \<Rightarrow> query_task \<Rightarrow> ('x, 'c) pool \<Rightarrow> ((pool_error + unit) \<times> ('x, 'c) pool) option" where
  "submit E t p = (if shutdown_flag p then Some (Inl PoolShutdown, p) else submit_send E t p)"

definition refresh_contract_bundle :: "('x, 'c) pool_env \<Rightarrow> contract_bundle_handle \<Rightarrow> string \<Rightarrow> ('x, 'c) pool \<Rightarrow> ('x, 'c) pool" where
  "refresh_contract_bundle E bundle tenant p = p\<lparr>pool_cache := invalidate_tenant (pe_lru E) tenant (pool_cache p)\<rparr>"

text \<open>The drain condition of \<open>shutdown\<close> after the flag is set.\<close>

definition total_in_flight :: "('x, 'c) pool \<Rightarrow> nat" where
  "total_in_flight p = sum_list (map w_in_flight (workers p))"

section \<open>The worker loop\<close>

text \<open>
  Start-up of a worker: its engine, with the initial bundle, or a dead worker, whose receiver is gone
  with what was already queued.
\<close>

definition worker_boot :: "('x, 'c) pool_env \<Rightarrow> 'x worker \<Rightarrow> 'x worker" where
  "worker_boot E w = (case new_with_config (pe_init E) of
     Inl _ \<Rightarrow> w\<lparr>w_queue := [], w_alive := False, w_phase := Stopped\<rparr>
   | Inr e \<Rightarrow> w\<lparr>w_phase := Idle (case pe_bundle E of None \<Rightarrow> e | Some b \<Rightarrow> inject_contract_bundle b e)\<rparr>)"

text \<open>\<open>execute_query_task\<close>: the cache first, then the engine with a placeholder attestation.\<close>

definition execute_query_task :: "('x, 'c) pool_env \<Rightarrow> nat \<Rightarrow> query_task \<Rightarrow> 'x k04d_engine \<Rightarrow> 'c query_cache
    \<Rightarrow> (pool_error + record_batch list \<times> string) \<times> 'x k04d_engine \<times> 'c query_cache" where
  "execute_query_task E now t e cache =
     (case cache_get (pe_lru E) (pe_cache_config E) (pe_crypto E) now (task_tenant t) (task_sql t) cache of
        (Some (bs, jws), cache') \<Rightarrow> (Inr (bs, jws), e, cache')
      | (None, cache') \<Rightarrow> (case shell_query (pe_session E) (task_sql t) e of
          (Inl err, e') \<Rightarrow> (Inl (PoolEngine err), e', cache')
        | (Inr bs, e') \<Rightarrow> (Inr (bs, ''placeholder.'' @ correlation_id t @ ''.jws''), e', cache')))"

definition to_query_result :: "query_task \<Rightarrow> pool_error + record_batch list \<times> string \<Rightarrow> query_result" where
  "to_query_result t r = and_then r (\<lambda>(bs, jws). Inr \<lparr>qr_batches = bs, qr_attestation_jws = jws, qr_correlation_id = correlation_id t\<rparr>)"

definition cache_hit :: "('x, 'c) pool_env \<Rightarrow> nat \<Rightarrow> query_task \<Rightarrow> 'c query_cache \<Rightarrow> bool" where
  "cache_hit E now t c \<longleftrightarrow> fst (cache_get (pe_lru E) (pe_cache_config E) (pe_crypto E) now (task_tenant t) (task_sql t) c) \<noteq> None"

definition worker_exec :: "('x, 'c) pool_env \<Rightarrow> nat \<Rightarrow> nat \<Rightarrow> 'x k04d_engine \<Rightarrow> query_task \<Rightarrow> ('x, 'c) pool \<Rightarrow> ('x, 'c) pool" where
  "worker_exec E now i e t p = (case execute_query_task E now t e (pool_cache p) of (r, e', cache') \<Rightarrow>
     (let w = workers p ! i;
          w' = w\<lparr>w_in_flight := w_in_flight w - 1, w_phase := Publishing e' t (to_query_result t r)\<rparr>
      in (set_worker i w' p)\<lparr>pool_cache := cache',
            executed := (case r of Inr (bs, _) \<Rightarrow> if cache_hit E now t (pool_cache p) then executed p
              else (task_tenant t, task_sql t, bs) # executed p | Inl _ \<Rightarrow> executed p)\<rparr>))"

text \<open>After execution: a success is put into the cache, then the reply is sent.\<close>

definition worker_publish :: "('x, 'c) pool_env \<Rightarrow> nat \<Rightarrow> nat \<Rightarrow> 'x k04d_engine \<Rightarrow> query_task \<Rightarrow> query_result \<Rightarrow> ('x, 'c) pool \<Rightarrow> ('x, 'c) pool option" where
  "worker_publish E now i e t r p = map_option
     (\<lambda>cache'. (set_worker i ((workers p ! i)\<lparr>w_phase := Idle e\<rparr>) p)\<lparr>pool_cache := cache', replies := (t, r) # replies p\<rparr>)
     (case r of Inl _ \<Rightarrow> Some (pool_cache p)
      | Inr ok \<Rightarrow> cache_put (pe_lru E) (pe_cache_config E) (pe_crypto E) (pe_buffers E) now (task_tenant t) (task_sql t)
          (qr_batches ok) (qr_attestation_jws ok) (pool_cache p))"

text \<open>
  The steps. A worker that already waits for a task may still receive one after the flag is set, since
  it looks at the flag before it waits. When a worker panics, its receiver and the task it works on are
  dropped; its counter and its flag stay as they are.
\<close>

inductive pool_step :: "('x, 'c) pool_env \<Rightarrow> ('x, 'c) pool \<Rightarrow> ('x, 'c) pool \<Rightarrow> bool" for E where
  boot: "i < length (workers p) \<Longrightarrow> workers p ! i = w \<Longrightarrow> w_phase w = Starting \<Longrightarrow>
    pool_step E p ((set_worker i (worker_boot E w) p)\<lparr>dropped := (if w_phase (worker_boot E w) = Stopped then w_queue w else []) @ dropped p\<rparr>)"
| accept: "\<not> shutdown_flag p \<Longrightarrow> pool_step E p (p\<lparr>submitting := t # submitting p, submitted := t # submitted p\<rparr>)"
| refuse: "shutdown_flag p \<Longrightarrow> pool_step E p (p\<lparr>refused := (t, PoolShutdown) # refused p, submitted := t # submitted p\<rparr>)"
| send: "t \<in> set (submitting p) \<Longrightarrow> submit_send E t p = Some (Inr (), p') \<Longrightarrow>
    pool_step E p (p'\<lparr>submitting := remove1 t (submitting p)\<rparr>)"
| send_full: "t \<in> set (submitting p) \<Longrightarrow> submit_send E t p = Some (Inl err, p') \<Longrightarrow>
    pool_step E p (p'\<lparr>submitting := remove1 t (submitting p), refused := (t, err) # refused p\<rparr>)"
| wait: "i < length (workers p) \<Longrightarrow> workers p ! i = w \<Longrightarrow> w_phase w = Idle e \<Longrightarrow> \<not> shutdown_flag p \<Longrightarrow>
    pool_step E p (set_worker i (w\<lparr>w_phase := Waiting e\<rparr>) p)"
| recv_timeout: "i < length (workers p) \<Longrightarrow> workers p ! i = w \<Longrightarrow> w_phase w = Waiting e \<Longrightarrow>
    pool_step E p (set_worker i (w\<lparr>w_phase := Idle e\<rparr>) p)"
| recv: "i < length (workers p) \<Longrightarrow> workers p ! i = w \<Longrightarrow> w_phase w = Waiting e \<Longrightarrow> w_queue w = t # q \<Longrightarrow>
    pool_step E p (set_worker i (w\<lparr>w_queue := q, w_in_flight := w_in_flight w + 1, w_phase := Busy e t\<rparr>) p)"
| exec: "i < length (workers p) \<Longrightarrow> workers p ! i = w \<Longrightarrow> w_phase w = Busy e t \<Longrightarrow> pool_step E p (worker_exec E now i e t p)"
| publish: "i < length (workers p) \<Longrightarrow> workers p ! i = w \<Longrightarrow> w_phase w = Publishing e t r \<Longrightarrow> worker_publish E now i e t r p = Some p' \<Longrightarrow>
    pool_step E p p'"
| drain: "i < length (workers p) \<Longrightarrow> workers p ! i = w \<Longrightarrow> w_phase w = Idle e \<Longrightarrow> shutdown_flag p \<Longrightarrow>
    pool_step E p ((set_worker i (w\<lparr>w_queue := [], w_phase := Draining\<rparr>) p)\<lparr>replies := map (\<lambda>t. (t, Inl PoolShutdown)) (w_queue w) @ replies p\<rparr>)"
| stop: "i < length (workers p) \<Longrightarrow> workers p ! i = w \<Longrightarrow> w_phase w = Draining \<Longrightarrow>
    pool_step E p ((set_worker i (w\<lparr>w_queue := [], w_alive := False, w_phase := Stopped\<rparr>) p)\<lparr>dropped := w_queue w @ dropped p\<rparr>)"
| crash: "i < length (workers p) \<Longrightarrow> workers p ! i = w \<Longrightarrow> w_phase w = Busy e t \<Longrightarrow>
    pool_step E p ((set_worker i (w\<lparr>w_queue := [], w_phase := Crashed\<rparr>) p)\<lparr>dropped := t # w_queue w @ dropped p\<rparr>)"
| set_shutdown: "pool_step E p (p\<lparr>shutdown_flag := True\<rparr>)"
| refresh: "pool_step E p (refresh_contract_bundle E b tenant p)"

inductive pool_reach :: "('x, 'c) pool_env \<Rightarrow> ('x, 'c) pool \<Rightarrow> bool" for E where
  init: "start_pool E (new_cache (pe_lru E) (pe_cache_config E)) = Some p \<Longrightarrow> pool_reach E p"
| step: "pool_reach E p \<Longrightarrow> pool_step E p p' \<Longrightarrow> pool_reach E p'"

section \<open>Where a task is\<close>

fun phase_tasks :: "'x phase \<Rightarrow> query_task multiset" where
  "phase_tasks (Busy _ t) = {#t#}"
| "phase_tasks (Publishing _ t _) = {#t#}"
| "phase_tasks _ = {#}"

definition load :: "'x worker \<Rightarrow> query_task multiset" where
  "load w = mset (w_queue w) + phase_tasks (w_phase w)"

definition held :: "'x worker list \<Rightarrow> query_task multiset" where
  "held ws = sum_list (map load ws)"

definition accounted :: "('x, 'c) pool \<Rightarrow> query_task multiset" where
  "accounted p = mset (submitting p) + held (workers p) + mset (map fst (replies p)) + mset (map fst (refused p)) + mset (dropped p)"

lemma held_update: "i < length ws \<Longrightarrow> held (ws[i := w]) + load (ws ! i) = held ws + load w"
proof (induction ws arbitrary: i)
  case (Cons v ws)
  then show ?case by (cases i) (auto simp: held_def ac_simps)
qed simp

lemma held_loss:
  assumes "i < length ws" "load (ws ! i) = load w + d"
  shows "held ws = held (ws[i := w]) + d"
proof -
  have "held ws + load w = (held (ws[i := w]) + d) + load w"
    using held_update [OF assms(1), of w] assms(2) by (simp add: ac_simps)
  then show ?thesis by (simp only: add_right_cancel)
qed

lemma held_gain:
  assumes "i < length ws" "load w = load (ws ! i) + d"
  shows "held (ws[i := w]) = held ws + d"
proof -
  have "held (ws[i := w]) + load (ws ! i) = (held ws + d) + load (ws ! i)"
    using held_update [OF assms(1), of w] assms(2) by (simp add: ac_simps)
  then show ?thesis by (simp only: add_right_cancel)
qed

lemma held_replicate: "load w = {#} \<Longrightarrow> held (replicate n w) = {#}"
  by (induction n) (auto simp: held_def)

lemma held_same: "i < length ws \<Longrightarrow> load w = load (ws ! i) \<Longrightarrow> held (ws[i := w]) = held ws"
  using held_update [of i ws w] by simp

lemma set_worker_simps [simp]:
  "workers (set_worker i w p) = (workers p)[i := w]" "submitting (set_worker i w p) = submitting p" "submitted (set_worker i w p) = submitted p"
  "refused (set_worker i w p) = refused p" "replies (set_worker i w p) = replies p" "dropped (set_worker i w p) = dropped p"
  "executed (set_worker i w p) = executed p" "pool_cache (set_worker i w p) = pool_cache p" "tenant_affinity (set_worker i w p) = tenant_affinity p"
  "shutdown_flag (set_worker i w p) = shutdown_flag p"
  by (simp_all add: set_worker_def)

lemma select_worker_same:
  "select_worker E tenant p = (wid, p1) \<Longrightarrow> \<exists>a. p1 = p\<lparr>tenant_affinity := a\<rparr>"
  by (auto simp: select_worker_def Let_def split: option.splits intro: exI [of _ "tenant_affinity p"])

lemma submit_send_cases:
  assumes "submit_send E t p = Some (r, p')"
  obtains (sent) a i where "r = Inr ()" "i < length (workers p)" "receiver_open (workers p ! i)"
      "length (w_queue (workers p ! i)) < queue_depth (pe_config E)"
      "p' = set_worker i ((workers p ! i)\<lparr>w_queue := w_queue (workers p ! i) @ [t]\<rparr>) (p\<lparr>tenant_affinity := a\<rparr>)"
  | (full) a where "r = Inl (QueueFull (worker_count (pe_config E)))" "p' = p\<lparr>tenant_affinity := a\<rparr>"
proof -
  obtain wid p1 where s: "select_worker E (task_tenant t) p = (wid, p1)" by fastforce
  then obtain a where p1: "p1 = p\<lparr>tenant_affinity := a\<rparr>" using select_worker_same by blast
  show thesis
  proof (cases "try_send E t (workers p ! wid)")
    case None
    then show thesis using assms s p1 full by (auto simp: submit_send_def split: if_splits)
  next
    case (Some w)
    then show thesis using assms s p1 sent [of wid a] by (auto simp: submit_send_def try_send_def receiver_open_def split: if_splits)
  qed
qed

text \<open>What a step does to the tasks.\<close>

lemma load_simps [simp]:
  "load (w\<lparr>w_in_flight := n\<rparr>) = load w" "load (w\<lparr>w_alive := b\<rparr>) = load w"
  by (simp_all add: load_def)

lemma mset_remove1_split: "t \<in> set xs \<Longrightarrow> \<exists>R. mset xs = add_mset t R \<and> mset (remove1 t xs) = R"
  by simp

lemma step_accounted:
  assumes "pool_step E p p'" "accounted p = mset (submitted p)"
  shows "accounted p' = mset (submitted p')"
  using assms
proof (cases rule: pool_step.cases)
  case (boot i w)
  have "load w = load (worker_boot E w) + mset (if w_phase (worker_boot E w) = Stopped then w_queue w else [])"
    using boot by (auto simp: worker_boot_def load_def split: sum.splits)
  then have "held (workers p) = held ((workers p)[i := worker_boot E w]) + mset (if w_phase (worker_boot E w) = Stopped then w_queue w else [])"
    using boot by (intro held_loss) auto
  then show ?thesis using assms(2) boot by (simp add: accounted_def ac_simps)
next
  case (send t p1)
  from send(3) show ?thesis
  proof (cases rule: submit_send_cases)
    case (sent a i)
    then have "held ((workers p)[i := (workers p ! i)\<lparr>w_queue := w_queue (workers p ! i) @ [t]\<rparr>]) = held (workers p) + {#t#}"
      by (intro held_gain) (auto simp: load_def)
    moreover obtain R where "mset (submitting p) = add_mset t R" "mset (remove1 t (submitting p)) = R"
      using mset_remove1_split [OF send(2)] by blast
    ultimately show ?thesis using assms(2) send(1) sent by (simp add: accounted_def del: mset_remove1)
  qed simp
next
  case (send_full t err p1)
  from send_full(3) show ?thesis
  proof (cases rule: submit_send_cases)
    case (full a)
    moreover obtain R where "mset (submitting p) = add_mset t R" "mset (remove1 t (submitting p)) = R"
      using mset_remove1_split [OF send_full(2)] by blast
    ultimately show ?thesis using assms(2) send_full(1) by (simp add: accounted_def del: mset_remove1)
  qed simp
next
  case (wait i w e)
  then have "held ((workers p)[i := w\<lparr>w_phase := Waiting e\<rparr>]) = held (workers p)"
    by (intro held_same) (auto simp: load_def)
  then show ?thesis using assms(2) wait by (simp add: accounted_def)
next
  case (recv_timeout i w e)
  then have "held ((workers p)[i := w\<lparr>w_phase := Idle e\<rparr>]) = held (workers p)"
    by (intro held_same) (auto simp: load_def)
  then show ?thesis using assms(2) recv_timeout by (simp add: accounted_def)
next
  case (crash i w e t)
  have "held (workers p) = held ((workers p)[i := w\<lparr>w_queue := [], w_phase := Crashed\<rparr>]) + (mset (w_queue w) + {#t#})"
    using crash by (intro held_loss) (auto simp: load_def)
  then show ?thesis using assms(2) crash by (simp add: accounted_def ac_simps)
next
  case (recv i w e t q)
  then have "held ((workers p)[i := w\<lparr>w_queue := q, w_in_flight := w_in_flight w + 1, w_phase := Busy e t\<rparr>]) = held (workers p)"
    by (intro held_same) (auto simp: load_def)
  then show ?thesis using assms(2) recv by (simp add: accounted_def)
next
  case (exec i w e t now)
  obtain r e' c where x: "execute_query_task E now t e (pool_cache p) = (r, e', c)" by (metis prod_cases3)
  have "held ((workers p)[i := w\<lparr>w_in_flight := w_in_flight w - 1, w_phase := Publishing e' t (to_query_result t r)\<rparr>]) = held (workers p)"
    using exec by (intro held_same) (auto simp: load_def)
  then show ?thesis using assms(2) exec x by (simp add: accounted_def worker_exec_def Let_def)
next
  case (publish i w e t r now)
  then obtain c where p': "p' = (set_worker i (w\<lparr>w_phase := Idle e\<rparr>) p)\<lparr>pool_cache := c, replies := (t, r) # replies p\<rparr>"
    by (auto simp: worker_publish_def)
  have "held (workers p) = held ((workers p)[i := w\<lparr>w_phase := Idle e\<rparr>]) + {#t#}"
    using publish by (intro held_loss) (auto simp: load_def)
  then show ?thesis using assms(2) p' by (simp add: accounted_def ac_simps)
next
  case (drain i w e)
  have "held (workers p) = held ((workers p)[i := w\<lparr>w_queue := [], w_phase := Draining\<rparr>]) + mset (w_queue w)"
    using drain by (intro held_loss) (auto simp: load_def)
  then show ?thesis using assms(2) drain by (simp add: accounted_def ac_simps comp_def)
next
  case (stop i w)
  have "held (workers p) = held ((workers p)[i := w\<lparr>w_queue := [], w_alive := False, w_phase := Stopped\<rparr>]) + mset (w_queue w)"
    using stop by (intro held_loss) (auto simp: load_def)
  then show ?thesis using assms(2) stop by (simp add: accounted_def ac_simps)
qed (auto simp: accounted_def refresh_contract_bundle_def)

lemma start_accounted: "start_pool E c = Some p \<Longrightarrow> accounted p = mset (submitted p)"
  by (auto simp: start_pool_def accounted_def held_replicate load_def held_def [of "[]"] split: if_splits)

lemma pool_reach_accounted: "pool_reach E p \<Longrightarrow> accounted p = mset (submitted p)"
  by (induction rule: pool_reach.induct) (auto simp: start_accounted intro: step_accounted)

text \<open>
  C22: no task is lost or answered twice. In every reachable state of the pool, every submitted task is
  in exactly one place: still being submitted, queued or executed by one worker, refused, replied to,
  or dropped with a receiver that closed. In particular a task never gets two answers.
\<close>

theorem pool_accounts_for_tasks:
  assumes "pool_reach E p"
  shows "mset (submitted p) = mset (submitting p) + held (workers p) + mset (map fst (replies p)) + mset (map fst (refused p)) + mset (dropped p)"
  using pool_reach_accounted [OF assms] by (simp add: accounted_def)

section \<open>What is served\<close>

text \<open>\<open>bs\<close> was computed by an engine for the tenant, for a statement with the given digest.\<close>

definition from_engine :: "('x, 'c) pool_env \<Rightarrow> (string \<times> string \<times> record_batch list) list \<Rightarrow> string \<Rightarrow> bytes \<Rightarrow> record_batch list \<Rightarrow> bool" where
  "from_engine E ex tenant d bs \<longleftrightarrow> (\<exists>sql. (tenant, sql, bs) \<in> set ex \<and> sha256 (pe_crypto E) sql = d)"

definition answer_ok :: "('x, 'c) pool_env \<Rightarrow> (string \<times> string \<times> record_batch list) list \<Rightarrow> query_task \<Rightarrow> query_result \<Rightarrow> bool" where
  "answer_ok E ex t r \<longleftrightarrow> (case r of Inl _ \<Rightarrow> True
     | Inr ok \<Rightarrow> from_engine E ex (task_tenant t) (sha256 (pe_crypto E) (task_sql t)) (qr_batches ok) \<and> qr_correlation_id ok = correlation_id t)"

fun phase_ok :: "('x, 'c) pool_env \<Rightarrow> (string \<times> string \<times> record_batch list) list \<Rightarrow> 'x phase \<Rightarrow> bool" where
  "phase_ok E ex (Idle e) \<longleftrightarrow> ke_bundle e = pe_bundle E"
| "phase_ok E ex (Waiting e) \<longleftrightarrow> ke_bundle e = pe_bundle E"
| "phase_ok E ex (Busy e t) \<longleftrightarrow> ke_bundle e = pe_bundle E"
| "phase_ok E ex (Publishing e t r) \<longleftrightarrow> ke_bundle e = pe_bundle E \<and> answer_ok E ex t r"
| "phase_ok E ex _ \<longleftrightarrow> True"

abbreviation cache_sound :: "('x, 'c) pool_env \<Rightarrow> ('c \<Rightarrow> bool) \<Rightarrow> (string \<Rightarrow> bytes \<Rightarrow> record_batch list \<Rightarrow> bool) \<Rightarrow> 'c query_cache \<Rightarrow> bool" where
  "cache_sound E okl \<equiv> result_cache.sound (cache_wf (pe_lru E) okl) (cache_holds (pe_lru E))"

definition pool_inv :: "('x, 'c) pool_env \<Rightarrow> ('c \<Rightarrow> bool) \<Rightarrow> ('x, 'c) pool \<Rightarrow> bool" where
  "pool_inv E okl p \<longleftrightarrow> (\<forall>w\<in>set (workers p). phase_ok E (executed p) (w_phase w))
     \<and> cache_sound E okl (from_engine E (executed p)) (pool_cache p)
     \<and> (\<forall>tr\<in>set (replies p). answer_ok E (executed p) (fst tr) (snd tr))
     \<and> (\<forall>x\<in>set (executed p). reject_unsafe_ddl (fst (snd x)) = Inr () \<and> pe_bundle E \<noteq> None)"

lemma answer_ok_mono: "answer_ok E ex t r \<Longrightarrow> set ex \<subseteq> set ex' \<Longrightarrow> answer_ok E ex' t r"
  by (auto simp: answer_ok_def from_engine_def split: sum.splits)

lemma phase_ok_mono: "phase_ok E ex ph \<Longrightarrow> set ex \<subseteq> set ex' \<Longrightarrow> phase_ok E ex' ph"
  by (cases ph) (auto intro: answer_ok_mono)

lemma pool_inv_update:
  assumes "pool_inv E okl p" "i < length (workers p)" "phase_ok E (executed p) (w_phase w)"
  shows "\<forall>v\<in>set ((workers p)[i := w]). phase_ok E (executed p) (w_phase v)"
  using assms set_update_subset_insert [of "workers p" i w] by (auto simp: pool_inv_def)

lemma pool_inv_nth: "pool_inv E okl p \<Longrightarrow> i < length (workers p) \<Longrightarrow> phase_ok E (executed p) (w_phase (workers p ! i))"
  by (simp add: pool_inv_def)

abbreviation pool_lru_spec :: "('x, 'c) pool_env \<Rightarrow> ('c \<Rightarrow> bool) \<Rightarrow> bool" where
  "pool_lru_spec E okl \<equiv> lru_spec (pe_lru E) (max (max_entries (pe_cache_config E)) 1) okl"

lemma pool_result_cache:
  "pool_lru_spec E okl \<Longrightarrow> result_cache (cache_get (pe_lru E) (pe_cache_config E) (pe_crypto E))
     (cache_put (pe_lru E) (pe_cache_config E) (pe_crypto E) (pe_buffers E)) (invalidate_tenant (pe_lru E)) (sha256 (pe_crypto E))
     (cache_wf (pe_lru E) okl) (cache_holds (pe_lru E))"
  by (rule query_cache_is_result_cache)

lemmas pool_cache_sound = result_cache.get_sound [OF pool_result_cache] result_cache.put_sound [OF pool_result_cache]
  result_cache.drop_sound [OF pool_result_cache] result_cache.sound_mono [OF pool_result_cache]

lemma execute_outcome:
  assumes "pool_lru_spec E okl" "cache_sound E okl P c" "ke_bundle e = pe_bundle E"
    and "execute_query_task E now t e c = (r, e', c')"
  shows "cache_sound E okl P c' \<and> ke_bundle e' = pe_bundle E
    \<and> (\<forall>bs j. r = Inr (bs, j) \<longrightarrow>
        (if cache_hit E now t c
         then P (task_tenant t) (sha256 (pe_crypto E) (task_sql t)) bs
         else reject_unsafe_ddl (task_sql t) = Inr () \<and> pe_bundle E \<noteq> None))"
proof -
  obtain h c1 where g: "cache_get (pe_lru E) (pe_cache_config E) (pe_crypto E) now (task_tenant t) (task_sql t) c = (h, c1)" by fastforce
  note s = pool_cache_sound(1) [OF assms(1,2) g]
  show ?thesis
  proof (cases h)
    case (Some x)
    then show ?thesis using s g assms(3,4) by (cases x) (auto simp: execute_query_task_def cache_hit_def)
  next
    case None
    obtain q e1 where q: "shell_query (pe_session E) (task_sql t) e = (q, e1)" by fastforce
    have "ke_bundle e1 = pe_bundle E" using shell_query_bundle [of "pe_session E" "task_sql t" e] q assms(3) by simp
    moreover have "admitted (task_sql t) e" if "q = Inr bs" for bs
      using shell_query_refused [of "task_sql t" e "pe_session E"] q that by auto
    ultimately show ?thesis using s g q None assms(3,4)
      by (cases q) (auto simp: execute_query_task_def cache_hit_def admitted_def has_contract_bundle_def)
  qed
qed

lemma step_pool_inv:
  assumes lru: "pool_lru_spec E okl" and "pool_step E p p'" and inv: "pool_inv E okl p"
  shows "pool_inv E okl p'"
  using assms(2)
proof (cases rule: pool_step.cases)
  case (boot i w)
  have "phase_ok E (executed p) (w_phase (worker_boot E w))"
    by (auto simp: worker_boot_def inject_contract_bundle_def new_with_config_def and_then_eq_Inr split: sum.splits option.splits)
  from pool_inv_update [OF inv boot(2) this] show ?thesis using inv boot by (simp add: pool_inv_def)
next
  case (send t p1)
  from send(3) show ?thesis
  proof (cases rule: submit_send_cases)
    case (sent a i)
    have "phase_ok E (executed p) (w_phase (workers p ! i))" using inv sent by (simp add: pool_inv_def)
    with pool_inv_update [OF inv sent(2), of "(workers p ! i)\<lparr>w_queue := w_queue (workers p ! i) @ [t]\<rparr>"]
    show ?thesis using inv send sent by (simp add: pool_inv_def)
  qed (use inv send in \<open>simp add: pool_inv_def\<close>)
next
  case (send_full t err p1)
  from send_full(3) show ?thesis
    by (cases rule: submit_send_cases) (use inv send_full in \<open>simp_all add: pool_inv_def\<close>)
next
  case (wait i w e)
  have "phase_ok E (executed p) (w_phase w)" using pool_inv_nth [OF inv wait(2)] wait(3) by simp
  with pool_inv_update [OF inv wait(2), of "w\<lparr>w_phase := Waiting e\<rparr>"] show ?thesis using inv wait by (simp add: pool_inv_def)
next
  case (recv_timeout i w e)
  have "phase_ok E (executed p) (w_phase w)" using pool_inv_nth [OF inv recv_timeout(2)] recv_timeout(3) by simp
  with pool_inv_update [OF inv recv_timeout(2), of "w\<lparr>w_phase := Idle e\<rparr>"] show ?thesis using inv recv_timeout by (simp add: pool_inv_def)
next
  case (crash i w e t)
  from pool_inv_update [OF inv crash(2), of "w\<lparr>w_queue := [], w_phase := Crashed\<rparr>"]
  show ?thesis using inv crash by (auto simp: pool_inv_def)
next
  case (recv i w e t q)
  have "phase_ok E (executed p) (w_phase w)" using pool_inv_nth [OF inv recv(2)] recv(3) by simp
  with pool_inv_update [OF inv recv(2), of "w\<lparr>w_queue := q, w_in_flight := w_in_flight w + 1, w_phase := Busy e t\<rparr>"]
  show ?thesis using inv recv by (simp add: pool_inv_def)
next
  case (exec i w e t now)
  have b: "ke_bundle e = pe_bundle E" using pool_inv_nth [OF inv exec(2)] exec(3,4) by simp
  obtain r e' c where x: "execute_query_task E now t e (pool_cache p) = (r, e', c)" by (metis prod_cases3)
  let ?P = "from_engine E (executed p)"
  have cs: "cache_sound E okl ?P (pool_cache p)" using inv by (simp add: pool_inv_def)
  note o = execute_outcome [OF lru cs b x]
  define ex where "ex = (case r of Inr (bs, _) \<Rightarrow> if cache_hit E now t (pool_cache p) then executed p
      else (task_tenant t, task_sql t, bs) # executed p | Inl _ \<Rightarrow> executed p)"
  have sub: "set (executed p) \<subseteq> set ex" by (auto simp: ex_def split: sum.splits)
  have new: "\<forall>y\<in>set ex. reject_unsafe_ddl (fst (snd y)) = Inr () \<and> pe_bundle E \<noteq> None"
    using inv o by (cases r) (auto simp: pool_inv_def ex_def)
  have ans: "answer_ok E ex t (to_query_result t r)"
    using o
    by (cases r) (auto simp: answer_ok_def to_query_result_def ex_def from_engine_def split: if_splits)
  have p': "p' = (set_worker i (w\<lparr>w_in_flight := w_in_flight w - 1, w_phase := Publishing e' t (to_query_result t r)\<rparr>) p)\<lparr>pool_cache := c, executed := ex\<rparr>"
    using exec x by (simp add: ex_def worker_exec_def Let_def)
  define w' where "w' = w\<lparr>w_in_flight := w_in_flight w - 1, w_phase := Publishing e' t (to_query_result t r)\<rparr>"
  have "phase_ok E ex (w_phase w')" using ans o by (simp add: w'_def)
  moreover have "\<forall>v\<in>set (workers p). phase_ok E ex (w_phase v)" using inv sub by (auto simp: pool_inv_def intro: phase_ok_mono)
  ultimately have "\<forall>v\<in>set ((workers p)[i := w']). phase_ok E ex (w_phase v)"
    using set_update_subset_insert [of "workers p" i w'] by blast
  moreover have "from_engine E (executed p) a d bs \<Longrightarrow> from_engine E ex a d bs" for a d bs
    using sub by (auto simp: from_engine_def)
  then have "cache_sound E okl (from_engine E ex) c" by (rule pool_cache_sound(4) [OF lru conjunct1 [OF o]])
  moreover have "\<forall>tr\<in>set (replies p). answer_ok E ex (fst tr) (snd tr)"
    using inv sub by (auto simp: pool_inv_def intro: answer_ok_mono)
  ultimately show ?thesis using new by (simp add: p' pool_inv_def w'_def)
next
  case (publish i w e t r now)
  have ph: "ke_bundle e = pe_bundle E" "answer_ok E (executed p) t r"
    using pool_inv_nth [OF inv publish(1)] publish(2,3) by simp_all
  have cs: "cache_sound E okl (from_engine E (executed p)) (pool_cache p)" using inv by (simp add: pool_inv_def)
  obtain c where p': "p' = (set_worker i (w\<lparr>w_phase := Idle e\<rparr>) p)\<lparr>pool_cache := c, replies := (t, r) # replies p\<rparr>"
    and c: "cache_sound E okl (from_engine E (executed p)) c"
  proof (cases r)
    case (Inl err)
    then show ?thesis using that publish cs by (auto simp: worker_publish_def)
  next
    case (Inr ok)
    then have "from_engine E (executed p) (task_tenant t) (sha256 (pe_crypto E) (task_sql t)) (qr_batches ok)"
      using ph(2) by (simp add: answer_ok_def)
    from pool_cache_sound(2) [OF lru cs this, of now "qr_attestation_jws ok"] show ?thesis
      using that publish Inr by (auto simp: worker_publish_def)
  qed
  from pool_inv_update [OF inv publish(1), of "w\<lparr>w_phase := Idle e\<rparr>"] show ?thesis
    using inv ph c by (simp add: p' pool_inv_def)
next
  case (drain i w e)
  from pool_inv_update [OF inv drain(2), of "w\<lparr>w_queue := [], w_phase := Draining\<rparr>"]
  show ?thesis using inv drain by (auto simp: pool_inv_def answer_ok_def)
next
  case (stop i w)
  from pool_inv_update [OF inv stop(2), of "w\<lparr>w_queue := [], w_alive := False, w_phase := Stopped\<rparr>"]
  show ?thesis using inv stop by (auto simp: pool_inv_def)
next
  case (refresh b tenant)
  have "cache_sound E okl (from_engine E (executed p)) (pool_cache p)" using inv by (simp add: pool_inv_def)
  from pool_cache_sound(3) [OF lru this, of tenant]
  have "cache_sound E okl (from_engine E (executed p)) (invalidate_tenant (pe_lru E) tenant (pool_cache p))"
    by (rule pool_cache_sound(4) [OF lru]) blast
  then show ?thesis using inv refresh by (simp add: pool_inv_def refresh_contract_bundle_def)
qed (use inv in \<open>auto simp: pool_inv_def\<close>)

lemma start_pool_inv:
  assumes "pool_lru_spec E okl" "start_pool E (new_cache (pe_lru E) (pe_cache_config E)) = Some p"
  shows "pool_inv E okl p"
proof -
  have "cache_sound E okl P (new_cache (pe_lru E) (pe_cache_config E))" for P
    using new_cache_inv [OF assms(1)] lru_new_laws(2) [OF assms(1)]
    by (auto simp: result_cache.sound_def [OF pool_result_cache [OF assms(1)]] cache_inv_wf cache_holds_def new_cache_def)
  then show ?thesis using assms(2) by (auto simp: start_pool_def pool_inv_def split: if_splits)
qed

lemma pool_reach_inv: "pool_lru_spec E okl \<Longrightarrow> pool_reach E p \<Longrightarrow> pool_inv E okl p"
  by (rotate_tac 1, induction rule: pool_reach.induct) (auto intro: start_pool_inv step_pool_inv)

text \<open>
  C3: what the pool serves was enforced. In every reachable state, a successful reply carries the task's
  own correlation id and batches that an engine computed for the same tenant, for a statement with the
  digest of the task's statement; that statement passed the DDL guard, and the engines hold a contract
  bundle. So neither the cache nor the routing ever lets an ungoverned result, or another tenant's, through.
\<close>

theorem pool_serves_enforced:
  assumes "pool_lru_spec E okl" "pool_reach E p" "(t, Inr r) \<in> set (replies p)"
  shows "\<exists>sql. (task_tenant t, sql, qr_batches r) \<in> set (executed p) \<and> sha256 (pe_crypto E) sql = sha256 (pe_crypto E) (task_sql t)
    \<and> reject_unsafe_ddl sql = Inr () \<and> pe_bundle E \<noteq> None \<and> qr_correlation_id r = correlation_id t"
  using pool_reach_inv [OF assms(1,2)] assms(3) by (fastforce simp: pool_inv_def answer_ok_def from_engine_def)

section \<open>Routing\<close>

lemma least_loaded_None: "least_loaded ws i = None \<longleftrightarrow> (\<forall>w\<in>set ws. \<not> w_alive w)"
proof (induction ws arbitrary: i)
  case (Cons w ws)
  show ?case using Cons.IH [of "Suc i"] by (cases "least_loaded ws (Suc i)") (auto split: if_splits)
qed simp

lemma least_loaded_Some:
  "least_loaded ws i = Some (j, n) \<Longrightarrow> i \<le> j \<and> j - i < length ws \<and> w_alive (ws ! (j - i)) \<and> n = w_in_flight (ws ! (j - i))
     \<and> (\<forall>w\<in>set ws. w_alive w \<longrightarrow> n \<le> w_in_flight w)"
proof (induction ws arbitrary: i j n)
  case (Cons w ws)
  show ?case
  proof (cases "least_loaded ws (Suc i)")
    case None
    then show ?thesis using Cons.prems least_loaded_None [of ws "Suc i"] by (auto split: if_splits)
  next
    case (Some x)
    then obtain k m where k: "least_loaded ws (Suc i) = Some (k, m)" by (cases x) auto
    note ih = Cons.IH [OF k]
    show ?thesis using Cons.prems k ih by (auto simp: nth_Cons' split: if_splits)
  qed
qed simp

text \<open>
  C33: routing. A tenant stays on its worker while that worker is alive and has room in its queue;
  otherwise, if any worker is alive, the tenant is moved to a live worker with the fewest queries in
  flight, and stays there for the next request.
\<close>

theorem select_worker_routes:
  assumes "select_worker E tenant p = (wid, p')"
  shows "(\<forall>i. map_of (tenant_affinity p) tenant = Some i \<and> i < length (workers p) \<and> w_alive (workers p ! i)
            \<and> length (w_queue (workers p ! i)) < queue_depth (pe_config E) \<longrightarrow> wid = i \<and> p' = p)
    \<and> (pinned E p tenant = None \<longrightarrow> map_of (tenant_affinity p') tenant = Some wid)
    \<and> ((\<exists>w\<in>set (workers p). w_alive w) \<longrightarrow> wid < length (workers p) \<and> w_alive (workers p ! wid)
         \<and> (pinned E p tenant = None \<longrightarrow> (\<forall>w\<in>set (workers p). w_alive w \<longrightarrow> w_in_flight (workers p ! wid) \<le> w_in_flight w)))"
proof (cases "pinned E p tenant")
  case (Some i)
  then show ?thesis using assms by (auto simp: select_worker_def pinned_def split: option.splits if_splits)
next
  case None
  show ?thesis
  proof (cases "least_loaded (workers p) 0")
    case None': None
    then show ?thesis using assms None least_loaded_None [of "workers p" 0]
      by (auto simp: select_worker_def pinned_def update_conv' split: option.splits if_splits)
  next
    case (Some x)
    then obtain j n where j: "least_loaded (workers p) 0 = Some (j, n)" by (cases x) auto
    then show ?thesis using assms None least_loaded_Some [OF j]
      by (auto simp: select_worker_def pinned_def update_conv' split: option.splits if_splits)
  qed
qed

section \<open>A run\<close>

definition pool_ref :: "(string list, nat \<times> (cache_key \<times> cache_entry) list) pool_env" where
  "pool_ref = \<lparr>pe_session = session_ref, pe_lru = lru_ref, pe_cache_config = default_cache_config, pe_crypto = crypto_ref,
     pe_buffers = (\<lambda>_. []), pe_config = \<lparr>worker_count = 1, queue_depth = 2, drain_timeout_secs = 30, heartbeat_secs = 30\<rparr>,
     pe_init = config_ref, pe_bundle = Some (from_x02_bytes 0 ''c'' ''t'' ''b'')\<rparr>"

definition demo_task :: query_task where
  "demo_task = \<lparr>task_id = 1, task_sql = ''SELECT 1'', task_tenant = ''t'', principal_jwt = ''j'', correlation_id = ''k''\<rparr>"

lemma pool_ref_lru: "\<exists>okl. pool_lru_spec pool_ref okl"
  using lru_spec_ref by (auto simp: pool_ref_def)

definition demo_engine :: "string list k04d_engine" where
  "demo_engine = inject_contract_bundle (from_x02_bytes 0 ''c'' ''t'' ''b'') \<lparr>ke_config = config_ref, ke_bundle = None, ke_ctx = None\<rparr>"

definition demo_cache :: "(nat \<times> (cache_key \<times> cache_entry) list) query_cache" where
  "demo_cache = new_cache lru_ref default_cache_config"

definition demo_worker :: "query_task list \<Rightarrow> nat \<Rightarrow> string list phase \<Rightarrow> string list worker" where
  "demo_worker q n ph = \<lparr>w_queue = q, w_in_flight = n, w_alive = True, w_phase = ph\<rparr>"

definition demo_pool :: "string list worker \<Rightarrow> (string \<times> nat) list \<Rightarrow> query_task list \<Rightarrow> query_task list \<Rightarrow> (string list, nat \<times> (cache_key \<times> cache_entry) list) pool" where
  "demo_pool w a sub done = \<lparr>workers = [w], tenant_affinity = a, shutdown_flag = False, pool_cache = demo_cache,
     submitting = sub, submitted = done, refused = [], replies = [], dropped = [], executed = []\<rparr>"

lemmas demo_simps = demo_pool_def demo_worker_def set_worker_def pool_ref_def

lemma demo_sent: "pool_reach pool_ref (demo_pool (demo_worker [demo_task] 0 (Idle demo_engine)) [(''t'', 0)] [] [demo_task])"
proof -
  let ?I = "demo_worker [] 0 (Idle demo_engine)"
  have r0: "pool_reach pool_ref (demo_pool (demo_worker [] 0 Starting) [] [] [])"
    by (rule pool_reach.init) (simp add: start_pool_def demo_simps demo_cache_def)
  have boot: "worker_boot pool_ref (demo_worker [] 0 Starting) = ?I"
    by (simp add: worker_boot_def new_with_config_def validate_def config_ref_def demo_simps demo_engine_def)
  have "pool_step pool_ref (demo_pool (demo_worker [] 0 Starting) [] [] []) (demo_pool ?I [] [] [])"
    using pool_step.boot [of 0 "demo_pool (demo_worker [] 0 Starting) [] [] []" "demo_worker [] 0 Starting" pool_ref] boot
    by (simp add: demo_pool_def demo_worker_def set_worker_def)
  note r1 = pool_reach.step [OF r0 this]
  have "pool_step pool_ref (demo_pool ?I [] [] []) (demo_pool ?I [] [demo_task] [demo_task])"
    using pool_step.accept [of "demo_pool ?I [] [] []" pool_ref demo_task] by (simp add: demo_pool_def)
  note r2 = pool_reach.step [OF r1 this]
  have "submit_send pool_ref demo_task (demo_pool ?I [] [demo_task] [demo_task])
      = Some (Inr (), demo_pool (demo_worker [demo_task] 0 (Idle demo_engine)) [(''t'', 0)] [demo_task] [demo_task])"
    by (simp add: submit_send_def select_worker_def pinned_def try_send_def receiver_open_def demo_simps demo_task_def)
  from pool_step.send [OF _ this] have "pool_step pool_ref (demo_pool ?I [] [demo_task] [demo_task])
      (demo_pool (demo_worker [demo_task] 0 (Idle demo_engine)) [(''t'', 0)] [] [demo_task])"
    by (simp add: demo_pool_def)
  from pool_reach.step [OF r2 this] show ?thesis .
qed

abbreviation demo_state :: "query_task list \<Rightarrow> nat \<Rightarrow> string list phase \<Rightarrow> (string list, nat \<times> (cache_key \<times> cache_entry) list) pool" where
  "demo_state q n ph \<equiv> demo_pool (demo_worker q n ph) [(''t'', 0)] [] [demo_task]"

lemma demo_waiting: "pool_reach pool_ref (demo_state [demo_task] 0 (Waiting demo_engine))"
proof -
  have "pool_step pool_ref (demo_state [demo_task] 0 (Idle demo_engine)) (demo_state [demo_task] 0 (Waiting demo_engine))"
    using pool_step.wait [of 0 "demo_state [demo_task] 0 (Idle demo_engine)" "demo_worker [demo_task] 0 (Idle demo_engine)" demo_engine pool_ref]
    by (simp add: demo_pool_def demo_worker_def set_worker_def)
  from pool_reach.step [OF demo_sent this] show ?thesis .
qed

lemma demo_busy: "pool_reach pool_ref (demo_state [] 1 (Busy demo_engine demo_task))"
proof -
  have "pool_step pool_ref (demo_state [demo_task] 0 (Waiting demo_engine)) (demo_state [] 1 (Busy demo_engine demo_task))"
    using pool_step.recv [of 0 "demo_state [demo_task] 0 (Waiting demo_engine)" "demo_worker [demo_task] 0 (Waiting demo_engine)" demo_engine demo_task "[]" pool_ref]
    by (simp add: demo_pool_def demo_worker_def set_worker_def)
  from pool_reach.step [OF demo_waiting this] show ?thesis .
qed

lemma demo_executed: "\<exists>e1 p1. pool_reach pool_ref p1 \<and> workers p1 = [demo_worker [] 0 (Publishing e1 demo_task
    (Inr \<lparr>qr_batches = [], qr_attestation_jws = ''placeholder.k.jws'', qr_correlation_id = ''k''\<rparr>))] \<and> pool_cache p1 = demo_cache"
proof -
  let ?B = "demo_state [] 1 (Busy demo_engine demo_task)"
  have "reject_unsafe_ddl ''SELECT 1'' = Inr ()" by code_simp
  then have "admitted ''SELECT 1'' demo_engine"
    by (simp add: admitted_def has_contract_bundle_def inject_contract_bundle_def demo_engine_def)
  then obtain e1 where q: "shell_query (pe_session pool_ref) ''SELECT 1'' demo_engine = (Inr [], e1)"
    using shell_query_admitted [of "''SELECT 1''" demo_engine "pe_session pool_ref"] by (auto simp: session_ref_def pool_ref_def)
  have g: "cache_get (pe_lru pool_ref) (pe_cache_config pool_ref) (pe_crypto pool_ref) 0 ''t'' ''SELECT 1'' demo_cache = (None, demo_cache)"
    by (simp add: cache_get_def Let_def demo_cache_def new_cache_def pool_ref_def lru_ref_def)
  have x: "execute_query_task pool_ref 0 demo_task demo_engine demo_cache = (Inr ([], ''placeholder.k.jws''), e1, demo_cache)"
    by (simp add: execute_query_task_def demo_task_def g q)
  have ck: "correlation_id demo_task = ''k''" by (simp add: demo_task_def)
  let ?p1 = "worker_exec pool_ref 0 0 demo_engine demo_task ?B"
  have "pool_step pool_ref ?B ?p1"
    by (rule pool_step.exec [where w = "demo_worker [] 1 (Busy demo_engine demo_task)"]) (simp_all add: demo_pool_def demo_worker_def)
  note r5 = pool_reach.step [OF demo_busy this]
  have "workers ?p1 = [demo_worker [] 0 (Publishing e1 demo_task
      (Inr \<lparr>qr_batches = [], qr_attestation_jws = ''placeholder.k.jws'', qr_correlation_id = ''k''\<rparr>))] \<and> pool_cache ?p1 = demo_cache"
    using x ck by (simp add: worker_exec_def demo_pool_def demo_worker_def set_worker_def to_query_result_def Let_def)
  with r5 show ?thesis by blast
qed

lemma demo_run: "\<exists>p r. pool_reach pool_ref p \<and> (demo_task, Inr r) \<in> set (replies p)"
proof -
  define r where "r = \<lparr>qr_batches = [], qr_attestation_jws = ''placeholder.k.jws'', qr_correlation_id = ''k''\<rparr>"
  obtain e1 p1 where p1: "pool_reach pool_ref p1" "workers p1 = [demo_worker [] 0 (Publishing e1 demo_task (Inr r))]" "pool_cache p1 = demo_cache"
    using demo_executed unfolding r_def by blast
  obtain okl where l: "pool_lru_spec pool_ref okl" using pool_ref_lru by blast
  have "cache_inv (pe_lru pool_ref) okl Map.empty demo_cache"
    using new_cache_inv [OF l] by (simp add: demo_cache_def pool_ref_def)
  from cache_put_inv [OF l this, of "pe_cache_config pool_ref" "pe_crypto pool_ref" "pe_buffers pool_ref" 0 "task_tenant demo_task" "task_sql demo_task"]
  obtain p2 where p2: "worker_publish pool_ref 0 0 e1 demo_task (Inr r) p1 = Some p2" using p1(3) unfolding worker_publish_def by fastforce
  then have "(demo_task, Inr r) \<in> set (replies p2)" by (auto simp: worker_publish_def)
  moreover have "pool_step pool_ref p1 p2"
    by (rule pool_step.publish [OF _ refl _ p2]) (simp_all add: p1(2) demo_worker_def)
  ultimately show ?thesis using pool_reach.step [OF p1(1)] by blast
qed

theorem pool_serves_enforced_witness:
  "\<exists>p r sql. pool_reach pool_ref p \<and> (demo_task, Inr r) \<in> set (replies p) \<and> (task_tenant demo_task, sql, qr_batches r) \<in> set (executed p)
     \<and> reject_unsafe_ddl sql = Inr ()"
proof -
  obtain okl where l: "pool_lru_spec pool_ref okl" using pool_ref_lru by blast
  obtain p r where "pool_reach pool_ref p" "(demo_task, Inr r) \<in> set (replies p)" using demo_run by blast
  with pool_serves_enforced [OF l this] show ?thesis by blast
qed

theorem pool_accounts_for_tasks_witness:
  "\<exists>p r. (demo_task, Inr r) \<in> set (replies p)
     \<and> mset (submitted p) = mset (submitting p) + held (workers p) + mset (map fst (replies p)) + mset (map fst (refused p)) + mset (dropped (p :: (string list, nat \<times> (cache_key \<times> cache_entry) list) pool))"
proof -
  obtain p r where "pool_reach pool_ref p" "(demo_task, Inr r) \<in> set (replies p)" using demo_run by blast
  with pool_accounts_for_tasks [of pool_ref p] show ?thesis by blast
qed

theorem select_worker_routes_witness:
  "map_of (tenant_affinity (snd (select_worker pool_ref ''t'' \<lparr>workers = [\<lparr>w_queue = [], w_in_flight = 0, w_alive = True, w_phase = Starting\<rparr>],
     tenant_affinity = [], shutdown_flag = False, pool_cache = new_cache lru_ref default_cache_config, submitting = [], submitted = [], refused = [],
     replies = [], dropped = [], executed = []\<rparr>))) ''t'' = Some 0"
  (is "map_of (tenant_affinity (snd (select_worker pool_ref ''t'' ?p))) ''t'' = Some 0")
proof -
  have "select_worker pool_ref ''t'' ?p = (0, ?p\<lparr>tenant_affinity := [(''t'', 0)]\<rparr>)"
    by (simp add: select_worker_def pinned_def)
  moreover from select_worker_routes [OF this] have "map_of (tenant_affinity (?p\<lparr>tenant_affinity := [(''t'', 0)]\<rparr>)) ''t'' = Some 0"
    by (simp add: pinned_def)
  ultimately show ?thesis by simp
qed

end
