(* ===== verification/Pool_Shutdown.thy ===== *)
theory Pool_Shutdown
  imports Worker_Pool
begin

text \<open>
  Shutting the pool of \<open>src/src/long_running_pool_manager.rs\<close> down: the call of \<open>shutdown\<close>, which sets the
  flag and then polls the workers' counters until a deadline, beside the steps of the pool and the clock;
  what the workers still do once the flag is set; and what a worker that panicked leaves behind.
\<close>

section \<open>The call of shutdown\<close>

datatype drain_outcome = Drained | TimedOut nat

text \<open>
  Where the call stands: the flag is set but the deadline not yet taken; summing up the counters, one
  load at a time (deadline, next worker, sum so far); asleep until a time; returned. Instants are in
  nanoseconds.
\<close>

datatype shutdown_call =
    NotCalled
  | Flagged
  | Summing nat nat nat
  | Sleeping nat nat
  | Returned drain_outcome

definition from_secs :: "nat \<Rightarrow> nat" where
  "from_secs n = n * 1000000000"

definition from_millis :: "nat \<Rightarrow> nat" where
  "from_millis n = n * 1000000"

text \<open>The next action of the call, if it does not have to wait for the clock.\<close>

fun shutdown_poll :: "pool_config \<Rightarrow> nat \<Rightarrow> ('x, 'c) pool \<Rightarrow> shutdown_call \<Rightarrow> shutdown_call option" where
  "shutdown_poll cfg now p Flagged = Some (Summing (now + from_secs (drain_timeout_secs cfg)) 0 0)"
| "shutdown_poll cfg now p (Summing deadline i acc) = Some (
     if i < length (workers p) then Summing deadline (Suc i) (acc + w_in_flight (workers p ! i))
     else if acc = 0 then Returned Drained
     else if deadline \<le> now then Returned (TimedOut acc)
     else Sleeping deadline (now + from_millis 200))"
| "shutdown_poll cfg now p (Sleeping deadline wake) = (if wake \<le> now then Some (Summing deadline 0 0) else None)"
| "shutdown_poll cfg now p _ = None"

text \<open>The pool, the clock and one call of \<open>shutdown\<close>; \<open>run_polls\<close> counts the actions of the call.\<close>

record ('x, 'c) run =
  run_pool :: "('x, 'c) pool"
  run_clock :: nat
  run_call :: shutdown_call
  run_polls :: nat

definition start_run :: "nat \<Rightarrow> ('x, 'c) pool \<Rightarrow> ('x, 'c) run" where
  "start_run now p = \<lparr>run_pool = p, run_clock = now, run_call = NotCalled, run_polls = 0\<rparr>"

inductive run_step :: "('x, 'c) pool_env \<Rightarrow> ('x, 'c) run \<Rightarrow> ('x, 'c) run \<Rightarrow> bool" for E where
  pool: "pool_step E (run_pool r) p \<Longrightarrow> run_step E r (r\<lparr>run_pool := p\<rparr>)"
| tick: "run_clock r \<le> now \<Longrightarrow> run_step E r (r\<lparr>run_clock := now\<rparr>)"
| call: "run_call r = NotCalled \<Longrightarrow> run_step E r (r\<lparr>run_pool := (run_pool r)\<lparr>shutdown_flag := True\<rparr>, run_call := Flagged\<rparr>)"
| poll: "shutdown_poll (pe_config E) (run_clock r) (run_pool r) (run_call r) = Some c \<Longrightarrow>
    run_step E r (r\<lparr>run_call := c, run_polls := Suc (run_polls r)\<rparr>)"

inductive run_reach :: "('x, 'c) pool_env \<Rightarrow> ('x, 'c) run \<Rightarrow> bool" for E where
  init: "pool_reach E p \<Longrightarrow> \<not> shutdown_flag p \<Longrightarrow> run_reach E (start_run now p)"
| step: "run_reach E r \<Longrightarrow> run_step E r r' \<Longrightarrow> run_reach E r'"

section \<open>What a step does to one worker\<close>

inductive worker_move :: "('x, 'c) pool_env \<Rightarrow> bool \<Rightarrow> 'x worker \<Rightarrow> 'x worker \<Rightarrow> bool" for E flag where
  boot: "w_phase w = Starting \<Longrightarrow> worker_move E flag w (worker_boot E w)"
| enqueue: "receiver_open w \<Longrightarrow> worker_move E flag w (w\<lparr>w_queue := q\<rparr>)"
| wait: "w_phase w = Idle e \<Longrightarrow> \<not> flag \<Longrightarrow> worker_move E flag w (w\<lparr>w_phase := Waiting e\<rparr>)"
| recv_timeout: "w_phase w = Waiting e \<Longrightarrow> worker_move E flag w (w\<lparr>w_phase := Idle e\<rparr>)"
| recv: "w_phase w = Waiting e \<Longrightarrow> worker_move E flag w (w\<lparr>w_queue := q, w_in_flight := w_in_flight w + 1, w_phase := Busy e t\<rparr>)"
| exec: "w_phase w = Busy e t \<Longrightarrow> worker_move E flag w (w\<lparr>w_in_flight := w_in_flight w - 1, w_phase := Publishing e' t r\<rparr>)"
| publish: "w_phase w = Publishing e t r \<Longrightarrow> worker_move E flag w (w\<lparr>w_phase := Idle e\<rparr>)"
| drain: "w_phase w = Idle e \<Longrightarrow> worker_move E flag w (w\<lparr>w_queue := [], w_phase := Draining\<rparr>)"
| stop: "w_phase w = Draining \<Longrightarrow> worker_move E flag w (w\<lparr>w_queue := [], w_alive := False, w_phase := Stopped\<rparr>)"
| crash: "w_phase w = Busy e t \<Longrightarrow> worker_move E flag w (w\<lparr>w_queue := [], w_phase := Crashed\<rparr>)"

lemma pool_step_moves:
  assumes "pool_step E p p'"
  obtains (same) "workers p' = workers p"
  | (move) i w where "i < length (workers p)" "worker_move E (shutdown_flag p) (workers p ! i) w" "workers p' = (workers p)[i := w]"
  using assms
proof (cases rule: pool_step.cases)
  case (send t p1)
  from send(3) show ?thesis
  proof (cases rule: submit_send_cases)
    case (sent a i)
    then show ?thesis using send move [OF sent(2) worker_move.enqueue [OF sent(3)]] by simp
  qed simp
next
  case (send_full t err p1)
  from send_full(3) show ?thesis
    by (cases rule: submit_send_cases) (use send_full same in auto)
next
  case (exec i w e t now)
  obtain r e' c where x: "execute_query_task E now t e (pool_cache p) = (r, e', c)" by (metis prod_cases3)
  then have "workers p' = (workers p)[i := (workers p ! i)\<lparr>w_in_flight := w_in_flight (workers p ! i) - 1, w_phase := Publishing e' t (to_query_result t r)\<rparr>]"
    using exec by (simp add: worker_exec_def Let_def)
  then show ?thesis using move [of i] exec worker_move.exec [of w e t E "shutdown_flag p"] by auto
next
  case (publish i w e t r now)
  then show ?thesis using move [of i] worker_move.publish [of w e t r E "shutdown_flag p"] by (auto simp: worker_publish_def)
next
  case (boot i w)
  then show ?thesis using move [of i] worker_move.boot [of w E "shutdown_flag p"] by auto
next
  case (wait i w e)
  then show ?thesis using move [of i] worker_move.wait [of w e "shutdown_flag p" E] by auto
next
  case (recv_timeout i w e)
  then show ?thesis using move [of i] worker_move.recv_timeout [of w e E "shutdown_flag p"] by auto
next
  case (recv i w e t q)
  then show ?thesis using move [of i] worker_move.recv [of w e E "shutdown_flag p" t q] by auto
next
  case (drain i w e)
  then show ?thesis using move [of i] worker_move.drain [of w e E "shutdown_flag p"] by auto
next
  case (stop i w)
  then show ?thesis using move [of i] worker_move.stop [of w E "shutdown_flag p"] by auto
next
  case (crash i w e t)
  then show ?thesis using move [of i] worker_move.crash [of w e t E "shutdown_flag p"] by auto
qed (use same in \<open>auto simp: refresh_contract_bundle_def\<close>)

text \<open>An invariant of single workers is one of all reachable pools.\<close>

lemma pool_reach_workers:
  assumes "pool_reach E p"
    and start: "P \<lparr>w_queue = [], w_in_flight = 0, w_alive = True, w_phase = Starting\<rparr>"
    and moves: "\<And>f w w'. worker_move E f w w' \<Longrightarrow> P w \<Longrightarrow> P w'"
  shows "length (workers p) = worker_count (pe_config E) \<and> (\<forall>w\<in>set (workers p). P w)"
  using assms(1)
proof (induction rule: pool_reach.induct)
  case (init p)
  then show ?case using start by (auto simp: start_pool_def split: if_splits)
next
  case (step p p')
  from step(2) show ?case
  proof (cases rule: pool_step_moves)
    case (move i w)
    then have "P w" using step(3) moves by fastforce
    then show ?thesis using step(3) move set_update_subset_insert [of "workers p" i w] by auto
  qed (use step in simp)
qed

text \<open>The counter is 1 exactly while a task is executed, and stays at 1 when the worker panics meanwhile.\<close>

definition worker_wf :: "'x worker \<Rightarrow> bool" where
  "worker_wf w \<longleftrightarrow> w_in_flight w = (case w_phase w of Busy _ _ \<Rightarrow> 1 | Crashed \<Rightarrow> 1 | _ \<Rightarrow> 0)
     \<and> (w_alive w \<longleftrightarrow> w_phase w \<noteq> Stopped) \<and> (\<not> receiver_open w \<longrightarrow> w_queue w = [])"

lemma worker_move_wf: "worker_move E f w w' \<Longrightarrow> worker_wf w \<Longrightarrow> worker_wf w'"
  by (induction rule: worker_move.induct) (auto simp: worker_wf_def worker_boot_def receiver_open_def split: sum.splits)

lemma pool_reach_wf:
  "pool_reach E p \<Longrightarrow> length (workers p) = worker_count (pe_config E) \<and> (\<forall>w\<in>set (workers p). worker_wf w)"
  by (erule pool_reach_workers [where P = worker_wf]) (simp_all add: worker_wf_def receiver_open_def worker_move_wf [unfolded worker_wf_def receiver_open_def])

lemma run_reach_pool: "run_reach E r \<Longrightarrow> pool_reach E (run_pool r)"
proof (induction rule: run_reach.induct)
  case (step r r')
  from step(2) show ?case
    by (cases rule: run_step.cases) (use step(3) in \<open>auto intro: pool_reach.step pool_step.set_shutdown\<close>)
qed (simp add: start_run_def)

section \<open>The call returns\<close>

text \<open>
  After \<open>k\<close> rounds of polling, each of one load a worker, a decision and the wake-up, no less than
  \<open>k\<close> times 200 ms have passed, and a further round needs a decision before the deadline.
\<close>

definition call_inv :: "('x, 'c) pool_env \<Rightarrow> ('x, 'c) run \<Rightarrow> bool" where
  "call_inv E r \<longleftrightarrow> (case run_call r of
      NotCalled \<Rightarrow> run_polls r = 0
    | Flagged \<Rightarrow> run_polls r = 0
    | Summing d i acc \<Rightarrow> i \<le> worker_count (pe_config E) \<and> acc \<le> i \<and> (\<exists>k \<le> 5 * drain_timeout_secs (pe_config E).
        run_polls r = 1 + k * (worker_count (pe_config E) + 2) + i \<and> d + k * from_millis 200 \<le> run_clock r + from_secs (drain_timeout_secs (pe_config E)))
    | Sleeping d wake \<Rightarrow> (\<exists>k < 5 * drain_timeout_secs (pe_config E).
        run_polls r = 1 + k * (worker_count (pe_config E) + 2) + worker_count (pe_config E) + 1
        \<and> d + Suc k * from_millis 200 \<le> wake + from_secs (drain_timeout_secs (pe_config E)))
    | Returned out \<Rightarrow> run_polls r \<le> 1 + (5 * drain_timeout_secs (pe_config E) + 1) * (worker_count (pe_config E) + 2)
        \<and> (case out of Drained \<Rightarrow> True | TimedOut n \<Rightarrow> 0 < n \<and> n \<le> worker_count (pe_config E)))"

lemma secs_millis: "from_secs n = 5 * n * from_millis 200"
  by (simp add: from_secs_def from_millis_def)

lemma poll_call_inv:
  assumes "call_inv E r" and n: "length (workers (run_pool r)) = worker_count (pe_config E)" "\<forall>w\<in>set (workers (run_pool r)). w_in_flight w \<le> 1"
    and p: "shutdown_poll (pe_config E) (run_clock r) (run_pool r) (run_call r) = Some c"
  shows "call_inv E (r\<lparr>run_call := c, run_polls := Suc (run_polls r)\<rparr>)"
proof (cases "run_call r")
  case Flagged
  then show ?thesis using assms(1) p by (auto simp: call_inv_def)
next
  case (Summing d i acc)
  then obtain k where k: "i \<le> worker_count (pe_config E)" "acc \<le> i" "k \<le> 5 * drain_timeout_secs (pe_config E)"
    "run_polls r = 1 + k * (worker_count (pe_config E) + 2) + i" "d + k * from_millis 200 \<le> run_clock r + from_secs (drain_timeout_secs (pe_config E))"
    using assms(1) by (auto simp: call_inv_def)
  have r: "k * (worker_count (pe_config E) + 2) \<le> 5 * drain_timeout_secs (pe_config E) * (worker_count (pe_config E) + 2)" using k(3) by (rule mult_le_mono1)
  show ?thesis
  proof (cases "i < worker_count (pe_config E)")
    case True
    then have "w_in_flight (workers (run_pool r) ! i) \<le> 1" using n by simp
    then show ?thesis using True Summing p k n(1) by (auto simp: call_inv_def intro!: exI [of _ k])
  next
    case False
    then have i: "i = worker_count (pe_config E)" using k(1) by simp
    show ?thesis
    proof (cases "acc = 0 \<or> d \<le> run_clock r")
      case True
      then show ?thesis using i Summing p k n(1) r by (auto simp: call_inv_def algebra_simps split: if_splits)
    next
      case False
      then have "k * from_millis 200 < 5 * drain_timeout_secs (pe_config E) * from_millis 200" using k(5) unfolding secs_millis by linarith
      then have "k < 5 * drain_timeout_secs (pe_config E)" by simp
      then show ?thesis using False i Summing p k n(1) by (auto simp: call_inv_def intro!: exI [of _ k])
    qed
  qed
next
  case (Sleeping d wake)
  then obtain k where k: "k < 5 * drain_timeout_secs (pe_config E)"
    "run_polls r = 1 + k * (worker_count (pe_config E) + 2) + worker_count (pe_config E) + 1"
    "d + Suc k * from_millis 200 \<le> wake + from_secs (drain_timeout_secs (pe_config E))"
    using assms(1) by (auto simp: call_inv_def)
  then have "d + Suc k * from_millis 200 \<le> run_clock r + from_secs (drain_timeout_secs (pe_config E))" using Sleeping p by (auto split: if_splits)
  then show ?thesis using Sleeping p k by (auto simp: call_inv_def split: if_splits intro!: exI [of _ "Suc k"])
qed (use p in auto)

lemma run_reach_call: "run_reach E r \<Longrightarrow> call_inv E r"
proof (induction rule: run_reach.induct)
  case (step r r')
  note wf = pool_reach_wf [OF run_reach_pool [OF step(1)]]
  from step(2) show ?case
  proof (cases rule: run_step.cases)
    case (poll c)
    have "\<forall>w\<in>set (workers (run_pool r)). w_in_flight w \<le> 1"
      using wf by (auto simp: worker_wf_def split: phase.splits)
    then show ?thesis using poll_call_inv [OF step(3) _ _ poll(2)] wf poll(1) by simp
  qed (use step(3) in \<open>auto simp: call_inv_def split: shutdown_call.splits\<close>)
qed (simp add: start_run_def call_inv_def)

text \<open>
  C31: \<open>shutdown\<close> returns. Whatever workers, callers and clock do meanwhile, the call takes at most
  (5 * timeout + 1) * (workers + 2) + 1 actions, and until it has returned its next action is possible at
  once or as soon as the clock has advanced by enough; when it gives up, at least one and at most all of
  the workers were counted as busy.
\<close>

theorem shutdown_returns:
  assumes "run_reach E r"
  shows "run_polls r \<le> 1 + (5 * drain_timeout_secs (pe_config E) + 1) * (worker_count (pe_config E) + 2)
    \<and> (run_call r \<noteq> NotCalled \<and> (\<forall>out. run_call r \<noteq> Returned out) \<longrightarrow>
        (\<exists>wait. shutdown_poll (pe_config E) (run_clock r + wait) (run_pool r) (run_call r) \<noteq> None))
    \<and> (\<forall>n. run_call r = Returned (TimedOut n) \<longrightarrow> 0 < n \<and> n \<le> worker_count (pe_config E))"
proof -
  have le: "k \<le> 5 * T \<Longrightarrow> k * (w + 2) \<le> 5 * T * (w + 2)" for k T w :: nat by (rule mult_le_mono1)
  show ?thesis
  proof (cases "run_call r")
    case (Sleeping d wake)
    then obtain k where "k < 5 * drain_timeout_secs (pe_config E)"
      "run_polls r = 1 + k * (worker_count (pe_config E) + 2) + worker_count (pe_config E) + 1"
      using run_reach_call [OF assms] by (auto simp: call_inv_def)
    moreover have "wake \<le> run_clock r + wake" by simp
    ultimately show ?thesis using Sleeping le [of k "drain_timeout_secs (pe_config E)" "worker_count (pe_config E)"]
      by (auto simp: algebra_simps intro!: exI [of _ wake])
  next
    case (Summing d i acc)
    then obtain k where "k \<le> 5 * drain_timeout_secs (pe_config E)" "i \<le> worker_count (pe_config E)"
      "run_polls r = 1 + k * (worker_count (pe_config E) + 2) + i"
      using run_reach_call [OF assms] by (auto simp: call_inv_def)
    then show ?thesis using Summing le [of k "drain_timeout_secs (pe_config E)" "worker_count (pe_config E)"] by (auto simp: algebra_simps)
  qed (use run_reach_call [OF assms] in \<open>auto simp: call_inv_def split: drain_outcome.splits\<close>)
qed

section \<open>The workers after the flag is set\<close>

text \<open>How many turns a worker has left, and how many tasks it can still answer, once the flag is set.\<close>

fun turns_left :: "'x phase \<Rightarrow> nat" where
  "turns_left (Waiting _) = 5"
| "turns_left (Busy _ _) = 4"
| "turns_left (Publishing _ _ _) = 3"
| "turns_left Starting = 3"
| "turns_left (Idle _) = 2"
| "turns_left Draining = 1"
| "turns_left _ = 0"

fun answers_left :: "'x phase \<Rightarrow> nat" where
  "answers_left (Waiting _) = 1"
| "answers_left (Busy _ _) = 1"
| "answers_left (Publishing _ _ _) = 1"
| "answers_left _ = 0"

text \<open>Replies that are not the refusal of a pool that shuts down.\<close>

definition served :: "('x, 'c) pool \<Rightarrow> nat" where
  "served p = length (filter (\<lambda>(t, r). r \<noteq> Inl PoolShutdown) (replies p))"

definition phases :: "('x, 'c) pool \<Rightarrow> 'x phase list" where
  "phases p = map w_phase (workers p)"

text \<open>A sequence of steps of the pool in which \<open>n\<close> turns of workers are taken.\<close>

inductive pool_turns :: "('x, 'c) pool_env \<Rightarrow> ('x, 'c) pool \<Rightarrow> nat \<Rightarrow> ('x, 'c) pool \<Rightarrow> bool" for E p where
  none: "pool_turns E p 0 p"
| turn: "pool_turns E p n q \<Longrightarrow> pool_step E q q' \<Longrightarrow> phases q \<noteq> phases q' \<Longrightarrow> pool_turns E p (Suc n) q'"
| other: "pool_turns E p n q \<Longrightarrow> pool_step E q q' \<Longrightarrow> phases q = phases q' \<Longrightarrow> pool_turns E p n q'"

lemma pool_step_flag: "pool_step E p p' \<Longrightarrow> shutdown_flag p \<Longrightarrow> shutdown_flag p'"
proof (induction rule: pool_step.induct)
  case (exec i p w e t now)
  then show ?case by (simp add: worker_exec_def Let_def split: prod.splits)
next
  case (send t p p')
  from send(2) show ?case by (cases rule: submit_send_cases) (use send(3) in auto)
next
  case (send_full t p err p')
  from send_full(2) show ?case by (cases rule: submit_send_cases) (use send_full(3) in auto)
qed (auto simp: worker_publish_def refresh_contract_bundle_def)

lemma worker_move_turns:
  "worker_move E True w w' \<Longrightarrow> (w_phase w' = w_phase w \<or> turns_left (w_phase w') < turns_left (w_phase w))
     \<and> answers_left (w_phase w') \<le> answers_left (w_phase w)"
  by (induction rule: worker_move.induct) (auto simp: worker_boot_def split: sum.splits)

lemma sum_list_update_less:
  "i < length xs \<Longrightarrow> f y < f (xs ! i) \<Longrightarrow> sum_list (map f (xs[i := y])) < (sum_list (map f xs) :: nat)"
  by (induction xs arbitrary: i) (auto split: nat.splits)

lemma sum_list_update_le:
  "i < length xs \<Longrightarrow> f y \<le> f (xs ! i) \<Longrightarrow> sum_list (map f (xs[i := y])) \<le> (sum_list (map f xs) :: nat)"
  by (induction xs arbitrary: i) (auto split: nat.splits)

lemma step_turns:
  assumes "pool_step E p p'" "shutdown_flag p"
  shows "phases p' = phases p \<or> sum_list (map turns_left (phases p')) < sum_list (map turns_left (phases p))"
  using assms(1)
proof (cases rule: pool_step_moves)
  case (move i w)
  then have "w_phase w = w_phase (workers p ! i) \<or> turns_left (w_phase w) < turns_left (w_phase (workers p ! i))"
    using worker_move_turns assms(2) by fastforce
  then show ?thesis
    using move sum_list_update_less [of i "phases p" turns_left "w_phase w"] list_update_id [of "phases p" i]
    by (auto simp: phases_def map_update nth_map)
qed (simp add: phases_def)

lemma step_answers:
  assumes "pool_step E p p'" "shutdown_flag p"
  shows "sum_list (map answers_left (phases p')) \<le> sum_list (map answers_left (phases p))"
  using assms(1)
proof (cases rule: pool_step_moves)
  case (move i w)
  then have "answers_left (w_phase w) \<le> answers_left (w_phase (workers p ! i))"
    using worker_move_turns assms(2) by fastforce
  then show ?thesis using move sum_list_update_le [of i "phases p" answers_left "w_phase w"]
    by (simp add: phases_def map_update)
qed (simp add: phases_def)

lemma step_served:
  assumes "pool_step E p p'" "shutdown_flag p"
  shows "served p' + sum_list (map answers_left (phases p')) \<le> served p + sum_list (map answers_left (phases p))"
  using assms(1)
proof (cases rule: pool_step.cases)
  case (publish i w e t r now)
  then have "phases p' = (phases p)[i := Idle e]" "served p' \<le> Suc (served p)" "i < length (phases p)"
      "phases p ! i = Publishing e t r"
    by (auto simp: worker_publish_def served_def phases_def map_update)
  then show ?thesis using sum_list_update_less [of i "phases p" answers_left "Idle e"] by simp
next
  case (drain i w e)
  then have "served p' = served p" by (simp add: served_def filter_map comp_def)
  then show ?thesis using step_answers [OF assms] by simp
next
  case (send t p1)
  from send(3) have "served p' = served p" by (cases rule: submit_send_cases) (use send(1) in \<open>auto simp: served_def\<close>)
  then show ?thesis using step_answers [OF assms] by simp
next
  case (send_full t err p1)
  from send_full(3) have "served p' = served p" by (cases rule: submit_send_cases) (use send_full(1) in \<open>auto simp: served_def\<close>)
  then show ?thesis using step_answers [OF assms] by simp
qed (use step_answers [OF assms] in \<open>simp_all add: served_def refresh_contract_bundle_def worker_exec_def Let_def split: prod.splits\<close>)

lemma pool_turns_bound:
  assumes "pool_turns E p n q" "shutdown_flag p"
  shows "shutdown_flag q \<and> n + sum_list (map turns_left (phases q)) \<le> sum_list (map turns_left (phases p))
    \<and> served q + sum_list (map answers_left (phases q)) \<le> served p + sum_list (map answers_left (phases p))"
  using assms(1)
proof (induction rule: pool_turns.induct)
  case (turn n q q')
  then show ?case using step_turns [of E q q'] step_served [of E q q'] pool_step_flag [of E q q'] by auto
next
  case (other n q q')
  then show ?case using step_served [of E q q'] pool_step_flag [of E q q'] by auto
qed (use assms(2) in simp)

lemma sum_list_bound:
  fixes f :: "'a \<Rightarrow> nat"
  assumes "\<And>x. f x \<le> c"
  shows "sum_list (map f xs) \<le> c * length xs"
proof (induction xs)
  case (Cons x xs)
  then show ?case using assms [of x] by simp
qed simp

lemma phase_sums: "sum_list (map turns_left phs) \<le> 5 * length phs" "sum_list (map answers_left phs) \<le> 1 * length phs"
proof -
  have "turns_left ph \<le> 5" "answers_left ph \<le> 1" for ph :: "'a phase" by (cases ph; simp)+
  then show "sum_list (map turns_left phs) \<le> 5 * length phs" "sum_list (map answers_left phs) \<le> 1 * length phs"
    using sum_list_bound by blast+
qed

lemma pool_turns_reach: "pool_turns E p n q \<Longrightarrow> pool_reach E p \<Longrightarrow> pool_reach E q"
  by (induction rule: pool_turns.induct) (auto intro: pool_reach.step)

text \<open>A worker that has not ended can take a turn by itself.\<close>

lemma publish_enabled:
  assumes "pool_lru_spec E okl" "pool_reach E p"
  shows "\<exists>p'. worker_publish E now i e t r p = Some p'"
proof (cases r)
  case (Inr ok)
  have "cache_sound E okl (from_engine E (executed p)) (pool_cache p)"
    using pool_reach_inv [OF assms] by (simp add: pool_inv_def)
  then have "cache_wf (pe_lru E) okl (pool_cache p)"
    by (simp add: result_cache.sound_def [OF pool_result_cache [OF assms(1)]])
  from result_cache.put_wf [OF pool_result_cache [OF assms(1)] this] show ?thesis
    using Inr by (fastforce simp: worker_publish_def)
qed (simp add: worker_publish_def)

lemma worker_can_turn:
  assumes "pool_lru_spec E okl" "pool_reach E p" "shutdown_flag p" "i < length (workers p)" "receiver_open (workers p ! i)"
  shows "\<exists>p'. pool_step E p p' \<and> w_phase (workers p' ! i) \<noteq> w_phase (workers p ! i)"
proof (cases "w_phase (workers p ! i)")
  case Starting
  have "w_phase (worker_boot E (workers p ! i)) \<noteq> Starting" by (simp add: worker_boot_def split: sum.splits)
  then show ?thesis using pool_step.boot [OF assms(4) refl Starting, of E] assms(4) Starting by (intro exI conjI) auto
next
  case (Idle e)
  then show ?thesis using pool_step.drain [OF assms(4) refl Idle assms(3), of E] assms(4) by (intro exI conjI) auto
next
  case (Waiting e)
  then show ?thesis using pool_step.recv_timeout [OF assms(4) refl Waiting, of E] assms(4) by (intro exI conjI) auto
next
  case (Busy e t)
  have "w_phase (workers (worker_exec E 0 i e t p) ! i) \<noteq> Busy e t"
    using assms(4) by (simp add: worker_exec_def Let_def split: prod.splits)
  then show ?thesis using pool_step.exec [OF assms(4) refl Busy, of E 0] Busy by (intro exI conjI) auto
next
  case (Publishing e t r)
  obtain p' where p': "worker_publish E 0 i e t r p = Some p'" using publish_enabled [OF assms(1,2)] by blast
  then have "w_phase (workers p' ! i) = Idle e" using assms(4) by (auto simp: worker_publish_def)
  then show ?thesis using pool_step.publish [OF assms(4) refl Publishing p'] Publishing by (intro exI conjI) auto
next
  case Draining
  then show ?thesis using pool_step.stop [OF assms(4) refl Draining, of E] assms(4) by (intro exI conjI) auto
qed (use assms(5) in \<open>simp_all add: receiver_open_def\<close>)

lemma closed_holds_nothing:
  assumes "pool_reach E p" "\<forall>w\<in>set (workers p). \<not> receiver_open w"
  shows "held (workers p) = {#}"
proof -
  have "load w = {#}" if "w \<in> set (workers p)" for w
    using that assms(2) pool_reach_wf [OF assms(1)] by (auto simp: load_def worker_wf_def receiver_open_def)
  then have "map load (workers p) = map (\<lambda>_. {#}) (workers p)" by simp
  then have "held (workers p) = sum_list (map (\<lambda>_. {#}) (workers p))" by (simp only: held_def)
  then show ?thesis by simp
qed


section \<open>What drained means\<close>

abbreviation run_steps :: "('x, 'c) pool_env \<Rightarrow> ('x, 'c) run \<Rightarrow> ('x, 'c) run \<Rightarrow> bool" where
  "run_steps E \<equiv> (run_step E)\<^sup>*\<^sup>*"

lemma run_pool_step: "run_steps E r r' \<Longrightarrow> pool_step E (run_pool r') p \<Longrightarrow> run_steps E r (r'\<lparr>run_pool := p\<rparr>)"
  by (blast intro: rtranclp.rtrancl_into_rtrancl run_step.pool)

lemma execute_not_shutdown: "execute_query_task E now t e c = (r, e', c') \<Longrightarrow> to_query_result t r \<noteq> Inl PoolShutdown"
  by (auto simp: execute_query_task_def to_query_result_def split: prod.splits option.splits sum.splits)

lemma step_run_reach: "run_reach E r \<Longrightarrow> run_steps E r r' \<Longrightarrow> run_reach E r'"
  by (rotate_tac 1, induction rule: rtranclp_induct) (auto intro: run_reach.step)

text \<open>
  C37: drained does not mean that nothing is left. The counters that \<open>shutdown\<close> adds up do not count queued
  tasks, so it can report that all queries are drained while a worker waits at a queue with a task; that
  task may still be executed afterwards and answered as if the pool were not shutting down.
\<close>

theorem drained_leaves_tasks:
  assumes "pool_lru_spec E okl" "run_reach E r" "run_call r = Returned Drained"
    and "i < length (workers (run_pool r))" "w_phase (workers (run_pool r) ! i) = Waiting e" "w_queue (workers (run_pool r) ! i) = t # q"
  shows "\<exists>r' res. run_steps E r r' \<and> run_call r' = Returned Drained \<and> (t, res) \<in> set (replies (run_pool r')) \<and> res \<noteq> Inl PoolShutdown"
proof -
  let ?p = "run_pool r" let ?w = "workers (run_pool r) ! i"
  define p1 where "p1 = set_worker i (?w\<lparr>w_queue := q, w_in_flight := w_in_flight ?w + 1, w_phase := Busy e t\<rparr>) ?p"
  obtain x e' c where x: "execute_query_task E 0 t e (pool_cache p1) = (x, e', c)" by (metis prod_cases3)
  define p2 where "p2 = worker_exec E 0 i e t p1"
  have w2: "w_phase (workers p2 ! i) = Publishing e' t (to_query_result t x)" "i < length (workers p2)"
    using assms(4) x by (simp_all add: p2_def p1_def worker_exec_def Let_def)
  have s1: "run_steps E r (r\<lparr>run_pool := p1\<rparr>)"
    unfolding p1_def by (rule run_pool_step [OF _ pool_step.recv [OF assms(4) refl assms(5,6)]]) simp
  have "pool_step E p1 p2"
    unfolding p2_def by (rule pool_step.exec [OF _ refl]) (simp_all add: p1_def assms(4))
  then have s2: "run_steps E r (r\<lparr>run_pool := p2\<rparr>)" using run_pool_step [OF s1] by simp
  have "pool_reach E p2" using run_reach_pool [OF step_run_reach [OF assms(2) s2]] by simp
  then obtain p3 where p3: "worker_publish E 0 i e' t (to_query_result t x) p2 = Some p3" using publish_enabled [OF assms(1)] by blast
  have "run_steps E r (r\<lparr>run_pool := p3\<rparr>)"
    using run_pool_step [OF s2, of p3] pool_step.publish [OF w2(2) refl w2(1) p3] by simp
  moreover have "(t, to_query_result t x) \<in> set (replies p3)" using p3 by (auto simp: worker_publish_def)
  ultimately show ?thesis using execute_not_shutdown [OF x] assms(3)
    by (intro exI [of _ "r\<lparr>run_pool := p3\<rparr>"] exI [of _ "to_query_result t x"]) simp
qed

section \<open>A worker that panicked\<close>

lemma pool_reach_depth: "pool_reach E p \<Longrightarrow> workers p \<noteq> [] \<Longrightarrow> 0 < queue_depth (pe_config E)"
proof -
  assume r: "pool_reach E p" and "workers p \<noteq> []"
  then have "0 < worker_count (pe_config E)" using pool_reach_wf [OF r] by (metis length_greater_0_conv)
  with r show ?thesis by (induction rule: pool_reach.induct) (auto simp: start_pool_def split: if_splits)
qed

lemma submit_send_affinity:
  "submit_send E t p = Some (r, p') \<Longrightarrow> tenant_affinity p' = tenant_affinity (snd (select_worker E (task_tenant t) p))"
  by (auto simp: submit_send_def split: prod.splits option.splits if_splits)

lemma select_worker_affinity:
  "pinned E p tenant = Some i \<Longrightarrow> map_of (tenant_affinity p) tenant = Some i \<Longrightarrow>
     map_of (tenant_affinity (snd (select_worker E tenant' p))) tenant = Some i"
  by (auto simp: select_worker_def update_conv' Let_def split: option.splits)

definition stuck_with :: "nat \<Rightarrow> string \<Rightarrow> ('x, 'c) pool \<Rightarrow> bool" where
  "stuck_with i tenant p \<longleftrightarrow> i < length (workers p) \<and> w_phase (workers p ! i) = Crashed \<and> map_of (tenant_affinity p) tenant = Some i"

lemma stuck_pinned:
  assumes "pool_reach E p" "stuck_with i tenant p"
  shows "pinned E p tenant = Some i" "w_in_flight (workers p ! i) = 1"
proof -
  have "worker_wf (workers p ! i)" "0 < queue_depth (pe_config E)"
    using pool_reach_wf [OF assms(1)] pool_reach_depth [OF assms(1)] assms(2) by (force simp: stuck_with_def)+
  then show "pinned E p tenant = Some i" "w_in_flight (workers p ! i) = 1"
    using assms(2) by (auto simp: stuck_with_def pinned_def worker_wf_def receiver_open_def)
qed

inductive_cases crashed_moveE: "worker_move E f w w'"

lemma crashed_stays: "w_phase w = Crashed \<Longrightarrow> \<not> worker_move E f w w'"
  by (auto elim: crashed_moveE simp: receiver_open_def)

lemma pool_step_affinity:
  assumes "pool_step E p p'" "pinned E p tenant = Some i" "map_of (tenant_affinity p) tenant = Some i"
  shows "map_of (tenant_affinity p') tenant = Some i"
  using assms(1)
proof (cases rule: pool_step.cases)
  case (send t p1)
  then show ?thesis using submit_send_affinity [OF send(3)] select_worker_affinity [OF assms(2,3)] by simp
next
  case (send_full t err p1)
  then show ?thesis using submit_send_affinity [OF send_full(3)] select_worker_affinity [OF assms(2,3)] by simp
qed (use assms(3) in \<open>auto simp: worker_exec_def Let_def worker_publish_def refresh_contract_bundle_def split: prod.splits\<close>)

lemma stuck_step:
  assumes "pool_step E p p'" "pool_reach E p" "stuck_with i tenant p"
  shows "stuck_with i tenant p'"
proof -
  have a: "map_of (tenant_affinity p') tenant = Some i"
    using pool_step_affinity [OF assms(1) stuck_pinned(1) [OF assms(2,3)]] assms(3) by (simp add: stuck_with_def)
  from assms(1) show ?thesis
  proof (cases rule: pool_step_moves)
    case (move j w)
    then have "j \<noteq> i" using assms(3) crashed_stays unfolding stuck_with_def by metis
    then show ?thesis using move a assms(3) by (simp add: stuck_with_def)
  qed (use a assms(3) in \<open>simp add: stuck_with_def\<close>)
qed

text \<open>A call that has not read the counter of worker \<open>i\<close> in vain.\<close>

fun not_drained :: "nat \<Rightarrow> shutdown_call \<Rightarrow> bool" where
  "not_drained i (Summing d j acc) \<longleftrightarrow> (i < j \<longrightarrow> 0 < acc)"
| "not_drained i (Returned out) \<longleftrightarrow> out \<noteq> Drained"
| "not_drained i _ \<longleftrightarrow> True"

lemma not_drained_poll:
  "shutdown_poll cfg now p call = Some c \<Longrightarrow> not_drained i call \<Longrightarrow> i < length (workers p) \<Longrightarrow> w_in_flight (workers p ! i) = 1 \<Longrightarrow> not_drained i c"
  by (induction cfg now p call rule: shutdown_poll.induct) (auto split: if_splits simp: less_Suc_eq)

lemma stuck_run:
  assumes "run_steps E r r'" "run_reach E r" "stuck_with i tenant (run_pool r)" "not_drained i (run_call r)"
  shows "run_reach E r' \<and> stuck_with i tenant (run_pool r') \<and> not_drained i (run_call r')"
  using assms(1)
proof (induction rule: rtranclp_induct)
  case (step r1 r2)
  note pr = run_reach_pool [OF conjunct1 [OF step(3)]]
  from step(2) have "stuck_with i tenant (run_pool r2) \<and> not_drained i (run_call r2)"
  proof (cases rule: run_step.cases)
    case (poll c)
    have "i < length (workers (run_pool r1))" "w_in_flight (workers (run_pool r1) ! i) = 1"
      using step(3) stuck_pinned(2) [OF pr] by (auto simp: stuck_with_def)
    then show ?thesis using step(3) not_drained_poll [OF poll(2)] poll(1) by simp
  next
    case call
    then show ?thesis using step(3) by (simp add: stuck_with_def)
  qed (use step(3) stuck_step [OF _ pr] in auto)
  then show ?case using step run_reach.step by blast
qed (use assms in simp)


section \<open>A pool that is shut down\<close>

definition demo_flagged :: "(string list, nat \<times> (cache_key \<times> cache_entry) list) pool" where
  "demo_flagged = (demo_state [demo_task] 0 (Waiting demo_engine))\<lparr>shutdown_flag := True\<rparr>"

definition demo_call :: "shutdown_call \<Rightarrow> nat \<Rightarrow> (string list, nat \<times> (cache_key \<times> cache_entry) list) run" where
  "demo_call c n = \<lparr>run_pool = demo_flagged, run_clock = 0, run_call = c, run_polls = n\<rparr>"

lemma demo_poll:
  "run_reach pool_ref (demo_call c n) \<Longrightarrow> shutdown_poll (pe_config pool_ref) 0 demo_flagged c = Some c' \<Longrightarrow>
     run_reach pool_ref (demo_call c' (Suc n))"
  using run_step.poll [of pool_ref "demo_call c n" c'] run_reach.step [of pool_ref "demo_call c n"] by (simp add: demo_call_def)

lemma demo_called: "run_reach pool_ref (demo_call Flagged 0)"
proof -
  let ?s = "start_run 0 (demo_state [demo_task] 0 (Waiting demo_engine))"
  have "run_reach pool_ref ?s" by (rule run_reach.init [OF demo_waiting]) (simp add: demo_pool_def)
  moreover have "run_step pool_ref ?s (demo_call Flagged 0)"
    using run_step.call [of ?s pool_ref] by (simp add: start_run_def demo_call_def demo_flagged_def)
  ultimately show ?thesis by (rule run_reach.step)
qed

lemma demo_drained: "run_reach pool_ref (demo_call (Returned Drained) 3)"
proof -
  have "run_reach pool_ref (demo_call (Summing 30000000000 0 0) 1)"
    using demo_poll [OF demo_called, of "Summing 30000000000 0 0"] by (simp add: pool_ref_def from_secs_def)
  then have "run_reach pool_ref (demo_call (Summing 30000000000 1 0) 2)"
    using demo_poll [of "Summing 30000000000 0 0" 1 "Summing 30000000000 1 0"] by (simp add: demo_flagged_def demo_pool_def demo_worker_def numeral_2_eq_2)
  then show ?thesis
    using demo_poll [of "Summing 30000000000 1 0" 2 "Returned Drained"] by (simp add: demo_flagged_def demo_pool_def)
qed

theorem shutdown_returns_witness: "run_reach pool_ref (demo_call (Returned Drained) 3) \<and> run_polls (demo_call (Returned Drained) 3) \<le> 454"
  using shutdown_returns [OF demo_drained] demo_drained by (simp add: pool_ref_def)


theorem drained_leaves_tasks_witness:
  "\<exists>r res. run_steps pool_ref (demo_call (Returned Drained) 3) r \<and> (demo_task, res) \<in> set (replies (run_pool r)) \<and> res \<noteq> Inl PoolShutdown"
proof -
  obtain okl where l: "pool_lru_spec pool_ref okl" using pool_ref_lru by blast
  show ?thesis
    using drained_leaves_tasks [OF l demo_drained, of 0 demo_engine demo_task "[]"]
    by (auto simp: demo_call_def demo_flagged_def demo_pool_def demo_worker_def)
qed


end
