(* ===== verification/Contract_Source.thy ===== *)
theory Contract_Source
  imports Policy
begin

text \<open>
  \<open>src/src/contract_source.rs\<close>: the caller, the JSON contract format, the contract store of
  \<open>JsonContractSource\<close> and its \<open>resolve\<close>, which turns a contract and a caller into a resolved
  policy. Reading the directory is a parameter (the entries the file system returns).
\<close>

section \<open>Model\<close>

record caller =
  caller_id :: string
  purpose :: string
  tenant :: string
  tier :: string
  classification :: string

definition new_caller :: "string \<Rightarrow> string \<Rightarrow> string \<Rightarrow> caller" where
  "new_caller cid purp ten = \<lparr>caller_id = cid, purpose = purp, tenant = ten,
     tier = ''bronze'', classification = ''internal''\<rparr>"

datatype contract_error =
    ContractNotFound string
  | ContractParse string
  | ContractPolicy policy_error
  | ContractPlatform string

record json_column =
  col_name :: string
  col_mask :: "string option"

record json_contract =
  jc_contract_id :: string
  jc_version :: string
  jc_dataset :: string
  jc_parquet :: string
  jc_owner_tenant :: string
  jc_purposes :: "string list"
  jc_columns :: "json_column list"
  jc_row_filter :: "string option"
  jc_dp_columns :: "(string \<times> dp_param) list"

definition de_dp_param :: "json \<Rightarrow> dp_param option" where
  "de_dp_param j = Option.bind (struct_fields [''sensitivity'', ''epsilon''] j) (\<lambda>fs.
     Option.bind (required fs ''sensitivity'' de_f64) (\<lambda>s.
     Option.bind (required fs ''epsilon'' de_f64) (\<lambda>e. Some \<lparr>sensitivity = s, epsilon = e\<rparr>)))"

definition de_binding :: "json \<Rightarrow> string option" where
  "de_binding j = Option.bind (struct_fields [''parquet''] j) (\<lambda>fs. required fs ''parquet'' de_string)"

definition de_column :: "json \<Rightarrow> json_column option" where
  "de_column j = Option.bind (struct_fields [''name'', ''mask''] j) (\<lambda>fs.
     Option.bind (required fs ''name'' de_string) (\<lambda>n.
     Option.bind (defaulted fs ''mask'' None (de_option de_string)) (\<lambda>m. Some \<lparr>col_name = n, col_mask = m\<rparr>)))"

definition de_contract :: "json \<Rightarrow> json_contract option" where
  "de_contract j = Option.bind (struct_fields [''contract_id'', ''version'', ''dataset'', ''binding'', ''owner_tenant'',
       ''purposes'', ''columns'', ''row_filter'', ''dp_columns''] j) (\<lambda>fs.
     Option.bind (required fs ''contract_id'' de_string) (\<lambda>cid.
     Option.bind (required fs ''version'' de_string) (\<lambda>v.
     Option.bind (required fs ''dataset'' de_string) (\<lambda>ds.
     Option.bind (required fs ''binding'' de_binding) (\<lambda>b.
     Option.bind (required fs ''owner_tenant'' de_string) (\<lambda>own.
     Option.bind (defaulted fs ''purposes'' [] (de_vec de_string)) (\<lambda>ps.
     Option.bind (defaulted fs ''columns'' [] (de_vec de_column)) (\<lambda>cs.
     Option.bind (defaulted fs ''row_filter'' None (de_option de_string)) (\<lambda>rf.
     Option.bind (defaulted fs ''dp_columns'' [] (de_hash_map de_dp_param)) (\<lambda>dp.
       Some \<lparr>jc_contract_id = cid, jc_version = v, jc_dataset = ds, jc_parquet = b, jc_owner_tenant = own,
         jc_purposes = ps, jc_columns = cs, jc_row_filter = rf, jc_dp_columns = dp\<rparr>))))))))))"

type_synonym contract_store = "(string \<times> json_contract) list"

fun insert_docs :: "from_slice \<Rightarrow> string list \<Rightarrow> contract_store \<Rightarrow> contract_error + contract_store" where
  "insert_docs from_slice [] cs = Inr cs"
| "insert_docs from_slice (doc # docs) cs =
     (case Option.bind (from_slice doc) de_contract of
        None \<Rightarrow> Inl (ContractParse ''contract'')
      | Some c \<Rightarrow> insert_docs from_slice docs (AList.update (jc_dataset c) c cs))"

definition from_json_strs :: "from_slice \<Rightarrow> string list \<Rightarrow> contract_error + contract_store" where
  "from_json_strs from_slice docs = insert_docs from_slice docs []"

text \<open>\<open>Path::extension\<close> of the file name: the part after the last dot, if something is before it.\<close>

definition extension :: "string \<Rightarrow> string option" where
  "extension name = (let r = rev name; ext = takeWhile (\<lambda>c. c \<noteq> CHR ''.'') r; rest = dropWhile (\<lambda>c. c \<noteq> CHR ''.'') r in
     if length rest \<le> 1 then None else Some (rev ext))"

text \<open>
  \<open>from_dir\<close>: \<open>entries\<close> is what \<open>read_dir\<close> gives (\<open>None\<close> if it fails), each entry a failure or a
  file name with the outcome of reading it.
\<close>

fun json_texts :: "(string \<times> string option) option list \<Rightarrow> contract_error + string list" where
  "json_texts [] = Inr []"
| "json_texts (None # es) = Inl (ContractParse ''entry'')"
| "json_texts (Some (name, text) # es) =
     (if extension name = Some ''json'' then
        (case text of None \<Rightarrow> Inl (ContractParse ''read'')
         | Some t \<Rightarrow> and_then (json_texts es) (\<lambda>ts. Inr (t # ts)))
      else json_texts es)"

definition from_dir :: "from_slice \<Rightarrow> (string \<times> string option) option list option \<Rightarrow> contract_error + contract_store" where
  "from_dir from_slice entries =
     and_then (ok_or (ContractParse ''read_dir'') entries) (\<lambda>es.
     and_then (json_texts es) (from_json_strs from_slice))"

definition get_contract :: "contract_store \<Rightarrow> string \<Rightarrow> contract_error + json_contract" where
  "get_contract cs dataset = ok_or (ContractNotFound dataset) (map_of cs dataset)"

fun collect_masks :: "json_column list \<Rightarrow> (string \<times> mask_action) list \<Rightarrow> policy_error + (string \<times> mask_action) list" where
  "collect_masks [] acc = Inr acc"
| "collect_masks (col # cols) acc =
     (case col_mask col of
        None \<Rightarrow> collect_masks cols acc
      | Some m \<Rightarrow> and_then (parse_mask_action m) (\<lambda>action.
          collect_masks cols (if action \<noteq> Noop then AList.update (col_name col) action acc else acc)))"

definition purpose_denied :: "string \<Rightarrow> string \<Rightarrow> string list \<Rightarrow> string" where
  "purpose_denied purp cid purposes = ''purpose '' @ quoted purp @ '' is not permitted by contract '' @ quoted cid
     @ '' (allowed: '' @ debug_strs purposes @ '')''"

definition resolve :: "contract_store \<Rightarrow> string \<Rightarrow> caller \<Rightarrow> contract_error + resolved_policy" where
  "resolve cs dataset who =
     and_then (get_contract cs dataset) (\<lambda>c.
       if jc_purposes c \<noteq> [] \<and> purpose who \<notin> set (jc_purposes c) then
         Inr \<lparr>contract_id = jc_contract_id c, contract_version = jc_version c, policy_tenant = jc_owner_tenant c,
           decision = Deny (purpose_denied (purpose who) (jc_contract_id c) (jc_purposes c)),
           column_masks = [], row_filter = None, dp_columns = []\<rparr>
       else if tenant who = jc_owner_tenant c then
         Inr (allow_all (jc_contract_id c) (jc_version c) (jc_owner_tenant c))
       else and_then (map_err ContractPolicy (collect_masks (jc_columns c) [])) (\<lambda>masks.
         Inr \<lparr>contract_id = jc_contract_id c, contract_version = jc_version c, policy_tenant = jc_owner_tenant c,
           decision = Allow, column_masks = masks, row_filter = jc_row_filter c, dp_columns = jc_dp_columns c\<rparr>))"

section \<open>Masks of a contract\<close>

text \<open>The action a column declares, if its token parses to something other than \<open>Noop\<close>.\<close>

definition declared_action :: "json_column \<Rightarrow> mask_action option" where
  "declared_action col = (case col_mask col of None \<Rightarrow> None
     | Some m \<Rightarrow> (case parse_mask_action m of Inr a \<Rightarrow> if a = Noop then None else Some a | Inl _ \<Rightarrow> None))"

text \<open>The last effective declaration of a column name, in document order.\<close>

definition effective_action :: "json_column list \<Rightarrow> string \<Rightarrow> mask_action option" where
  "effective_action cols n =
     fold (\<lambda>col r. if col_name col = n \<and> declared_action col \<noteq> None then declared_action col else r) cols None"

lemma collect_masks_map:
  "collect_masks cols acc = Inr masks \<Longrightarrow> map_of masks n =
     fold (\<lambda>col r. if col_name col = n \<and> declared_action col \<noteq> None then declared_action col else r) cols (map_of acc n)"
  by (induction cols arbitrary: acc)
     (auto simp: and_then_eq_Inr declared_action_def update_conv' split: option.splits if_splits)

lemma collect_masks_effective:
  "collect_masks cols [] = Inr masks \<Longrightarrow> map_of masks n = effective_action cols n"
  by (drule collect_masks_map [where n = n]) (simp add: effective_action_def)

lemma collect_masks_distinct:
  "collect_masks cols acc = Inr masks \<Longrightarrow> distinct (map fst acc) \<Longrightarrow> distinct (map fst masks)"
  by (induction cols arbitrary: acc) (auto simp: and_then_eq_Inr distinct_update split: option.splits if_splits)

lemma snd_set_update: "snd ` set (AList.update k v al) \<subseteq> insert v (snd ` set al)"
  by (induction al) auto

lemma collect_masks_no_noop:
  "collect_masks cols acc = Inr masks \<Longrightarrow> Noop \<notin> snd ` set acc \<Longrightarrow> Noop \<notin> snd ` set masks"
proof (induction cols arbitrary: acc)
  case (Cons col cols)
  have upd: "Noop \<notin> snd ` set (AList.update n a acc)" if "a \<noteq> Noop" for n a
    using Cons.prems(2) that snd_set_update [of n a acc] by blast
  show ?case
  proof (cases "col_mask col")
    case (Some m)
    then obtain a where "collect_masks cols (if a \<noteq> Noop then AList.update (col_name col) a acc else acc) = Inr masks"
      using Cons.prems(1) by (auto simp: and_then_eq_Inr)
    then show ?thesis by (rule Cons.IH) (use upd Cons.prems(2) in simp)
  qed (use Cons in simp)
qed simp

lemma collect_masks_ok:
  "is_ok (collect_masks cols acc) \<longleftrightarrow>
     (\<forall>col\<in>set cols. \<forall>m. col_mask col = Some m \<longrightarrow> is_ok (parse_mask_action m))"
proof (induction cols arbitrary: acc)
  case (Cons col cols)
  show ?case
  proof (cases "col_mask col")
    case (Some m)
    then show ?thesis using Cons by (cases "parse_mask_action m") auto
  qed (use Cons in auto)
qed simp

lemma fold_pick_some:
  "fold (\<lambda>x r. if P x \<and> f x \<noteq> None then f x else r) xs r \<noteq> None \<longleftrightarrow> r \<noteq> None \<or> (\<exists>x\<in>set xs. P x \<and> f x \<noteq> None)"
  by (induction xs arbitrary: r) auto

lemma effective_action_some:
  "effective_action cols n \<noteq> None \<longleftrightarrow> (\<exists>col\<in>set cols. col_name col = n \<and> declared_action col \<noteq> None)"
  by (simp only: effective_action_def fold_pick_some simp_thms)

section \<open>Resolution\<close>

text \<open>
  C26: the access matrix of \<open>resolve\<close>. For a dataset with a contract, a purpose outside a non-empty
  list is denied for every caller; otherwise the owning tenant gets the unrestricted policy, and
  anyone else gets the contract's row filter and DP columns together with, for each column name, the
  last non-noop mask declared for it. A dataset without a contract is an error.
\<close>

theorem resolve_access_matrix:
  "(map_of cs ds = None \<longrightarrow> resolve cs ds who = Inl (ContractNotFound ds))
   \<and> (\<forall>c. map_of cs ds = Some c \<longrightarrow>
        (jc_purposes c \<noteq> [] \<and> purpose who \<notin> set (jc_purposes c) \<longrightarrow>
           (\<exists>p. resolve cs ds who = Inr p \<and> \<not> is_allowed p \<and> column_masks p = [] \<and> \<not> has_dp p))
      \<and> (\<not> (jc_purposes c \<noteq> [] \<and> purpose who \<notin> set (jc_purposes c)) \<and> tenant who = jc_owner_tenant c \<longrightarrow>
           resolve cs ds who = Inr (allow_all (jc_contract_id c) (jc_version c) (jc_owner_tenant c)))
      \<and> (\<forall>p. \<not> (jc_purposes c \<noteq> [] \<and> purpose who \<notin> set (jc_purposes c)) \<and> tenant who \<noteq> jc_owner_tenant c
            \<and> resolve cs ds who = Inr p \<longrightarrow>
           is_allowed p \<and> row_filter p = jc_row_filter c \<and> dp_columns p = jc_dp_columns c
           \<and> contract_id p = jc_contract_id c \<and> contract_version p = jc_version c \<and> policy_tenant p = jc_owner_tenant c
           \<and> (\<forall>n. map_of (column_masks p) n = effective_action (jc_columns c) n)))"
  by (auto simp: resolve_def get_contract_def is_allowed_def has_dp_def and_then_eq_Inr map_err_eq_Inr
      dest: collect_masks_effective)

theorem resolve_access_matrix_witness:
  "let c = \<lparr>jc_contract_id = ''c'', jc_version = ''1'', jc_dataset = ''d'', jc_parquet = ''p'', jc_owner_tenant = ''acme'',
         jc_purposes = [''analytics''], jc_columns = [\<lparr>col_name = ''email'', col_mask = Some ''HASH''\<rparr>],
         jc_row_filter = Some ''f'', jc_dp_columns = []\<rparr>
   in \<exists>p. resolve [(''d'', c)] ''d'' (new_caller ''bob'' ''analytics'' ''globex'') = Inr p
        \<and> is_allowed p \<and> row_filter p = Some ''f'' \<and> map_of (column_masks p) ''email'' = Some HashSha256"
proof -
  define c where "c = \<lparr>jc_contract_id = ''c'', jc_version = ''1'', jc_dataset = ''d'', jc_parquet = ''p'', jc_owner_tenant = ''acme'',
         jc_purposes = [''analytics''], jc_columns = [\<lparr>col_name = ''email'', col_mask = Some ''HASH''\<rparr>],
         jc_row_filter = Some ''f'', jc_dp_columns = []\<rparr>"
  have "is_ok (resolve [(''d'', c)] ''d'' (new_caller ''bob'' ''analytics'' ''globex''))"
    unfolding c_def by code_simp
  then have p: "\<exists>p. resolve [(''d'', c)] ''d'' (new_caller ''bob'' ''analytics'' ''globex'') = Inr p"
    by (simp add: is_ok_iff)
  have e: "effective_action (jc_columns c) ''email'' = Some HashSha256" unfolding c_def by code_simp
  show ?thesis
    using p e resolve_access_matrix [of "[(''d'', c)]" "''d''" "new_caller ''bob'' ''analytics'' ''globex''"]
    unfolding Let_def c_def [symmetric] by (auto simp: c_def new_caller_def)
qed

text \<open>
  No declared mask is lost. Whenever \<open>resolve\<close> allows a caller outside the owning tenant, every
  column name for which the contract declares some non-noop mask is masked in the policy, and no
  entry of the policy is a noop.
\<close>

theorem resolve_keeps_every_mask:
  assumes "map_of cs ds = Some c" "resolve cs ds who = Inr p" "is_allowed p" "tenant who \<noteq> jc_owner_tenant c"
  shows "(\<forall>col\<in>set (jc_columns c). declared_action col \<noteq> None \<longrightarrow> map_of (column_masks p) (col_name col) \<noteq> None)
    \<and> Noop \<notin> snd ` set (column_masks p) \<and> distinct (map fst (column_masks p))"
proof -
  from assms obtain masks where m: "collect_masks (jc_columns c) [] = Inr masks" "column_masks p = masks"
    by (auto simp: resolve_def get_contract_def is_allowed_def and_then_eq_Inr map_err_eq_Inr split: if_splits)
  have "map_of masks n = effective_action (jc_columns c) n" for n using m(1) by (rule collect_masks_effective)
  moreover have "Noop \<notin> snd ` set masks" using m(1) by (rule collect_masks_no_noop) simp
  moreover have "distinct (map fst masks)" using m(1) by (rule collect_masks_distinct) simp
  ultimately show ?thesis using m(2) effective_action_some by metis
qed

theorem resolve_keeps_every_mask_witness:
  "\<exists>p. resolve [(''d'', \<lparr>jc_contract_id = ''c'', jc_version = ''1'', jc_dataset = ''d'', jc_parquet = ''p'', jc_owner_tenant = ''acme'',
         jc_purposes = [], jc_columns = [\<lparr>col_name = ''email'', col_mask = Some ''redact''\<rparr>, \<lparr>col_name = ''email'', col_mask = Some ''none''\<rparr>],
         jc_row_filter = None, jc_dp_columns = []\<rparr>)] ''d'' (new_caller ''bob'' ''x'' ''globex'') = Inr p
     \<and> map_of (column_masks p) ''email'' \<noteq> None"
proof -
  define c where "c = \<lparr>jc_contract_id = ''c'', jc_version = ''1'', jc_dataset = ''d'', jc_parquet = ''p'', jc_owner_tenant = ''acme'',
         jc_purposes = [], jc_columns = [\<lparr>col_name = ''email'', col_mask = Some ''redact''\<rparr>, \<lparr>col_name = ''email'', col_mask = Some ''none''\<rparr>],
         jc_row_filter = None, jc_dp_columns = []\<rparr>"
  obtain p where p: "resolve [(''d'', c)] ''d'' (new_caller ''bob'' ''x'' ''globex'') = Inr p" "is_allowed p"
    using that unfolding c_def
    by (simp add: resolve_def get_contract_def is_allowed_def parse_mask_action_def Let_def to_ascii_lowercase_def
        ascii_lower_def new_caller_def)
  have "map_of [(''d'', c)] ''d'' = Some c" "tenant (new_caller ''bob'' ''x'' ''globex'') \<noteq> jc_owner_tenant c"
    by (simp_all add: new_caller_def c_def)
  note r = resolve_keeps_every_mask [OF this(1) p this(2)]
  have "\<lparr>col_name = ''email'', col_mask = Some ''redact''\<rparr> \<in> set (jc_columns c)"
    "declared_action \<lparr>col_name = ''email'', col_mask = Some ''redact''\<rparr> \<noteq> None"
    by (simp add: c_def) code_simp
  with r p(1) show ?thesis unfolding c_def by force
qed

end
