(* ===== verification/Governed_Table.thy ===== *)
theory Governed_Table
  imports Plan_Invariants Contract_Source Ddl_Guard
begin

text \<open>
  The path from a table name in a query to a governed plan: \<open>src/src/contract_table_provider.rs\<close>
  (the enforcement stack of a scan), \<open>src/src/catalog.rs\<close> (resolution of a name through contract and
  binding), \<open>src/src/binding.rs\<close> (loading Parquet) and \<open>src/src/engine.rs\<close> (\<open>GriotEngine\<close>).
  DataFusion's table providers, projection and limit operators and its planner are parameters.
\<close>

section \<open>Model\<close>

subsection \<open>ContractTableProvider\<close>

record table_provider =
  tp_schema :: schema
  tp_scan :: "df_error + plan"

record contract_table_provider =
  ctp_inner :: table_provider
  ctp_bundle :: contract_bundle_handle
  ctp_tenant :: string
  ctp_has_dp :: bool
  governed_schema :: schema

definition new_provider :: "to_vec \<Rightarrow> from_slice \<Rightarrow> nat \<Rightarrow> table_provider \<Rightarrow> resolved_policy \<Rightarrow> contract_table_provider" where
  "new_provider to_vec from_slice uuid inner policy =
     (let bundle = to_bundle_handle to_vec uuid policy
      in \<lparr>ctp_inner = inner, ctp_bundle = bundle, ctp_tenant = policy_tenant policy, ctp_has_dp = has_dp policy,
          governed_schema = (case masked_schema_for_bundle from_slice (tp_schema inner) bundle of
            Inr s \<Rightarrow> s | Inl _ \<Rightarrow> tp_schema inner)\<rparr>)"

definition phys_to_df :: "physical_error \<Rightarrow> df_error" where
  "phys_to_df e = DfExternalPhysical e"

text \<open>DataFusion's \<open>ProjectionExec::try_new\<close> and \<open>GlobalLimitExec::new\<close>.\<close>

record plan_ops =
  projection_exec :: "(string \<times> nat) list \<Rightarrow> plan \<Rightarrow> df_error + plan"
  global_limit_exec :: "plan \<Rightarrow> nat \<Rightarrow> nat option \<Rightarrow> plan"

text \<open>\<open>schema.field(i)\<close> panics for an index out of range; the panic is an error value here.\<close>

definition apply_projection :: "plan_ops \<Rightarrow> plan \<Rightarrow> nat list \<Rightarrow> df_error + plan" where
  "apply_projection ops plan indices =
     (let s = plan_schema plan in
      and_then (map_r (\<lambda>i. if i < length s then Inr (field_name (s ! i), i) else Inl (DfOther ''panic: field index'')) indices)
        (\<lambda>exprs. projection_exec ops exprs plan))"

text \<open>The enforcement stack of a scan, before projection and limit.\<close>

definition governed_plan :: "from_slice \<Rightarrow> contract_table_provider \<Rightarrow> plan \<Rightarrow> world \<Rightarrow> physical_error + plan \<times> world" where
  "governed_plan from_slice t inner_plan w =
     and_then (new_contract_approved (ctp_bundle t) inner_plan w) (\<lambda>(approved, w1).
     and_then (new_row_filter from_slice (ctp_bundle t) approved w1) (\<lambda>(filtered, w2).
     and_then (new_masking from_slice (ctp_bundle t) filtered w2) (\<lambda>(masked, w3).
       if ctp_has_dp t then new_permissive from_slice (ctp_bundle t) (ctp_tenant t) masked w3
       else Inr (masked, w3))))"

definition scan :: "from_slice \<Rightarrow> plan_ops \<Rightarrow> contract_table_provider \<Rightarrow> nat list option \<Rightarrow> nat option \<Rightarrow> world \<Rightarrow> df_error + plan \<times> world" where
  "scan from_slice ops t projection limit w =
     and_then (tp_scan (ctp_inner t)) (\<lambda>inner_plan.
     and_then (map_err phys_to_df (governed_plan from_slice t inner_plan w)) (\<lambda>(governed, w').
     and_then (case projection of Some indices \<Rightarrow> apply_projection ops governed indices | None \<Rightarrow> Inr governed) (\<lambda>projected.
       Inr (case limit of Some n \<Rightarrow> global_limit_exec ops projected 0 (Some n) | None \<Rightarrow> projected, w'))))"

subsection \<open>Bindings\<close>

datatype binding_error = BindingNotFound string | BindingIo string | BindingParquet string | BindingBuild string

text \<open>
  A Parquet file as its reader presents it: opening, reading the metadata and building the reader may
  fail, and so may each batch. \<open>mem_table\<close> is DataFusion's \<open>MemTable::try_new\<close> with one partition.
\<close>

record parquet_file =
  pq_open :: bool
  pq_schema :: "schema option"
  pq_build :: bool
  pq_batches :: "record_batch option list"

definition load_parquet_as_provider :: "(string \<Rightarrow> parquet_file) \<Rightarrow> (schema \<Rightarrow> record_batch list \<Rightarrow> table_provider option) \<Rightarrow> string \<Rightarrow> binding_error + table_provider" where
  "load_parquet_as_provider disk mem_table path =
     (let f = disk path in
      if \<not> pq_open f then Inl (BindingIo path)
      else and_then (ok_or (BindingParquet path) (pq_schema f)) (\<lambda>s.
        if \<not> pq_build f then Inl (BindingParquet path)
        else and_then (map_r (ok_or (BindingParquet path)) (pq_batches f)) (\<lambda>batches.
          ok_or (BindingBuild ''MemTable'') (mem_table s batches))))"

definition json_binding :: "(string \<Rightarrow> parquet_file) \<Rightarrow> (schema \<Rightarrow> record_batch list \<Rightarrow> table_provider option) \<Rightarrow> contract_store \<Rightarrow> string \<Rightarrow> binding_error + table_provider" where
  "json_binding disk mem_table cs dataset =
     and_then (ok_or (BindingNotFound dataset) (map_of cs dataset)) (\<lambda>c.
       load_parquet_as_provider disk mem_table (jc_parquet c))"

subsection \<open>The catalog\<close>

text \<open>\<open>GriotSchemaProvider::table\<close>, for a contract source and a binding resolver.\<close>

definition griot_table :: "to_vec \<Rightarrow> from_slice \<Rightarrow> nat \<Rightarrow> (string \<Rightarrow> caller \<Rightarrow> contract_error + resolved_policy)
    \<Rightarrow> (string \<Rightarrow> binding_error + table_provider) \<Rightarrow> caller \<Rightarrow> string \<Rightarrow> df_error + contract_table_provider option" where
  "griot_table to_vec from_slice uuid source binding who name =
     and_then (map_err (\<lambda>_. DfPlan (''contract resolution failed for '' @ quoted name)) (source name who)) (\<lambda>policy.
       case decision policy of
         Deny why \<Rightarrow> Inl (DfPlan (''contract denied access to '' @ quoted name @ '': '' @ why))
       | Allow \<Rightarrow> and_then (map_err (\<lambda>_. DfPlan (''binding failed for '' @ quoted name)) (binding name)) (\<lambda>inner.
           Inr (Some (new_provider to_vec from_slice uuid inner policy))))"

text \<open>
  The schema names no tables, since they are resolved by name, and claims that every table exists;
  the catalog knows its one schema.
\<close>

definition griot_table_names :: "string list" where
  "griot_table_names = []"

definition griot_table_exist :: "string \<Rightarrow> bool" where
  "griot_table_exist name = True"

definition catalog_schema_names :: "string \<Rightarrow> string list" where
  "catalog_schema_names schema_name = [schema_name]"

definition catalog_schema :: "string \<Rightarrow> 's \<Rightarrow> string \<Rightarrow> 's option" where
  "catalog_schema schema_name s name = (if name = schema_name then Some s else None)"

lemma catalog_schema_listed: "catalog_schema schema_name s name \<noteq> None \<longleftrightarrow> name \<in> set (catalog_schema_names schema_name)"
  by (simp add: catalog_schema_def catalog_schema_names_def)

subsection \<open>GriotEngine\<close>

definition PROJECTION_PUSHDOWN_RULE :: string where
  "PROJECTION_PUSHDOWN_RULE = ''ProjectionPushdown''"

definition CATALOG_NAME :: string where
  "CATALOG_NAME = ''griot''"

definition SCHEMA_NAME :: string where
  "SCHEMA_NAME = ''data''"

definition governed_rules :: "string list \<Rightarrow> string list" where
  "governed_rules rules = filter (\<lambda>r. r \<noteq> PROJECTION_PUSHDOWN_RULE) rules"

text \<open>
  What the engine is made of, and the DataFusion session a query runs in: the physical optimizer rules
  it starts from, and \<open>run_sql\<close>, which plans and collects a statement given the session's rules, its
  default catalog and schema and the lookup of a schema by name.
\<close>

record griot_engine =
  ge_source :: "string \<Rightarrow> caller \<Rightarrow> contract_error + resolved_policy"
  ge_binding :: "string \<Rightarrow> binding_error + table_provider"

type_synonym lookup = "string \<Rightarrow> df_error + contract_table_provider option"

record session_env =
  default_rules :: "string list"
  run_sql :: "string list \<Rightarrow> string \<times> string \<Rightarrow> (string \<Rightarrow> lookup option) \<Rightarrow> string \<Rightarrow> df_error + record_batch list"

definition from_json_contracts :: "from_slice \<Rightarrow> (string \<Rightarrow> parquet_file) \<Rightarrow> (schema \<Rightarrow> record_batch list \<Rightarrow> table_provider option)
    \<Rightarrow> string list \<Rightarrow> contract_error + griot_engine" where
  "from_json_contracts from_slice disk mem_table docs =
     and_then (from_json_strs from_slice docs) (\<lambda>cs.
       Inr \<lparr>ge_source = resolve cs, ge_binding = json_binding disk mem_table cs\<rparr>)"

definition from_json_contracts_dir :: "from_slice \<Rightarrow> (string \<Rightarrow> parquet_file) \<Rightarrow> (schema \<Rightarrow> record_batch list \<Rightarrow> table_provider option)
    \<Rightarrow> (string \<times> string option) option list option \<Rightarrow> contract_error + griot_engine" where
  "from_json_contracts_dir from_slice disk mem_table entries =
     and_then (from_dir from_slice entries) (\<lambda>cs.
       Inr \<lparr>ge_source = resolve cs, ge_binding = json_binding disk mem_table cs\<rparr>)"

definition query :: "to_vec \<Rightarrow> from_slice \<Rightarrow> nat \<Rightarrow> session_env \<Rightarrow> griot_engine \<Rightarrow> string \<Rightarrow> caller \<Rightarrow> engine_error + record_batch list" where
  "query to_vec from_slice uuid S E sql who =
     and_then (reject_unsafe_ddl sql) (\<lambda>_.
       map_err EngineDataFusion (run_sql S (governed_rules (default_rules S)) (CATALOG_NAME, SCHEMA_NAME)
         (catalog_schema SCHEMA_NAME (griot_table to_vec from_slice uuid (ge_source E) (ge_binding E) who)) sql))"

section \<open>The stack of a scan\<close>

lemma new_contract_approved_inv:
  "new_contract_approved b p w = Inr (q, w') \<Longrightarrow>
     \<exists>x. q = ContractApprovedExec x p \<and> ca_bundle x = b \<and> bundle_contract_id b \<noteq> []"
  by (auto simp: new_contract_approved_def alloc_node_def split: if_splits)

lemma new_row_filter_inv:
  "new_row_filter fs b p w = Inr (q, w') \<Longrightarrow>
     \<exists>x. q = RowFilterExec x p \<and> rf_bundle x = b \<and> parse_row_filter fs b = Inr (row_filter_expr x)"
  by (auto simp: new_row_filter_def alloc_node_def and_then_eq_Inr split: if_splits)

lemma new_masking_inv:
  "new_masking fs b p w = Inr (q, w') \<Longrightarrow>
     \<exists>x. q = MaskingExec x p \<and> mk_bundle x = b \<and> parse_masking_bundle fs b = Inr (column_policies x)
       \<and> output_schema x = masked_output_schema (plan_schema p) (column_policies x)"
  by (auto simp: new_masking_def alloc_node_def and_then_eq_Inr split: if_splits)

lemma new_permissive_inv:
  assumes "new_permissive fs b tid p w = Inr (q, w')"
  shows "\<exists>x. q = LaplaceNoiseExec x p \<and> parse_dp_bundle fs b = Inr (ln_dp_columns x) \<and> ln_tenant x = tid"
proof -
  from assms obtain n w1 where "build_laplace fs b tid n p w1 = Inr (q, w')"
    by (auto simp: new_permissive_def split: prod.splits)
  then show ?thesis by (rule build_laplace_inv) blast
qed

lemma governed_plan_steps:
  assumes "governed_plan fs t inner w = Inr (g, w')"
  obtains a w1 r w2 m w3 where "new_contract_approved (ctp_bundle t) inner w = Inr (a, w1)"
    "new_row_filter fs (ctp_bundle t) a w1 = Inr (r, w2)" "new_masking fs (ctp_bundle t) r w2 = Inr (m, w3)"
    "(if ctp_has_dp t then new_permissive fs (ctp_bundle t) (ctp_tenant t) m w3 else Inr (m, w3)) = Inr (g, w')"
  using assms by (auto simp: governed_plan_def and_then_eq_Inr)

lemma governed_plan_inv:
  assumes "governed_plan fs t inner w = Inr (g, w')"
  obtains a r m where
    "bundle_contract_id (ctp_bundle t) \<noteq> []" "ca_bundle a = ctp_bundle t"
    "parse_row_filter fs (ctp_bundle t) = Inr (row_filter_expr r)"
    "parse_masking_bundle fs (ctp_bundle t) = Inr (column_policies m)"
    "output_schema m = masked_output_schema (plan_schema inner) (column_policies m)"
    "(\<not> ctp_has_dp t \<and> g = MaskingExec m (RowFilterExec r (ContractApprovedExec a inner)))
     \<or> (ctp_has_dp t \<and> (\<exists>l. g = LaplaceNoiseExec l (MaskingExec m (RowFilterExec r (ContractApprovedExec a inner)))
         \<and> parse_dp_bundle fs (ctp_bundle t) = Inr (ln_dp_columns l) \<and> ln_tenant l = ctp_tenant t))"
proof -
  obtain pa w1 pr w2 pm w3 where s: "new_contract_approved (ctp_bundle t) inner w = Inr (pa, w1)"
    "new_row_filter fs (ctp_bundle t) pa w1 = Inr (pr, w2)" "new_masking fs (ctp_bundle t) pr w2 = Inr (pm, w3)"
    "(if ctp_has_dp t then new_permissive fs (ctp_bundle t) (ctp_tenant t) pm w3 else Inr (pm, w3)) = Inr (g, w')"
    using governed_plan_steps [OF assms] by blast
  obtain a where a: "pa = ContractApprovedExec a inner" "ca_bundle a = ctp_bundle t" "bundle_contract_id (ctp_bundle t) \<noteq> []"
    using new_contract_approved_inv [OF s(1)] by blast
  obtain r where r: "pr = RowFilterExec r pa" "parse_row_filter fs (ctp_bundle t) = Inr (row_filter_expr r)"
    using new_row_filter_inv [OF s(2)] by blast
  obtain m where m: "pm = MaskingExec m pr" "parse_masking_bundle fs (ctp_bundle t) = Inr (column_policies m)"
    "output_schema m = masked_output_schema (plan_schema pr) (column_policies m)"
    using new_masking_inv [OF s(3)] by blast
  have "(\<not> ctp_has_dp t \<and> g = pm) \<or> (ctp_has_dp t \<and> (\<exists>l. g = LaplaceNoiseExec l pm
      \<and> parse_dp_bundle fs (ctp_bundle t) = Inr (ln_dp_columns l) \<and> ln_tenant l = ctp_tenant t))"
    using s(4) new_permissive_inv [of fs "ctp_bundle t" "ctp_tenant t" pm w3 g w'] by (auto split: if_splits)
  moreover have "output_schema m = masked_output_schema (plan_schema inner) (column_policies m)"
    using m(3) r(1) a(1) by simp
  ultimately show thesis using that a r m(1,2) by blast
qed

lemma governed_plan_built:
  assumes "built fs K inner" "governed_plan fs t inner w = Inr (g, w')"
  shows "built fs K g"
proof (rule governed_plan_steps [OF assms(2)])
  fix a w1 r w2 m w3
  assume s: "new_contract_approved (ctp_bundle t) inner w = Inr (a, w1)"
    "new_row_filter fs (ctp_bundle t) a w1 = Inr (r, w2)" "new_masking fs (ctp_bundle t) r w2 = Inr (m, w3)"
    "(if ctp_has_dp t then new_permissive fs (ctp_bundle t) (ctp_tenant t) m w3 else Inr (m, w3)) = Inr (g, w')"
  have "built fs K a" using assms(1) s(1) by (rule built.approve)
  then have "built fs K r" using s(2) by (rule built.row_filter)
  then have m: "built fs K m" using s(3) by (rule built.masking)
  then show ?thesis using s(4) built.laplace [OF m]
    by (auto simp: new_permissive_def split: if_splits prod.splits)
qed

section \<open>Policies reach the operators\<close>

lemma parse_row_filter_policy:
  assumes "serde_json_spec to_vec from_slice rr"
  shows "parse_row_filter from_slice (to_bundle_handle to_vec uuid p) = Inr (row_filter p)"
proof (rule bundle_reread_fields [OF assms, of p])
  fix kvs assume k: "from_slice (to_bundle_bytes to_vec p) = Some (JObj kvs)" "to_bundle_bytes to_vec p \<noteq> []"
    "distinct (map fst kvs)" "map_of kvs ''row_filter'' = Some (case row_filter p of None \<Rightarrow> JNull | Some f \<Rightarrow> JStr f)"
  obtain fs where "struct_fields [''row_filter''] (JObj kvs) = Some fs" "fs ''row_filter'' = map_of kvs ''row_filter''"
    using struct_fields_obj [OF k(3), of "[''row_filter'']"] by auto
  then show ?thesis using k
    by (auto simp: parse_row_filter_def to_bundle_handle_def from_x02_bytes_def de_row_filter_def defaulted_def
        de_option_def split: option.splits)
qed

lemma governed_plan_plans:
  assumes "serde_json_spec to_vec from_slice rr" "distinct (map fst (column_masks p))" "contract_id p \<noteq> []" "dp_columns p = []"
  shows "\<exists>g w'. governed_plan from_slice (new_provider to_vec from_slice uuid inner p) raw w = Inr (g, w')"
proof -
  let ?t = "new_provider to_vec from_slice uuid inner p"
  have b: "ctp_bundle ?t = to_bundle_handle to_vec uuid p" "\<not> ctp_has_dp ?t"
    using assms(4) by (simp_all add: new_provider_def Let_def has_dp_def)
  obtain ps where "parse_masking_bundle from_slice (to_bundle_handle to_vec uuid p) = Inr ps"
    using parse_masking_bundle_policy [OF assms(1,2)] by blast
  moreover have "bundle_contract_id (to_bundle_handle to_vec uuid p) \<noteq> []"
    using assms(3) by (simp add: to_bundle_handle_def from_x02_bytes_def)
  ultimately show ?thesis using parse_row_filter_policy [OF assms(1), of uuid p] b
    by (simp add: governed_plan_def new_contract_approved_def new_row_filter_def new_masking_def alloc_node_def Let_def)
qed


text \<open>
  C35: governed scans of a valid policy can be planned. A policy with a contract id, without DP columns
  and with one mask per column is always turned into an enforcement stack, whatever its masks and row
  filter are: the bundle it is serialised to is read back by every operator.
\<close>

theorem governed_plan_succeeds:
  assumes "serde_json_spec to_vec from_slice rr" "distinct (map fst (column_masks p))" "contract_id p \<noteq> []" "dp_columns p = []"
  shows "\<exists>g w'. governed_plan from_slice (new_provider to_vec from_slice uuid inner p) raw w = Inr (g, w')"
  by (rule governed_plan_plans [OF assms])

section \<open>Contract sources\<close>

text \<open>
  What the catalog relies on of a contract source (the trait \<open>ContractSource\<close>): a resolved policy is a
  map from columns to masks. Everything the catalog hands to DataFusion then is a governed table of an
  allowed policy.
\<close>

locale contract_source =
  fixes src :: "string \<Rightarrow> caller \<Rightarrow> contract_error + resolved_policy"
  assumes masks_distinct: "src ds who = Inr p \<Longrightarrow> distinct (map fst (column_masks p))"
begin

lemma table_governed:
  assumes "griot_table to_vec from_slice uuid src binding who name = Inr r"
  shows "\<exists>p inner. src name who = Inr p \<and> is_allowed p \<and> binding name = Inr inner
    \<and> r = Some (new_provider to_vec from_slice uuid inner p)"
  using assms by (auto simp: griot_table_def result_simps is_allowed_def split: decision.splits)

lemma table_masks:
  assumes "serde_json_spec to_vec from_slice rr" "griot_table to_vec from_slice uuid src binding who name = Inr (Some t)"
    and "governed_plan from_slice t raw w = Inr (g, w')"
  shows "\<exists>p a r m. src name who = Inr p \<and> is_allowed p \<and> row_filter_expr r = row_filter p
    \<and> (g = MaskingExec m (RowFilterExec r (ContractApprovedExec a raw))
       \<or> (\<exists>l. g = LaplaceNoiseExec l (MaskingExec m (RowFilterExec r (ContractApprovedExec a raw)))))
    \<and> (\<forall>col. map_of (column_policies m) col = (case map_of (column_masks p) col of
             Some act \<Rightarrow> if act = Noop then None else Some (policy_of_action act) | None \<Rightarrow> None))"
proof -
  obtain p inner where p: "src name who = Inr p" "is_allowed p" "t = new_provider to_vec from_slice uuid inner p"
    using table_governed [OF assms(2)] by auto
  have b: "ctp_bundle t = to_bundle_handle to_vec uuid p" by (simp add: p(3) new_provider_def Let_def)
  show ?thesis
  proof (rule governed_plan_inv [OF assms(3)])
    fix a r m
    assume h: "parse_row_filter from_slice (ctp_bundle t) = Inr (row_filter_expr r)"
      "parse_masking_bundle from_slice (ctp_bundle t) = Inr (column_policies m)"
      "(\<not> ctp_has_dp t \<and> g = MaskingExec m (RowFilterExec r (ContractApprovedExec a raw)))
       \<or> (ctp_has_dp t \<and> (\<exists>l. g = LaplaceNoiseExec l (MaskingExec m (RowFilterExec r (ContractApprovedExec a raw)))
         \<and> parse_dp_bundle from_slice (ctp_bundle t) = Inr (ln_dp_columns l) \<and> ln_tenant l = ctp_tenant t))"
    have "row_filter_expr r = row_filter p" using h(1) parse_row_filter_policy [OF assms(1)] b by simp
    moreover have "\<forall>col. map_of (column_policies m) col = (case map_of (column_masks p) col of
             Some act \<Rightarrow> if act = Noop then None else Some (policy_of_action act) | None \<Rightarrow> None)"
      using h(2) parse_masking_bundle_policy [OF assms(1) masks_distinct [OF p(1)], of uuid] b by auto
    ultimately show ?thesis using p(1,2) h(3) by blast
  qed
qed

end

interpretation json_source: contract_source "resolve cs" for cs
  by unfold_locales
    (auto simp: resolve_def and_then_eq_Inr map_err_eq_Inr allow_all_def split: if_splits dest!: collect_masks_distinct)

text \<open>
  C8: declared masks reach the plan. For an engine over JSON contracts, whenever the catalog hands out
  a table to a caller outside the owning tenant and a scan of it plans, the plan's masking operator
  masks every column for which the contract's last effective declaration is a mask, with that very
  mask, and the plan's row filter is the contract's.
\<close>

theorem json_masks_enforced:
  assumes "serde_json_spec to_vec from_slice rr" "map_of cs name = Some c" "tenant who \<noteq> jc_owner_tenant c"
    and "griot_table to_vec from_slice uuid (resolve cs) binding who name = Inr (Some t)"
    and "governed_plan from_slice t raw w = Inr (g, w')"
  shows "\<exists>a r m. (g = MaskingExec m (RowFilterExec r (ContractApprovedExec a raw))
       \<or> (\<exists>l. g = LaplaceNoiseExec l (MaskingExec m (RowFilterExec r (ContractApprovedExec a raw)))))
    \<and> row_filter_expr r = jc_row_filter c
    \<and> (\<forall>col. map_of (column_policies m) col = map_option policy_of_action (effective_action (jc_columns c) col))"
proof -
  obtain p a r m where h: "resolve cs name who = Inr p" "is_allowed p" "row_filter_expr r = row_filter p"
    "g = MaskingExec m (RowFilterExec r (ContractApprovedExec a raw))
       \<or> (\<exists>l. g = LaplaceNoiseExec l (MaskingExec m (RowFilterExec r (ContractApprovedExec a raw))))"
    "\<And>col. map_of (column_policies m) col = (case map_of (column_masks p) col of
             Some act \<Rightarrow> if act = Noop then None else Some (policy_of_action act) | None \<Rightarrow> None)"
    using json_source.table_masks [OF assms(1,4,5)] by blast
  have masks: "collect_masks (jc_columns c) [] = Inr (column_masks p)" and rf: "row_filter p = jc_row_filter c"
    using h(1,2) assms(2,3) by (auto simp: resolve_def get_contract_def is_allowed_def and_then_eq_Inr map_err_eq_Inr split: if_splits)
  have "Noop \<notin> snd ` set (column_masks p)" using collect_masks_no_noop [OF masks] by simp
  then have noop: "map_of (column_masks p) col \<noteq> Some Noop" for col
    by (force dest: map_of_SomeD)
  have "map_of (column_policies m) col = map_option policy_of_action (effective_action (jc_columns c) col)" for col
    using h(5) [of col] noop [of col] collect_masks_effective [OF masks, of col] by (auto split: option.splits)
  then show ?thesis using h(3,4) rf by (intro exI [of _ a] exI [of _ r] exI [of _ m]) simp
qed

lemma case_decision_Inr:
  "(case d of Allow \<Rightarrow> x | Deny why \<Rightarrow> Inl (f why)) = Inr y \<longleftrightarrow> d = Allow \<and> x = Inr y"
  by (cases d) auto


section \<open>Rows\<close>

text \<open>How an enforcement stack runs.\<close>

lemma masked_stack_runs:
  "collect_partition e (MaskingExec m (RowFilterExec r (ContractApprovedExec a (DfExec n cs)))) part w =
     (case x_df e n cs part (emit_approval_event a w) of (Inl err, w') \<Rightarrow> (Inl err, w')
      | (Inr its, w') \<Rightarrow> drive e its (StFilter (row_filter_expr r) # StMask (column_policies m) (output_schema m) # []) w')"
  by (auto simp: collect_partition_def split: prod.splits sum.splits)

lemma noised_stack_runs:
  "collect_partition e (LaplaceNoiseExec l (MaskingExec m (RowFilterExec r (ContractApprovedExec a (DfExec n cs))))) part w =
     (case x_df e n cs part (emit_approval_event a w) of (Inl err, w') \<Rightarrow> (Inl err, w')
      | (Inr its, w') \<Rightarrow> drive e its (StFilter (row_filter_expr r) # StMask (column_policies m) (output_schema m)
          # (if ln_dp_columns l = [] then [] else [StDp (ln_dp_columns l) (ln_budget l) (ln_tenant l) (ln_id l) (Fin 0)])) w')"
  by (auto simp: collect_partition_def split: prod.splits sum.splits)

text \<open>What one raw batch becomes in a plan with a filter and a mask.\<close>

definition governed_batch :: "exec_env \<Rightarrow> string option \<Rightarrow> (string \<times> mask_policy) list \<Rightarrow> schema \<Rightarrow> record_batch \<Rightarrow> record_batch \<Rightarrow> bool" where
  "governed_batch env f ps s raw out \<longleftrightarrow> (\<exists>mid. filter_item (x_arrow env) (x_sql env) (x_expr env) f raw = Inr mid
     \<and> mask_item (x_arrow env) (x_crypto env) ps s mid = Inr out)"

lemma drive_filter_mask:
  "drive env its [StFilter f, StMask ps s] w = (Inr bs, w') \<Longrightarrow>
     w' = w \<and> (\<exists>raws. its = map Inr raws \<and> list_all2 (governed_batch env f ps s) raws bs)"
proof (induction its arbitrary: bs)
  case (Cons it its)
  show ?case
  proof (cases it)
    case (Inr raw)
    with Cons.prems obtain mid out bs' where h: "filter_item (x_arrow env) (x_sql env) (x_expr env) f raw = Inr mid"
      "mask_item (x_arrow env) (x_crypto env) ps s mid = Inr out"
      "drive env its [StFilter f, StMask ps s] w = (Inr bs', w')" "bs = out # bs'"
      by (auto split: prod.splits sum.splits)
    obtain raws where r: "w' = w" "its = map Inr raws" "list_all2 (governed_batch env f ps s) raws bs'"
      using Cons.IH [OF h(3)] by blast
    have "governed_batch env f ps s raw out" using h(1,2) by (auto simp: governed_batch_def)
    then show ?thesis using Inr h(4) r by (intro conjI exI [of _ "raw # raws"]) simp_all
  qed (use Cons.prems in simp)
qed simp

text \<open>
  C1: every row a governed scan returns was filtered and masked. For a policy without DP columns, if
  collecting the governed plan over a raw DataFusion scan succeeds, then the raw scan delivered only
  batches, and each returned batch is the raw batch filtered by the policy's predicate and then masked
  with the policy's masks, in the order of the raw batches: none is skipped, reordered or passed on
  unprocessed.
\<close>

theorem governed_rows:
  assumes "governed_plan from_slice t (DfExec n cs) w = Inr (g, w1)" "\<not> ctp_has_dp t"
    and "collect_partition env g part w1 = (Inr bs, w2)"
  shows "\<exists>f ps raws w3. parse_row_filter from_slice (ctp_bundle t) = Inr f
    \<and> parse_masking_bundle from_slice (ctp_bundle t) = Inr ps
    \<and> x_df env n cs part w3 = (Inr (map Inr raws), w2)
    \<and> list_all2 (governed_batch env f ps (masked_output_schema (node_schema n) ps)) raws bs"
proof (rule governed_plan_inv [OF assms(1)])
  fix a r m
  assume h: "parse_row_filter from_slice (ctp_bundle t) = Inr (row_filter_expr r)"
    "parse_masking_bundle from_slice (ctp_bundle t) = Inr (column_policies m)"
    "output_schema m = masked_output_schema (plan_schema (DfExec n cs)) (column_policies m)"
    "(\<not> ctp_has_dp t \<and> g = MaskingExec m (RowFilterExec r (ContractApprovedExec a (DfExec n cs))))
     \<or> (ctp_has_dp t \<and> (\<exists>l. g = LaplaceNoiseExec l (MaskingExec m (RowFilterExec r (ContractApprovedExec a (DfExec n cs))))
         \<and> parse_dp_bundle from_slice (ctp_bundle t) = Inr (ln_dp_columns l) \<and> ln_tenant l = ctp_tenant t))"
  have g: "g = MaskingExec m (RowFilterExec r (ContractApprovedExec a (DfExec n cs)))" using h(4) assms(2) by simp
  let ?w = "emit_approval_event a w1" and ?sts = "[StFilter (row_filter_expr r), StMask (column_policies m) (output_schema m)]"
  obtain its w4 where x: "x_df env n cs part ?w = (Inr its, w4)" "drive env its ?sts w4 = (Inr bs, w2)"
    using assms(3) by (auto simp: g collect_partition_def split: prod.splits sum.splits)
  obtain raws where "w4 = w2" "its = map Inr raws"
    "list_all2 (governed_batch env (row_filter_expr r) (column_policies m) (output_schema m)) raws bs"
    using drive_filter_mask [OF x(2)] by blast
  then show ?thesis using x(1) h(1-3) by auto
qed

end
