(* ===== verification/Wire_Bytes.thy ===== *)
theory Wire_Bytes
  imports Serde_Json "HOL-Library.Word"
begin

text \<open>
  Fixed-width integers as bytes, for the digest of signed bundles and for the length-prefixed frames of
  the socket protocols.
\<close>

text \<open>\<open>to_le_bytes\<close>, \<open>to_be_bytes\<close> of an integer of \<open>n\<close> bytes; \<open>as u32\<close> keeps the low four.\<close>

definition le_bytes :: "nat \<Rightarrow> nat \<Rightarrow> bytes" where
  "le_bytes n v = map (\<lambda>i. char_of (v div 256 ^ i)) [0..<n]"

definition be_bytes :: "nat \<Rightarrow> nat \<Rightarrow> bytes" where
  "be_bytes n v = rev (le_bytes n v)"

lemma length_le_bytes [simp]: "length (le_bytes n v) = n" "length (be_bytes n v) = n"
  by (simp_all add: le_bytes_def be_bytes_def)

text \<open>The number an \<open>n\<close>-byte encoding stands for.\<close>

fun of_le :: "bytes \<Rightarrow> nat" where
  "of_le [] = 0"
| "of_le (c # bs) = code c + 256 * of_le bs"

lemma le_bytes_Suc: "le_bytes (Suc n) v = char_of v # le_bytes n (v div 256)"
proof -
  have "le_bytes (Suc n) v = char_of v # map (\<lambda>i. char_of (v div 256 ^ i)) (map Suc [0..<n])"
    by (simp only: le_bytes_def map_Suc_upt upt_conv_Cons [OF zero_less_Suc] list.map power_0 div_by_1)
  then show ?thesis by (simp add: le_bytes_def div_mult2_eq comp_def)
qed

lemma of_le_bytes: "of_le (le_bytes n v) = v mod 256 ^ n"
proof (induction n arbitrary: v)
  case 0
  then show ?case by (simp add: le_bytes_def)
next
  case (Suc n)
  then show ?case by (simp add: le_bytes_Suc mod_mult2_eq)
qed

lemma le_bytes_inj: "u < 256 ^ n \<Longrightarrow> v < 256 ^ n \<Longrightarrow> le_bytes n u = le_bytes n v \<longleftrightarrow> u = v"
  by (metis of_le_bytes mod_less)

lemma be_bytes_inj: "u < 256 ^ n \<Longrightarrow> v < 256 ^ n \<Longrightarrow> be_bytes n u = be_bytes n v \<longleftrightarrow> u = v"
  by (simp add: be_bytes_def le_bytes_inj)

lemma le_bytes_word64: "le_bytes 8 (unat (u :: 64 word)) = le_bytes 8 (unat v) \<longleftrightarrow> u = v"
proof -
  have "unat w < 256 ^ 8" for w :: "64 word" by (rule less_le_trans [OF unsigned_less]) simp
  then show ?thesis by (simp only: le_bytes_inj word_unat_eq_iff)
qed

lemma le_bytes_word32: "le_bytes 4 (unat (u :: 32 word)) = le_bytes 4 (unat v) \<longleftrightarrow> u = v"
proof -
  have "unat w < 256 ^ 4" for w :: "32 word" by (rule less_le_trans [OF unsigned_less]) simp
  then show ?thesis by (simp only: le_bytes_inj word_unat_eq_iff)
qed

end
