(* ===== verification/Platform_Bundle.thy ===== *)
theory Platform_Bundle
  imports Governed_Table Crypto Wire_Bytes "HOL-Library.Product_Lexorder"
begin

text \<open>
  \<open>src/src/platform/bundle.rs\<close> and \<open>src/src/platform/bundle_source.rs\<close>: the signed bundle of the
  contract authority, its canonical digest and signing payload, the verification of its signature, the
  mapping of a bundle to a resolved policy, and the contract source that fetches bundles over HTTP.
  The P-256 implementation, the digest and the HTTP client are parameters. A hasher is the bytes it has
  been fed.
\<close>

section \<open>Model\<close>

record bundle_manifest =
  bm_contract_id :: string
  bm_contract_version :: "64 word"
  compiled_at_unix_ms :: "64 word"

record wasm_module =
  wm_name :: string
  wm_bytes :: bytes

record rego_bundle =
  rb_name :: string
  rb_source :: string

record sql_template =
  st_name :: string
  st_template :: string

record resolution_map_entry =
  dataset_id :: string
  operation :: string
  check_ref :: string

record compiled_bundle =
  manifest :: bundle_manifest
  wasm_modules :: "wasm_module list"
  rego_bundles :: "rego_bundle list"
  sql_templates :: "sql_template list"
  resolution_map :: "resolution_map_entry list"

record signed_bundle_metadata =
  bundle_hash_hex :: string
  signed_at_unix_ms :: "64 word"
  key_generation :: "32 word"

record signed_bundle_file =
  sf_bundle :: compiled_bundle
  signature_hex :: string
  metadata :: signed_bundle_metadata

datatype verify_error = VerifyError string

subsection \<open>Parsing\<close>

definition de_u64 :: "json \<Rightarrow> 64 word option" where
  "de_u64 j = map_option word_of_nat (de_uint 64 j)"

definition de_u32 :: "json \<Rightarrow> 32 word option" where
  "de_u32 j = map_option word_of_nat (de_uint 32 j)"

definition de_u8 :: "json \<Rightarrow> char option" where
  "de_u8 j = map_option char_of (de_uint 8 j)"

definition de_manifest :: "json \<Rightarrow> bundle_manifest option" where
  "de_manifest j = Option.bind (struct_fields [''contract_id'', ''contract_version'', ''compiled_at_unix_ms''] j) (\<lambda>fs.
     Option.bind (required fs ''contract_id'' de_string) (\<lambda>c.
     Option.bind (required fs ''contract_version'' de_u64) (\<lambda>v.
     Option.bind (required fs ''compiled_at_unix_ms'' de_u64) (\<lambda>t.
       Some \<lparr>bm_contract_id = c, bm_contract_version = v, compiled_at_unix_ms = t\<rparr>))))"

definition de_wasm :: "json \<Rightarrow> wasm_module option" where
  "de_wasm j = Option.bind (struct_fields [''name'', ''bytes''] j) (\<lambda>fs.
     Option.bind (required fs ''name'' de_string) (\<lambda>n.
     Option.bind (required fs ''bytes'' (de_vec de_u8)) (\<lambda>b. Some \<lparr>wm_name = n, wm_bytes = b\<rparr>)))"

definition de_rego :: "json \<Rightarrow> rego_bundle option" where
  "de_rego j = Option.bind (struct_fields [''name'', ''source''] j) (\<lambda>fs.
     Option.bind (required fs ''name'' de_string) (\<lambda>n.
     Option.bind (required fs ''source'' de_string) (\<lambda>s. Some \<lparr>rb_name = n, rb_source = s\<rparr>)))"

definition de_sql_template :: "json \<Rightarrow> sql_template option" where
  "de_sql_template j = Option.bind (struct_fields [''name'', ''template''] j) (\<lambda>fs.
     Option.bind (required fs ''name'' de_string) (\<lambda>n.
     Option.bind (required fs ''template'' de_string) (\<lambda>s. Some \<lparr>st_name = n, st_template = s\<rparr>)))"

definition de_entry :: "json \<Rightarrow> resolution_map_entry option" where
  "de_entry j = Option.bind (struct_fields [''dataset_id'', ''operation'', ''check_ref''] j) (\<lambda>fs.
     Option.bind (required fs ''dataset_id'' de_string) (\<lambda>d.
     Option.bind (required fs ''operation'' de_string) (\<lambda>op.
     Option.bind (required fs ''check_ref'' de_string) (\<lambda>c. Some \<lparr>dataset_id = d, operation = op, check_ref = c\<rparr>))))"

definition de_resolution_map :: "json \<Rightarrow> resolution_map_entry list option" where
  "de_resolution_map j = Option.bind (struct_fields [''entries''] j) (\<lambda>fs. required fs ''entries'' (de_vec de_entry))"

definition de_compiled_bundle :: "json \<Rightarrow> compiled_bundle option" where
  "de_compiled_bundle j = Option.bind (struct_fields [''manifest'', ''wasm_modules'', ''rego_bundles'', ''sql_templates'', ''resolution_map''] j) (\<lambda>fs.
     Option.bind (required fs ''manifest'' de_manifest) (\<lambda>m.
     Option.bind (required fs ''wasm_modules'' (de_vec de_wasm)) (\<lambda>w.
     Option.bind (required fs ''rego_bundles'' (de_vec de_rego)) (\<lambda>r.
     Option.bind (required fs ''sql_templates'' (de_vec de_sql_template)) (\<lambda>s.
     Option.bind (required fs ''resolution_map'' de_resolution_map) (\<lambda>e.
       Some \<lparr>manifest = m, wasm_modules = w, rego_bundles = r, sql_templates = s, resolution_map = e\<rparr>))))))"

definition de_metadata :: "json \<Rightarrow> signed_bundle_metadata option" where
  "de_metadata j = Option.bind (struct_fields [''bundle_hash_hex'', ''signed_at_unix_ms'', ''key_generation''] j) (\<lambda>fs.
     Option.bind (required fs ''bundle_hash_hex'' de_string) (\<lambda>h.
     Option.bind (required fs ''signed_at_unix_ms'' de_u64) (\<lambda>t.
     Option.bind (required fs ''key_generation'' de_u32) (\<lambda>g.
       Some \<lparr>bundle_hash_hex = h, signed_at_unix_ms = t, key_generation = g\<rparr>))))"

definition de_signed_bundle :: "json \<Rightarrow> signed_bundle_file option" where
  "de_signed_bundle j = Option.bind (struct_fields [''bundle'', ''signature_hex'', ''metadata''] j) (\<lambda>fs.
     Option.bind (required fs ''bundle'' de_compiled_bundle) (\<lambda>b.
     Option.bind (required fs ''signature_hex'' de_string) (\<lambda>s.
     Option.bind (required fs ''metadata'' de_metadata) (\<lambda>m. Some \<lparr>sf_bundle = b, signature_hex = s, metadata = m\<rparr>))))"

definition from_json :: "from_slice \<Rightarrow> bytes \<Rightarrow> verify_error + signed_bundle_file" where
  "from_json from_slice body = ok_or (VerifyError ''bundle JSON parse: '') (Option.bind (from_slice body) de_signed_bundle)"

subsection \<open>Canonical hashing\<close>

definition hash_field :: "bytes \<Rightarrow> bytes \<Rightarrow> bytes" where
  "hash_field bs hasher = hasher @ be_bytes 4 (length bs) @ bs"

definition digest_input :: "compiled_bundle \<Rightarrow> bytes" where
  "digest_input b =
     (let h = hash_field (bm_contract_id (manifest b)) [];
          h = hash_field (le_bytes 8 (unat (bm_contract_version (manifest b)))) h;
          h = hash_field (le_bytes 8 (unat (compiled_at_unix_ms (manifest b)))) h;
          wasm = sort_key wm_name (wasm_modules b);
          h = hash_field (be_bytes 4 (length wasm)) h;
          h = fold (\<lambda>m h. hash_field (wm_bytes m) (hash_field (wm_name m) h)) wasm h;
          rego = sort_key rb_name (rego_bundles b);
          h = hash_field (be_bytes 4 (length rego)) h;
          h = fold (\<lambda>r h. hash_field (rb_source r) (hash_field (rb_name r) h)) rego h;
          sql = sort_key st_name (sql_templates b);
          h = hash_field (be_bytes 4 (length sql)) h;
          h = fold (\<lambda>s h. hash_field (st_template s) (hash_field (st_name s) h)) sql h;
          entries = sort_key (\<lambda>e. (dataset_id e, operation e)) (resolution_map b);
          h = hash_field (be_bytes 4 (length entries)) h
      in fold (\<lambda>e h. hash_field (check_ref e) (hash_field (operation e) (hash_field (dataset_id e) h))) entries h)"

definition canonical_digest :: "crypto \<Rightarrow> compiled_bundle \<Rightarrow> bytes" where
  "canonical_digest K b = sha256 K (digest_input b)"

definition payload_input :: "bytes \<Rightarrow> 32 word \<Rightarrow> 64 word \<Rightarrow> bytes \<Rightarrow> bytes" where
  "payload_input hash generation signed_at recorded =
     (let h = hash_field ''t03:bundle-signing-payload:v1'' [];
          h = hash_field hash h;
          h = hash_field (le_bytes 4 (unat generation)) h;
          h = hash_field (le_bytes 8 (unat signed_at)) h
      in hash_field recorded h)"

definition canonical_signing_payload :: "crypto \<Rightarrow> bytes \<Rightarrow> 32 word \<Rightarrow> 64 word \<Rightarrow> bytes \<Rightarrow> bytes" where
  "canonical_signing_payload K hash generation signed_at recorded = sha256 K (payload_input hash generation signed_at recorded)"

subsection \<open>Verification\<close>

record ('k, 's) p256 =
  sig_from_der :: "bytes \<Rightarrow> 's option"
  ecdsa_verify :: "'k \<Rightarrow> bytes \<Rightarrow> 's \<Rightarrow> bool"

definition verify :: "crypto \<Rightarrow> ('k, 's) p256 \<Rightarrow> 'k \<Rightarrow> signed_bundle_file \<Rightarrow> verify_error + unit" where
  "verify K P vk f =
     (let recomputed = canonical_digest K (sf_bundle f) in
      and_then (ok_or (VerifyError ''bundle_hash_hex decode: '') (hex_decode K (bundle_hash_hex (metadata f)))) (\<lambda>recorded.
      if recomputed \<noteq> recorded then Inl (VerifyError ''recomputed bundle digest does not match metadata.bundle_hash'')
      else (let payload = canonical_signing_payload K recomputed (key_generation (metadata f)) (signed_at_unix_ms (metadata f)) recorded in
        and_then (ok_or (VerifyError ''sig hex: '') (hex_decode K (signature_hex f))) (\<lambda>sig_der.
        and_then (ok_or (VerifyError ''invalid DER signature: '') (sig_from_der P sig_der)) (\<lambda>sig.
        if ecdsa_verify P vk payload sig then Inr () else Inl (VerifyError ''signature verification failed: ''))))))"

definition owner_tenant :: "signed_bundle_file \<Rightarrow> string option" where
  "owner_tenant f = (case resolution_map (sf_bundle f) of [] \<Rightarrow> None | e # _ \<Rightarrow> Some (hd (split_on (CHR ''/'') (dataset_id e))))"

subsection \<open>Mapping to a policy\<close>

lemma find_sub_bound: "find_sub pat s = Some n \<Longrightarrow> n + length pat \<le> length s"
  by (induction s arbitrary: n) (auto split: if_splits dest: prefix_length_le)

text \<open>The loop of \<open>masks_from_sql\<close> for one function.\<close>

function scan_masks :: "string \<Rightarrow> mask_action \<Rightarrow> string \<Rightarrow> (string \<times> mask_action) list \<Rightarrow> (string \<times> mask_action) list" where
  "scan_masks func action rest masks = (case find_sub func rest of
     None \<Rightarrow> masks
   | Some pos \<Rightarrow> (let after = drop (pos + length func) rest in
       case find_sub '')'' after of
         None \<Rightarrow> masks
       | Some close \<Rightarrow> (let col = trim_chars (\<lambda>u. u = [CHR 0x22]) (str_trim (take close after)) in
           scan_masks func action (drop (close + 1) after) (if col \<noteq> [] then AList.update col action masks else masks))))"
  by pat_completeness auto
termination
  by (relation "measure (\<lambda>(_, _, rest, _). length rest)") (auto dest!: find_sub_bound)

declare scan_masks.simps [simp del]

definition mask_functions :: "(string \<times> mask_action) list" where
  "mask_functions = [(''sha256_hex('', HashSha256), (''mask_hash_sha256('', HashSha256), (''mask_redact('', Redact), (''mask_tokenize('', Tokenize)]"

definition masks_from_sql :: "string \<Rightarrow> (string \<times> mask_action) list" where
  "masks_from_sql sql = fold (\<lambda>(func, action). scan_masks func action sql) mask_functions []"

definition row_filter_from_sql :: "string \<Rightarrow> string option" where
  "row_filter_from_sql sql = Option.bind (find_sub '' WHERE '' (to_ascii_uppercase sql)) (\<lambda>pos.
     (let clause = str_trim (drop (pos + length '' WHERE '') sql);
          normalised = concat (filter (\<lambda>u. \<not> is_ws_char u) (utf8_chars clause))
      in if normalised = [] \<or> normalised = ''1=1'' then None else Some clause))"

text \<open>The loop of \<open>allowed_purposes\<close>.\<close>

function scan_purposes :: "string \<Rightarrow> string list" where
  "scan_purposes rest = (case find_sub ''declared_purpose'' rest of
     None \<Rightarrow> []
   | Some pos \<Rightarrow> (let after = drop (pos + length ''declared_purpose'') rest in
       case find_sub [CHR 0x22] after of
         None \<Rightarrow> scan_purposes after
       | Some q1 \<Rightarrow> (let tail = drop (q1 + 1) after in
           case find_sub [CHR 0x22] tail of
             None \<Rightarrow> scan_purposes after
           | Some q2 \<Rightarrow> take q2 tail # scan_purposes (drop (q2 + 1) tail))))"
  by pat_completeness auto
termination
  by (relation "measure length") (auto dest!: find_sub_bound)

declare scan_purposes.simps [simp del]

definition bundle_purposes :: "compiled_bundle \<Rightarrow> string list option" where
  "bundle_purposes b = map_option (\<lambda>r. scan_purposes (rb_source r)) (find (\<lambda>r. str_contains (rb_name r) ''purpose'') (rego_bundles b))"

definition non_owner_template :: "compiled_bundle \<Rightarrow> string option" where
  "non_owner_template b = map_option st_template
     (case find (\<lambda>t. str_contains (st_name t) ''non-owner'') (sql_templates b) of
        Some t \<Rightarrow> Some t
      | None \<Rightarrow> find (\<lambda>t. str_contains (st_name t) ''read'') (sql_templates b))"

definition map_bundle_to_policy :: "signed_bundle_file \<Rightarrow> caller \<Rightarrow> resolved_policy" where
  "map_bundle_to_policy f who =
     (let cid = bm_contract_id (manifest (sf_bundle f));
          version = show_nat (unat (bm_contract_version (manifest (sf_bundle f))));
          owner = (case owner_tenant f of None \<Rightarrow> [] | Some t \<Rightarrow> t);
          denied = (case bundle_purposes (sf_bundle f) of None \<Rightarrow> None
            | Some allowed \<Rightarrow> if allowed \<noteq> [] \<and> purpose who \<notin> set allowed then Some allowed else None)
      in case denied of
           Some allowed \<Rightarrow> \<lparr>contract_id = cid, contract_version = version, policy_tenant = owner,
             decision = Deny (''purpose '' @ quoted (purpose who) @ '' not permitted (allowed: '' @ debug_strs allowed @ '')''),
             column_masks = [], row_filter = None, dp_columns = []\<rparr>
         | None \<Rightarrow> if owner \<noteq> [] \<and> tenant who = owner then allow_all cid version owner
           else (let mf = (case non_owner_template (sf_bundle f) of Some t \<Rightarrow> (masks_from_sql t, row_filter_from_sql t) | None \<Rightarrow> ([], None))
             in \<lparr>contract_id = cid, contract_version = version, policy_tenant = owner, decision = Allow,
                  column_masks = fst mf, row_filter = snd mf, dp_columns = []\<rparr>))"

subsection \<open>The contract source\<close>

record 'k platform_bundle_source =
  base_url :: string
  verifying_key :: "'k option"
  auth_header :: "(string \<times> string) option"

definition new_platform_source :: "string \<Rightarrow> 'k platform_bundle_source" where
  "new_platform_source url = \<lparr>base_url = url, verifying_key = None, auth_header = None\<rparr>"

definition with_verifying_key :: "'k \<Rightarrow> 'k platform_bundle_source \<Rightarrow> 'k platform_bundle_source" where
  "with_verifying_key vk s = s\<lparr>verifying_key := Some vk\<rparr>"

definition with_auth :: "string \<Rightarrow> string \<Rightarrow> 'k platform_bundle_source \<Rightarrow> 'k platform_bundle_source" where
  "with_auth name value s = s\<lparr>auth_header := Some (name, value)\<rparr>"

text \<open>A request fails, or gives a status, its display and a body that may fail to arrive.\<close>

datatype http_outcome = HttpFailed | HttpResponse (http_status: nat) (status_text: string) (http_body: "bytes option")

type_synonym http_get = "string \<Rightarrow> (string \<times> string) option \<Rightarrow> http_outcome"

definition bundle_url :: "'k platform_bundle_source \<Rightarrow> string \<Rightarrow> string" where
  "bundle_url s cid = rev (dropWhile (\<lambda>c. c = CHR ''/'') (rev (base_url s))) @ ''/v1/contracts/'' @ cid @ ''/bundle''"

fun verify_message :: "verify_error \<Rightarrow> string" where
  "verify_message (VerifyError m) = m"

definition fetch :: "http_get \<Rightarrow> from_slice \<Rightarrow> crypto \<Rightarrow> ('k, 's) p256 \<Rightarrow> 'k platform_bundle_source \<Rightarrow> string \<Rightarrow> contract_error + signed_bundle_file" where
  "fetch get from_slice K P s cid = (let url = bundle_url s cid in
     case get url (auth_header s) of
       HttpFailed \<Rightarrow> Inl (ContractPlatform (''fetch '' @ url))
     | HttpResponse status shown body \<Rightarrow>
         and_then (ok_or (ContractPlatform (''read body '' @ url)) body) (\<lambda>bytes.
         if \<not> (200 \<le> status \<and> status < 300) then Inl (ContractPlatform (''T03 returned '' @ shown @ '' for '' @ url))
         else and_then (map_err (\<lambda>e. ContractPlatform (verify_message e)) (from_json from_slice bytes)) (\<lambda>file.
           (case verifying_key s of
              None \<Rightarrow> Inr file
            | Some vk \<Rightarrow> and_then (map_err (\<lambda>e. ContractPlatform (''bundle signature: '' @ verify_message e)) (verify K P vk file)) (\<lambda>_. Inr file)))))"

definition platform_resolve :: "http_get \<Rightarrow> from_slice \<Rightarrow> crypto \<Rightarrow> ('k, 's) p256 \<Rightarrow> 'k platform_bundle_source \<Rightarrow> string \<Rightarrow> caller \<Rightarrow> contract_error + resolved_policy" where
  "platform_resolve get from_slice K P s dataset who =
     and_then (fetch get from_slice K P s dataset) (\<lambda>file. Inr (map_bundle_to_policy file who))"

end
