(* ===== verification/Platform_Signature.thy ===== *)
theory Platform_Signature
  imports Platform_Bundle "HOL-Library.Multiset"
begin

text \<open>
  What the signature of a bundle covers: the canonical digest is an injective, length-prefixed encoding
  of the bundle up to the order of its named parts, and an accepted signature binds it together with the
  key generation and the time of signing. The order of the parts is not covered, although the mapping to
  a policy depends on it.
\<close>

section \<open>The encoding\<close>

text \<open>A sequence of fields as the hasher sees it.\<close>

definition enc :: "bytes list \<Rightarrow> bytes" where
  "enc fs = concat (map (\<lambda>f. be_bytes 4 (length f) @ f) fs)"

lemma enc_simps [simp]: "enc [] = []" "enc (f # fs) = be_bytes 4 (length f) @ f @ enc fs" "enc (fs @ gs) = enc fs @ enc gs"
  by (simp_all add: enc_def)

abbreviation short :: "bytes list \<Rightarrow> bool" where
  "short fs \<equiv> (\<forall>f\<in>set fs. length f < 2 ^ 32)"

lemma be_bytes_4_nonempty [simp]: "be_bytes 4 v \<noteq> []"
  using length_le_bytes(2) [of 4 v] by (metis list.size(3) zero_neq_numeral)

lemma enc_inj: "short fs \<Longrightarrow> short gs \<Longrightarrow> enc fs = enc gs \<Longrightarrow> fs = gs"
proof (induction fs arbitrary: gs)
  case Nil
  then show ?case by (cases gs) auto
next
  case (Cons f fs)
  then obtain g gs' where gs: "gs = g # gs'" by (cases gs) auto
  with Cons.prems have e: "be_bytes 4 (length f) @ f @ enc fs = be_bytes 4 (length g) @ g @ enc gs'" by simp
  then have "be_bytes 4 (length f) = be_bytes 4 (length g)" "f @ enc fs = g @ enc gs'" by simp_all
  moreover from this have "length f = length g" using Cons.prems gs by (subst (asm) be_bytes_inj) simp_all
  ultimately show ?case using Cons gs by auto
qed

lemma hash_field_enc [simp]: "hash_field f (enc fs) = enc (fs @ [f])"
  by (simp add: hash_field_def)

lemma fold_hash2: "fold (\<lambda>m h. hash_field (p m) (hash_field (n m) h)) ms (enc fs) = enc (fs @ concat (map (\<lambda>m. [n m, p m]) ms))"
  by (induction ms arbitrary: fs) (simp_all del: enc_simps)

lemma fold_hash3: "fold (\<lambda>m h. hash_field (q m) (hash_field (p m) (hash_field (n m) h))) ms (enc fs)
    = enc (fs @ concat (map (\<lambda>m. [n m, p m, q m]) ms))"
  by (induction ms arbitrary: fs) (simp_all del: enc_simps)

text \<open>The fields of a bundle, in the order the digest takes them.\<close>

definition head_fields :: "bundle_manifest \<Rightarrow> bytes list" where
  "head_fields m = [bm_contract_id m, le_bytes 8 (unat (bm_contract_version m)), le_bytes 8 (unat (compiled_at_unix_ms m))]"

definition part :: "('a \<Rightarrow> bytes list) \<Rightarrow> 'a list \<Rightarrow> bytes list" where
  "part f xs = be_bytes 4 (length xs) # concat (map f xs)"

definition entry_fields :: "compiled_bundle \<Rightarrow> bytes list" where
  "entry_fields b = part (\<lambda>e. [dataset_id e, operation e, check_ref e]) (sort_key (\<lambda>e. (dataset_id e, operation e)) (resolution_map b))"

definition sql_fields :: "compiled_bundle \<Rightarrow> bytes list" where
  "sql_fields b = part (\<lambda>s. [st_name s, st_template s]) (sort_key st_name (sql_templates b)) @ entry_fields b"

definition tail_fields :: "compiled_bundle \<Rightarrow> bytes list" where
  "tail_fields b = part (\<lambda>r. [rb_name r, rb_source r]) (sort_key rb_name (rego_bundles b)) @ sql_fields b"

definition bundle_fields :: "compiled_bundle \<Rightarrow> bytes list" where
  "bundle_fields b = head_fields (manifest b)
     @ part (\<lambda>m. [wm_name m, wm_bytes m]) (sort_key wm_name (wasm_modules b))
     @ tail_fields b"

lemma digest_input_enc: "digest_input b = enc (bundle_fields b)"
proof -
  have "hash_field f [] = enc [f]" for f by (simp add: hash_field_def)
  then show ?thesis
    by (simp add: digest_input_def Let_def fold_hash2 fold_hash3 bundle_fields_def tail_fields_def sql_fields_def entry_fields_def head_fields_def part_def del: enc_simps)
qed

lemma payload_input_enc:
  "payload_input h g t r = enc [''t03:bundle-signing-payload:v1'', h, le_bytes 4 (unat g), le_bytes 8 (unat t), r]"
proof -
  have "hash_field f [] = enc [f]" for f by (simp add: hash_field_def)
  then show ?thesis by (simp add: payload_input_def Let_def del: enc_simps)
qed

lemma concat_map_inj:
  assumes "length xs = length ys" "\<And>x. length (f x) = k" "inj f" "concat (map f xs) @ r = concat (map f ys) @ s"
  shows "xs = ys \<and> r = s"
  using assms(1,4)
proof (induction xs ys rule: list_induct2)
  case (Cons x xs y ys)
  then have "f x = f y" "concat (map f xs) @ r = concat (map f ys) @ s" by (simp_all add: assms(2))
  then show ?case using Cons.IH assms(3) by (simp add: inj_eq)
qed simp

lemma part_inj:
  assumes "length xs < 2 ^ 32" "length ys < 2 ^ 32" "\<And>x. length (f x) = k" "inj f" "part f xs @ r = part f ys @ s"
  shows "xs = ys \<and> r = s"
proof -
  have "be_bytes 4 (length xs) = be_bytes 4 (length ys)" and c: "concat (map f xs) @ r = concat (map f ys) @ s"
    using assms(5) by (simp_all add: part_def)
  then have "length xs = length ys" using assms(1,2) by (subst (asm) be_bytes_inj) simp_all
  then show ?thesis using c by (rule concat_map_inj [OF _ assms(3,4)])
qed

text \<open>Every field, and the number of parts of each kind, fits the 32-bit length prefix.\<close>

definition fits :: "compiled_bundle \<Rightarrow> bool" where
  "fits b \<longleftrightarrow> list_all (\<lambda>f. length f < 2 ^ 32) (bundle_fields b)
     \<and> length (wasm_modules b) < 2 ^ 32 \<and> length (rego_bundles b) < 2 ^ 32
     \<and> length (sql_templates b) < 2 ^ 32 \<and> length (resolution_map b) < 2 ^ 32"

definition same_content :: "compiled_bundle \<Rightarrow> compiled_bundle \<Rightarrow> bool" where
  "same_content b c \<longleftrightarrow> manifest b = manifest c \<and> mset (wasm_modules b) = mset (wasm_modules c)
     \<and> mset (rego_bundles b) = mset (rego_bundles c) \<and> mset (sql_templates b) = mset (sql_templates c)
     \<and> mset (resolution_map b) = mset (resolution_map c)"

lemma head_fields_inj: "head_fields m @ r = head_fields n @ s \<Longrightarrow> m = n \<and> r = s"
  by (cases m, cases n) (simp add: head_fields_def le_bytes_word64)

lemma sort_key_mset: "sort_key f xs = sort_key f ys \<Longrightarrow> mset xs = mset ys"
  by (metis mset_sort)

lemma digest_input_binds:
  assumes "fits b" "fits c" "digest_input b = digest_input c"
  shows "same_content b c"
proof -
  have "bundle_fields b = bundle_fields c"
    using assms by (intro enc_inj) (auto simp: digest_input_enc fits_def list_all_iff)
  then have m: "manifest b = manifest c" and "part (\<lambda>m. [wm_name m, wm_bytes m]) (sort_key wm_name (wasm_modules b)) @ tail_fields b
     = part (\<lambda>m. [wm_name m, wm_bytes m]) (sort_key wm_name (wasm_modules c)) @ tail_fields c"
    unfolding bundle_fields_def tail_fields_def by (blast dest: head_fields_inj)+
  then have w: "sort_key wm_name (wasm_modules b) = sort_key wm_name (wasm_modules c) \<and> tail_fields b = tail_fields c"
    using assms(1,2) by (intro part_inj [where k = 2]) (auto simp: fits_def inj_def)
  then have r: "sort_key rb_name (rego_bundles b) = sort_key rb_name (rego_bundles c) \<and> sql_fields b = sql_fields c"
    using assms(1,2) unfolding tail_fields_def by (intro part_inj [where k = 2]) (auto simp: fits_def inj_def)
  then have "sort_key st_name (sql_templates b) = sort_key st_name (sql_templates c) \<and> entry_fields b @ [] = entry_fields c @ []"
    using assms(1,2) unfolding sql_fields_def by (intro part_inj [where k = 2]) (auto simp: fits_def inj_def)
  moreover from this have "sort_key (\<lambda>e. (dataset_id e, operation e)) (resolution_map b) = sort_key (\<lambda>e. (dataset_id e, operation e)) (resolution_map c) \<and> ([] :: bytes list) = []"
    using assms(1,2) unfolding entry_fields_def by (intro part_inj [where k = 3]) (auto simp: fits_def inj_def)
  ultimately show ?thesis using m w r by (auto simp: same_content_def intro: sort_key_mset)
qed

section \<open>What an accepted signature says\<close>

definition signed_input :: "crypto \<Rightarrow> signed_bundle_file \<Rightarrow> bytes" where
  "signed_input K f = payload_input (canonical_digest K (sf_bundle f)) (key_generation (metadata f)) (signed_at_unix_ms (metadata f))
     (canonical_digest K (sf_bundle f))"

lemma verify_ok:
  "verify K P vk f = Inr () \<longleftrightarrow> hex_decode K (bundle_hash_hex (metadata f)) = Some (canonical_digest K (sf_bundle f))
     \<and> (\<exists>der s. hex_decode K (signature_hex f) = Some der \<and> sig_from_der P der = Some s \<and> ecdsa_verify P vk (sha256 K (signed_input K f)) s)"
  by (auto simp: verify_def Let_def result_simps canonical_signing_payload_def signed_input_def)

lemma payload_input_inj:
  assumes "payload_input h g t h = payload_input h' g' t' h'" "length h < 2 ^ 32" "length h' < 2 ^ 32"
  shows "h = h' \<and> g = g' \<and> t = t'"
proof -
  have "[''t03:bundle-signing-payload:v1'', h, le_bytes 4 (unat g), le_bytes 8 (unat t), h]
      = [''t03:bundle-signing-payload:v1'', h', le_bytes 4 (unat g'), le_bytes 8 (unat t'), h']"
    using assms by (intro enc_inj) (simp_all add: payload_input_enc del: enc_simps)
  then show ?thesis by (simp add: le_bytes_word32 le_bytes_word64)
qed

text \<open>
  C7: an accepted bundle is a released one. Suppose the signature scheme accepts under the authority's
  key only payloads of the files it released, and no two of the byte strings hashed for these files and
  the received one collide. Then a file that \<open>verify\<close> accepts has the manifest, the modules, the
  policies, the templates and the resolution entries of a released file, up to the order of each list,
  and the key generation and time of signing of that file.
\<close>

theorem accepted_bundle_released:
  assumes "crypto_spec K" "verify K P vk f = Inr ()"
    and "\<And>payload s. ecdsa_verify P vk payload s \<Longrightarrow> \<exists>r\<in>R. payload = sha256 K (signed_input K r)"
    and "inj_on (sha256 K) (\<Union>r\<in>insert f R. {digest_input (sf_bundle r), signed_input K r})"
    and "\<And>r. r \<in> insert f R \<Longrightarrow> fits (sf_bundle r)"
  shows "\<exists>r\<in>R. same_content (sf_bundle f) (sf_bundle r) \<and> key_generation (metadata f) = key_generation (metadata r)
    \<and> signed_at_unix_ms (metadata f) = signed_at_unix_ms (metadata r)"
proof -
  obtain r where r: "r \<in> R" "sha256 K (signed_input K f) = sha256 K (signed_input K r)"
    using assms(2,3) by (auto simp: verify_ok)
  have "signed_input K f = signed_input K r"
    by (rule inj_onD [OF assms(4) r(2)]) (use r(1) in auto)
  moreover have short: "length (canonical_digest K b) < 2 ^ 32" for b
    using assms(1) by (simp add: canonical_digest_def crypto_spec_def)
  ultimately have eq: "canonical_digest K (sf_bundle f) = canonical_digest K (sf_bundle r)" "key_generation (metadata f) = key_generation (metadata r)"
    "signed_at_unix_ms (metadata f) = signed_at_unix_ms (metadata r)"
    using payload_input_inj [OF _ short short] by (auto simp: signed_input_def)
  have "digest_input (sf_bundle f) = digest_input (sf_bundle r)"
    by (rule inj_onD [OF assms(4) eq(1) [unfolded canonical_digest_def]]) (use r(1) in auto)
  then have "same_content (sf_bundle f) (sf_bundle r)" using assms(5) r(1) by (intro digest_input_binds) auto
  then show ?thesis using r(1) eq(2,3) by blast
qed

section \<open>What the signature does not cover\<close>

definition with_entries :: "resolution_map_entry list \<Rightarrow> signed_bundle_file \<Rightarrow> signed_bundle_file" where
  "with_entries es f = f\<lparr>sf_bundle := (sf_bundle f)\<lparr>resolution_map := es\<rparr>\<rparr>"

lemma with_entries_simps [simp]:
  "sf_bundle (with_entries es f) = (sf_bundle f)\<lparr>resolution_map := es\<rparr>" "metadata (with_entries es f) = metadata f"
  "signature_hex (with_entries es f) = signature_hex f"
  by (simp_all add: with_entries_def)

lemma digest_input_reordered:
  assumes "mset es = mset (resolution_map b)" "distinct (map (\<lambda>e. (dataset_id e, operation e)) es)"
  shows "digest_input (b\<lparr>resolution_map := es\<rparr>) = digest_input b"
proof -
  have "sort_key (\<lambda>e. (dataset_id e, operation e)) es = sort_key (\<lambda>e. (dataset_id e, operation e)) (resolution_map b)"
    using assms by (intro sort_key_inj_key_eq) (simp_all add: distinct_map)
  then show ?thesis by (simp add: digest_input_enc bundle_fields_def tail_fields_def sql_fields_def entry_fields_def del: enc_simps)
qed


section \<open>A demonstration bundle\<close>

definition demo_compiled :: "resolution_map_entry list \<Rightarrow> compiled_bundle" where
  "demo_compiled es = \<lparr>manifest = \<lparr>bm_contract_id = ''demo_v1'', bm_contract_version = 1, compiled_at_unix_ms = 1\<rparr>, wasm_modules = [], rego_bundles = [],
     sql_templates = [\<lparr>st_name = ''row-filter-non-owner-read'',
       st_template = ''SELECT user_id, sha256_hex(email) AS email FROM {table} WHERE 1=1''\<rparr>], resolution_map = es\<rparr>"

definition acme_entry :: resolution_map_entry where
  "acme_entry = \<lparr>dataset_id = ''acme/demo_v1'', operation = ''read'', check_ref = ''policy''\<rparr>"

definition globex_entry :: resolution_map_entry where
  "globex_entry = \<lparr>dataset_id = ''globex/demo_v1'', operation = ''read'', check_ref = ''policy''\<rparr>"

definition demo_file :: signed_bundle_file where
  "demo_file = \<lparr>sf_bundle = demo_compiled [acme_entry, globex_entry], signature_hex = hex_bytes ''sig'',
     metadata = \<lparr>bundle_hash_hex = hex_bytes (canonical_digest crypto_ref (demo_compiled [acme_entry, globex_entry])),
       signed_at_unix_ms = 5, key_generation = 1\<rparr>\<rparr>"

definition demo_reordered :: signed_bundle_file where
  "demo_reordered = with_entries [globex_entry, acme_entry] demo_file"

definition demo_p256 :: "(unit, bytes) p256" where
  "demo_p256 = \<lparr>sig_from_der = Some, ecdsa_verify = (\<lambda>_ payload s. payload = sha256 crypto_ref (signed_input crypto_ref demo_file) \<and> s = ''sig'')\<rparr>"

lemma demo_entries: "mset [globex_entry, acme_entry] = mset (resolution_map (sf_bundle demo_file))"
    "distinct (map (\<lambda>e. (dataset_id e, operation e)) [globex_entry, acme_entry])"
  by (simp_all add: demo_file_def demo_compiled_def acme_entry_def globex_entry_def)

lemma demo_digest: "digest_input (sf_bundle demo_reordered) = digest_input (sf_bundle demo_file)"
  using digest_input_reordered [OF demo_entries] by (simp add: demo_reordered_def)

lemma demo_signed: "signed_input crypto_ref demo_reordered = signed_input crypto_ref demo_file"
  using demo_digest by (simp add: signed_input_def canonical_digest_def) (simp add: demo_reordered_def)

lemma demo_verify: "verify crypto_ref demo_p256 () demo_file = Inr ()"
  using crypto_spec_ref by (simp add: verify_ok crypto_spec_def demo_p256_def) (simp add: demo_file_def)

lemma demo_verify_reordered: "verify crypto_ref demo_p256 () demo_reordered = Inr ()"
  using demo_verify demo_digest demo_signed
  by (simp add: verify_ok canonical_digest_def) (simp add: demo_reordered_def)

lemma demo_fits: "fits (sf_bundle demo_file)" "fits (sf_bundle demo_reordered)"
  by (simp_all add: demo_reordered_def demo_file_def demo_compiled_def acme_entry_def globex_entry_def fits_def bundle_fields_def
    head_fields_def tail_fields_def sql_fields_def entry_fields_def part_def)

lemma crypto_ref_length: "sha256 crypto_ref (enc (f # fs)) ! 3 = char_of (length f)"
  by (simp add: crypto_ref_def nth_append be_bytes_def rev_nth) (simp add: le_bytes_def)

lemma demo_distinct_inputs:
  "sha256 crypto_ref (digest_input (sf_bundle demo_file)) \<noteq> sha256 crypto_ref (signed_input crypto_ref demo_file)"
proof
  assume eq: "sha256 crypto_ref (digest_input (sf_bundle demo_file)) = sha256 crypto_ref (signed_input crypto_ref demo_file)"
  have "sha256 crypto_ref (digest_input (sf_bundle demo_file)) ! 3 = char_of (length (bm_contract_id (manifest (sf_bundle demo_file))))"
    by (simp only: digest_input_enc bundle_fields_def head_fields_def append_Cons crypto_ref_length)
  moreover have "sha256 crypto_ref (signed_input crypto_ref demo_file) ! 3 = char_of (length ''t03:bundle-signing-payload:v1'')"
    by (simp only: signed_input_def payload_input_enc crypto_ref_length)
  moreover have "(char_of (length (bm_contract_id (manifest (sf_bundle demo_file)))) :: char) = char_of (7 :: nat)"
    by (simp add: demo_file_def demo_compiled_def)
  moreover have "(char_of (length ''t03:bundle-signing-payload:v1'') :: char) = char_of (29 :: nat)" by simp
  ultimately have "(char_of (7 :: nat) :: char) = char_of (29 :: nat)" using eq by simp
  then show False by simp
qed

text \<open>The received file has its entries in another order than the released one.\<close>

theorem accepted_bundle_released_witness:
  "demo_reordered \<noteq> demo_file \<and> (\<exists>r\<in>{demo_file}. same_content (sf_bundle demo_reordered) (sf_bundle r)
     \<and> key_generation (metadata demo_reordered) = key_generation (metadata r)
     \<and> signed_at_unix_ms (metadata demo_reordered) = signed_at_unix_ms (metadata r))"
proof
  show "demo_reordered \<noteq> demo_file" by (simp add: demo_reordered_def with_entries_def demo_file_def demo_compiled_def acme_entry_def globex_entry_def)
  show "\<exists>r\<in>{demo_file}. same_content (sf_bundle demo_reordered) (sf_bundle r)
     \<and> key_generation (metadata demo_reordered) = key_generation (metadata r)
     \<and> signed_at_unix_ms (metadata demo_reordered) = signed_at_unix_ms (metadata r)"
  proof (rule accepted_bundle_released [OF crypto_spec_ref demo_verify_reordered])
    show "inj_on (sha256 crypto_ref) (\<Union>r\<in>insert demo_reordered {demo_file}. {digest_input (sf_bundle r), signed_input crypto_ref r})"
      using demo_distinct_inputs by (auto simp: demo_digest demo_signed inj_on_def)
  qed (auto simp: demo_p256_def demo_fits)
qed


end
