(* ===== verification/Scenario.thy ===== *)
theory Scenario
  imports Governed_Table
begin

text \<open>
  A concrete setting in which the hypotheses of the properties hold: reference instances of the
  libraries, a small sales table, a contract on it, and the properties applied to them.
\<close>

section \<open>Libraries\<close>

definition eu_filter :: sql_expr where
  "eu_filter = BinaryOp (Identifier ''region'') SqlEq (Value (SingleQuotedString ''EU''))"

definition sql_ref :: sql_env where
  "sql_ref = \<lparr>parse_sql = (\<lambda>s. if s = ''SELECT 1 WHERE region = EU'' then Some [Query (Select (Some eu_filter))] else None),
     col_ref = (\<lambda>s. \<lparr>relation = None, column_name = s\<rparr>)\<rparr>"

fun column_named :: "string \<Rightarrow> schema \<Rightarrow> array list \<Rightarrow> array option" where
  "column_named n (f # s) (a # as) = (if field_name f = n then Some a else column_named n s as)"
| "column_named n _ _ = None"

text \<open>An evaluator for equality of a string column with a literal; it refuses everything else.\<close>

definition expr_ref :: expr_engine where
  "expr_ref = \<lparr>df_schema_ok = (\<lambda>_. True),
     create_physical_expr = (\<lambda>e s. case e of
       EBinary (EColumn c) Eq (ELiteral (ScUtf8 (Some v))) \<Rightarrow> Some (\<lambda>b.
         case column_named (column_name c) (batch_schema b) (batch_columns b) of
           Some (StringArray xs) \<Rightarrow> if length xs = num_rows b then Inr (BooleanArray (map (map_option (\<lambda>x. x = v)) xs)) else Inl ''evaluation''
         | _ \<Rightarrow> Inl ''evaluation'')
     | _ \<Rightarrow> None)\<rparr>"

definition sales_schema :: schema where
  "sales_schema = [\<lparr>field_name = ''region'', field_type = Utf8, nullable = True\<rparr>,
     \<lparr>field_name = ''amount'', field_type = Int64, nullable = True\<rparr>]"

definition sales_batch :: record_batch where
  "sales_batch = \<lparr>batch_schema = sales_schema,
     batch_columns = [StringArray [Some ''EU'', Some ''US'', None], Int64Array [Some 10, Some 20, Some 30]]\<rparr>"

definition scan_node :: df_node where
  "scan_node = \<lparr>node_name = ''DataSourceExec'', node_schema = sales_schema, node_key = 0\<rparr>"

definition env_ref :: exec_env where
  "env_ref = \<lparr>x_arrow = arrow_ref, x_sql = sql_ref, x_expr = expr_ref, x_crypto = crypto_ref,
     x_exp1 = (\<lambda>_. Fin 1), x_df = (\<lambda>n cs part w. (Inr (if node_schema n = sales_schema then [Inr sales_batch] else []), w))\<rparr>"

definition world0 :: world where
  "world0 = \<lparr>next_id = 0, event_cells = (\<lambda>_. []), eps_cells = (\<lambda>_. None), trackers = (\<lambda>_. new_tracker), rng_pos = 0\<rparr>"

lemma sales_batch_ok: "batch_ok sales_batch"
  by (simp add: batch_ok_def batch_fits_def sales_batch_def sales_schema_def column_fits_def in_i64_def)

lemma env_ref_ok: "arrow_spec (x_arrow env_ref)" "df_conforms env_ref"
  using sales_batch_ok
  by (auto simp: env_ref_def arrow_spec_ref df_conforms_def conforms_def sales_batch_def split: if_splits)

section \<open>Operators\<close>

lemma sales_filtered: "filter_item arrow_ref sql_ref expr_ref (Some ''region = EU'') sales_batch
    = Inr (sales_batch\<lparr>batch_columns := [StringArray [Some ''EU''], Int64Array [Some 10]]\<rparr>)"
  by code_simp

theorem filter_item_exact_witness:
  "\<exists>out bs. filter_item arrow_ref sql_ref expr_ref (Some ''region = EU'') sales_batch = Inr out
     \<and> batch_ok out \<and> batch_columns out = map (keep_array (map (\<lambda>x. x = Some True) bs)) (batch_columns sales_batch)"
proof -
  define s where "s = ''region = EU''"
  obtain out where o: "filter_item arrow_ref sql_ref expr_ref (Some s) sales_batch = Inr out"
    using sales_filtered by (simp add: s_def)
  have "s \<noteq> []" by (simp add: s_def)
  from filter_item_exact [OF arrow_spec_ref sales_batch_ok this o]
  have "batch_ok out \<and> (\<exists>bs. batch_columns out = map (keep_array (map (\<lambda>x. x = Some True) bs)) (batch_columns sales_batch))"
    by (elim conjE exE) (intro conjI exI, assumption+)
  then show ?thesis using o [unfolded s_def] by (elim conjE exE) (intro exI conjI, assumption+)
qed

definition sales_policies :: "(string \<times> mask_policy) list" where
  "sales_policies = [(''amount'', PPartial)]"

lemma sales_masked:
  "is_ok (apply_masking_to_batch arrow_ref crypto_ref sales_batch sales_policies (masked_output_schema (batch_schema sales_batch) sales_policies))"
  by code_simp

theorem apply_masking_sound_witness:
  "\<exists>out. apply_masking_to_batch arrow_ref crypto_ref sales_batch sales_policies (masked_output_schema sales_schema sales_policies) = Inr out
     \<and> batch_ok out \<and> num_rows out = 3 \<and> field_type (batch_schema out ! 1) = Utf8"
proof -
  obtain out where out: "apply_masking_to_batch arrow_ref crypto_ref sales_batch sales_policies
      (masked_output_schema (batch_schema sales_batch) sales_policies) = Inr out"
    using sales_masked unfolding is_ok_iff by blast
  have s: "batch_schema sales_batch = sales_schema" "num_rows sales_batch = 3"
    by (simp_all add: sales_batch_def num_rows_def)
  have "field_type (masked_output_schema sales_schema sales_policies ! 1) = Utf8" by code_simp
  then show ?thesis using apply_masking_sound [OF arrow_spec_ref sales_batch_ok out] out s by auto
qed

definition dp_state0 :: dp_state where
  "dp_state0 = \<lparr>dp_tracker = with_enforcement True [((''acme'', ''amount''), Fin 1)], total_epsilon = Fin 0, dp_rng = 0\<rparr>"

lemma sales_noised: "is_ok (fst (apply_dp_to_batch arrow_ref (\<lambda>_. Fin 1) sales_batch [(''amount'', (Fin (1 / 2), Fin 1))] ''acme'' dp_state0))"
  by code_simp

theorem apply_dp_sound_witness:
  "\<exists>out st. apply_dp_to_batch arrow_ref (\<lambda>_. Fin 1) sales_batch [(''amount'', (Fin (1 / 2), Fin 1))] ''acme'' dp_state0 = (Inr out, st)
     \<and> batch_ok out \<and> consume_all (dp_tracker dp_state0) [((''acme'', ''amount''), Fin (1 / 2))]
         = ([((''acme'', ''amount''), Fin (1 / 2))], dp_tracker st)"
proof -
  obtain out st where o: "apply_dp_to_batch arrow_ref (\<lambda>_. Fin 1) sales_batch [(''amount'', (Fin (1 / 2), Fin 1))] ''acme'' dp_state0 = (Inr out, st)"
    using sales_noised unfolding is_ok_iff by (metis prod.collapse)
  have "dp_requests [(''amount'', (Fin (1 / 2), Fin 1))] ''acme'' (batch_schema sales_batch) = [((''acme'', ''amount''), Fin (1 / 2))]"
    by (simp add: dp_requests_def sales_batch_def sales_schema_def)
  then show ?thesis using apply_dp_sound [OF arrow_spec_ref sales_batch_ok o] o by auto
qed

section \<open>Plans\<close>

definition sales_contract :: json_contract where
  "sales_contract = \<lparr>jc_contract_id = ''c-1'', jc_version = ''1.0.0'', jc_dataset = ''sales/orders/v1'', jc_parquet = ''orders.parquet'',
     jc_owner_tenant = ''acme'', jc_purposes = [''analytics''],
     jc_columns = [\<lparr>col_name = ''amount'', col_mask = Some ''partial''\<rparr>, \<lparr>col_name = ''region'', col_mask = None\<rparr>],
     jc_row_filter = Some ''region = EU'', jc_dp_columns = []\<rparr>"

definition sales_policy :: resolved_policy where
  "sales_policy = \<lparr>contract_id = ''c-1'', contract_version = ''1.0.0'', policy_tenant = ''acme'', decision = Allow,
     column_masks = [(''amount'', Partial)], row_filter = Some ''region = EU'', dp_columns = []\<rparr>"

definition bob :: caller where
  "bob = new_caller ''user:bob'' ''analytics'' ''globex''"

definition sales_table :: table_provider where
  "sales_table = \<lparr>tp_schema = sales_schema, tp_scan = Inr (DfExec scan_node [])\<rparr>"

definition sales_provider :: contract_table_provider where
  "sales_provider = new_provider unary_to_vec unary_from_slice 7 sales_table sales_policy"

lemma sales_resolved: "resolve [(''sales/orders/v1'', sales_contract)] ''sales/orders/v1'' bob = Inr sales_policy"
  by code_simp

lemma sales_policy_ok: "distinct (map fst (column_masks sales_policy))" "contract_id sales_policy \<noteq> []" "dp_columns sales_policy = []"
  by (simp_all add: sales_policy_def)

theorem governed_plan_succeeds_witness:
  "\<exists>g w'. governed_plan unary_from_slice sales_provider (DfExec scan_node []) world0 = Inr (g, w')"
  unfolding sales_provider_def by (rule governed_plan_succeeds [OF serde_json_spec_unary sales_policy_ok])

lemma sales_planned: "\<exists>g w'. governed_plan unary_from_slice sales_provider (DfExec scan_node []) world0 = Inr (g, w')"
  unfolding sales_provider_def by (rule governed_plan_plans [OF serde_json_spec_unary sales_policy_ok])

lemma scan_built: "built unary_from_slice crypto_ref (DfExec scan_node [])"
  by (rule built.df) (simp_all add: scan_node_def)


theorem enforcement_above_approval_witness:
  "\<exists>g w'. governed_plan unary_from_slice sales_provider (DfExec scan_node []) world0 = Inr (g, w')
     \<and> (\<exists>x inner. ContractApprovedExec x inner \<in> subplans g \<and> bundle_contract_id (ca_bundle x) \<noteq> [])"
proof -
  obtain g w' where g: "governed_plan unary_from_slice sales_provider (DfExec scan_node []) world0 = Inr (g, w')"
    using sales_planned by blast
  have "is_enforcement g" by (rule governed_plan_inv [OF g]) auto
  then show ?thesis
    using enforcement_above_approval [OF governed_plan_built [OF scan_built g] self_subplan] g by blast
qed

lemma single_entry:
  assumes "distinct (map fst ps)" "\<And>col. map_of ps col = (if col = k then Some v else None)"
  shows "ps = [(k, v)]"
proof (cases ps)
  case Nil
  then show ?thesis using assms(2) [of k] by simp
next
  case (Cons e es)
  have e: "e = (k, v)" using assms(2) [of "fst e"] Cons by (cases e) (auto split: if_splits)
  have "es = []"
  proof (cases es)
    case (Cons d ds)
    then have "fst d \<noteq> k" "map_of ps (fst d) \<noteq> None" using assms(1) \<open>ps = e # es\<close> e by auto
    then show ?thesis using assms(2) [of "fst d"] by simp
  qed
  then show ?thesis using Cons e by simp
qed

lemma sales_filtered_masked:
  "is_ok (mask_item arrow_ref crypto_ref [(''amount'', PPartial)] (masked_output_schema sales_schema [(''amount'', PPartial)])
      (sales_batch\<lparr>batch_columns := [StringArray [Some ''EU''], Int64Array [Some 10]]\<rparr>))"
  by code_simp

lemma sales_collected:
  assumes "governed_plan unary_from_slice sales_provider (DfExec scan_node []) world0 = Inr (g, w')"
  shows "\<exists>bs w''. collect_partition env_ref g 0 w' = (Inr bs, w'')"
proof (rule governed_plan_inv [OF assms])
  fix a r m
  assume h: "parse_row_filter unary_from_slice (ctp_bundle sales_provider) = Inr (row_filter_expr r)"
    "parse_masking_bundle unary_from_slice (ctp_bundle sales_provider) = Inr (column_policies m)"
    "output_schema m = masked_output_schema (plan_schema (DfExec scan_node [])) (column_policies m)"
    "(\<not> ctp_has_dp sales_provider \<and> g = MaskingExec m (RowFilterExec r (ContractApprovedExec a (DfExec scan_node []))))
     \<or> (ctp_has_dp sales_provider \<and> (\<exists>l. g = LaplaceNoiseExec l (MaskingExec m (RowFilterExec r (ContractApprovedExec a (DfExec scan_node []))))
         \<and> parse_dp_bundle unary_from_slice (ctp_bundle sales_provider) = Inr (ln_dp_columns l) \<and> ln_tenant l = ctp_tenant sales_provider))"
  have t: "ctp_bundle sales_provider = to_bundle_handle unary_to_vec 7 sales_policy" "\<not> ctp_has_dp sales_provider"
    by (simp_all add: sales_provider_def new_provider_def Let_def has_dp_def sales_policy_def)
  have r: "row_filter_expr r = Some ''region = EU''"
    using h(1) parse_row_filter_policy [OF serde_json_spec_unary, of 7 sales_policy] t(1) by (simp add: sales_policy_def)
  obtain ps where ps: "column_policies m = ps" "distinct (map fst ps)"
    "\<And>col. map_of ps col = (if col = ''amount'' then Some PPartial else None)"
    using h(2) parse_masking_bundle_policy [OF serde_json_spec_unary sales_policy_ok(1), of 7] t(1)
    by (auto simp: sales_policy_def split: if_splits)
  have "ps = [(''amount'', PPartial)]" using ps(2,3) by (rule single_entry)
  then have m: "column_policies m = [(''amount'', PPartial)]" using ps(1) by simp
  obtain out where o: "mask_item arrow_ref crypto_ref [(''amount'', PPartial)] (masked_output_schema sales_schema [(''amount'', PPartial)])
      (sales_batch\<lparr>batch_columns := [StringArray [Some ''EU''], Int64Array [Some 10]]\<rparr>) = Inr out"
    using sales_filtered_masked unfolding is_ok_iff by (elim exE) (rule that)
  have g: "g = MaskingExec m (RowFilterExec r (ContractApprovedExec a (DfExec scan_node [])))" using h(4) t(2) by simp
  have om: "output_schema m = masked_output_schema sales_schema [(''amount'', PPartial)]"
    unfolding h(3) m by (simp add: scan_node_def)
  have "collect_partition env_ref g 0 w' = (Inr [out], emit_approval_event a w')"
    unfolding g collect_partition_def by (simp add: env_ref_def scan_node_def r m om sales_filtered o)
  then show ?thesis by blast
qed

theorem collect_conforms_witness:
  "\<exists>g w' bs w''. governed_plan unary_from_slice sales_provider (DfExec scan_node []) world0 = Inr (g, w')
     \<and> collect_partition env_ref g 0 w' = (Inr bs, w'') \<and> (\<forall>b\<in>set bs. batch_schema b = plan_schema g)"
proof -
  obtain g w' where g: "governed_plan unary_from_slice sales_provider (DfExec scan_node []) world0 = Inr (g, w')"
    using sales_planned by blast
  obtain bs w'' where c: "collect_partition env_ref g 0 w' = (Inr bs, w'')" using sales_collected [OF g] by blast
  show ?thesis using collect_conforms [OF governed_plan_built [OF scan_built g] env_ref_ok c] g c by blast
qed

lemma sales_no_dp: "\<not> ctp_has_dp sales_provider"
  by (simp add: sales_provider_def new_provider_def Let_def has_dp_def sales_policy_def)

theorem governed_rows_witness:
  "\<exists>g w' bs w'' f ps raws. governed_plan unary_from_slice sales_provider (DfExec scan_node []) world0 = Inr (g, w')
     \<and> collect_partition env_ref g 0 w' = (Inr bs, w'')
     \<and> list_all2 (governed_batch env_ref f ps (masked_output_schema sales_schema ps)) raws bs"
proof -
  obtain g w' where g: "governed_plan unary_from_slice sales_provider (DfExec scan_node []) world0 = Inr (g, w')"
    using sales_planned by blast
  obtain bs w'' where c: "collect_partition env_ref g 0 w' = (Inr bs, w'')" using sales_collected [OF g] by blast
  have s: "node_schema scan_node = sales_schema" by (simp add: scan_node_def)
  show ?thesis using governed_rows [OF g sales_no_dp c] g c unfolding s by blast
qed

theorem json_masks_enforced_witness:
  "\<exists>t g w' m p. griot_table unary_to_vec unary_from_slice 7 (resolve [(''sales/orders/v1'', sales_contract)]) (\<lambda>_. Inr sales_table) bob
        ''sales/orders/v1'' = Inr (Some t)
     \<and> governed_plan unary_from_slice t (DfExec scan_node []) world0 = Inr (g, w')
     \<and> g = MaskingExec m p \<and> map_of (column_policies m) ''amount'' = Some PPartial"
proof -
  define cs where "cs = [(''sales/orders/v1'', sales_contract)]"
  define n where "n = ''sales/orders/v1''"
  have r: "resolve cs n bob = Inr sales_policy" using sales_resolved by (simp add: cs_def n_def)
  have t: "griot_table unary_to_vec unary_from_slice 7 (resolve cs) (\<lambda>_. Inr sales_table) bob n = Inr (Some sales_provider)"
    by (simp add: griot_table_def r) (simp add: sales_policy_def sales_provider_def)
  obtain g w' where g: "governed_plan unary_from_slice sales_provider (DfExec scan_node []) world0 = Inr (g, w')"
    using sales_planned by blast
  have c: "map_of cs n = Some sales_contract" "tenant bob \<noteq> jc_owner_tenant sales_contract"
    by (simp_all add: cs_def n_def bob_def new_caller_def sales_contract_def)
  have e: "effective_action (jc_columns sales_contract) ''amount'' = Some Partial" by code_simp
  obtain a r m where h: "g = MaskingExec m (RowFilterExec r (ContractApprovedExec a (DfExec scan_node [])))
       \<or> (\<exists>l. g = LaplaceNoiseExec l (MaskingExec m (RowFilterExec r (ContractApprovedExec a (DfExec scan_node [])))))"
    "\<And>col. map_of (column_policies m) col = map_option policy_of_action (effective_action (jc_columns sales_contract) col)"
    using json_masks_enforced [OF serde_json_spec_unary c t g] by blast
  have "\<exists>m' p'. g = MaskingExec m' p'" by (rule governed_plan_inv [OF g]) (use sales_no_dp in auto)
  then have "g = MaskingExec m (RowFilterExec r (ContractApprovedExec a (DfExec scan_node [])))" using h(1) by auto
  moreover have "map_of (column_policies m) ''amount'' = Some PPartial" using h(2) e by simp
  ultimately show ?thesis using t g unfolding cs_def n_def by blast
qed


section \<open>Attestation\<close>

definition ipc_ref :: ipc_writer where
  "ipc_ref s bs = Inr ''ARROW1''"

lemma sales_version: "extract_contract_version unary_from_slice (to_bundle_handle unary_to_vec 7 sales_policy) = Inr ''1.0.0''"
proof (rule bundle_reread_fields [OF serde_json_spec_unary, of sales_policy])
  fix kvs assume k: "unary_from_slice (to_bundle_bytes unary_to_vec sales_policy) = Some (JObj kvs)"
    "to_bundle_bytes unary_to_vec sales_policy \<noteq> []" "distinct (map fst kvs)"
    "map_of kvs ''contract_version'' = Some (JStr (contract_version sales_policy))"
  have i: "map_of kvs ''contract_id'' = Some (JStr (contract_id sales_policy))"
    using k(1) bundle_reread [OF serde_json_spec_unary, of sales_policy] bundle_fields [of sales_policy] by auto
  obtain fs where "struct_fields [''contract_id'', ''contract_version''] (JObj kvs) = Some fs"
    "fs ''contract_id'' = map_of kvs ''contract_id''" "fs ''contract_version'' = map_of kvs ''contract_version''"
    using struct_fields_obj [OF k(3), of "[''contract_id'', ''contract_version'']"] by auto
  then show ?thesis using k i
    by (simp add: extract_contract_version_def to_bundle_handle_def from_x02_bytes_def de_contract_version_def
        defaulted_def sales_policy_def)
qed

theorem attestation_binds_witness:
  "\<exists>x env w'. new_attestation unary_from_slice crypto_ref (to_bundle_handle unary_to_vec 7 sales_policy) ''SELECT 1'' (DfExec scan_node [])
        = Inr (AttestationExec x (DfExec scan_node []))
     \<and> execute_attested (\<lambda>p. collect_partition env_ref p 0) ipc_ref crypto_ref ''now'' x (DfExec scan_node []) world0 = (Inr ([sales_batch], env), w')
     \<and> env_contract_id env = ''c-1''"
proof -
  let ?b = "to_bundle_handle unary_to_vec 7 sales_policy" and ?p = "DfExec scan_node []"
  have b: "bundle_contract_id ?b = ''c-1''" by (simp add: to_bundle_handle_def from_x02_bytes_def sales_policy_def)
  obtain x where x: "new_attestation unary_from_slice crypto_ref ?b ''SELECT 1'' ?p = Inr (AttestationExec x ?p)"
    by (simp add: new_attestation_def b sales_version)
  obtain env w' where e: "execute_attested (\<lambda>p. collect_partition env_ref p 0) ipc_ref crypto_ref ''now'' x ?p world0 = (Inr ([sales_batch], env), w')"
    by (simp add: execute_attested_def collect_partition_def env_ref_def scan_node_def compute_result_hash_def ipc_ref_def)
  have "env_contract_id env = ''c-1''" using attestation_binds [OF crypto_spec_ref x e] unfolding b by (elim conjE)
  then show ?thesis using x e by blast
qed

end
