(* ===== verification/Platform_Policy.thy ===== *)
theory Platform_Policy
  imports Platform_Bundle
begin

text \<open>
  The mapping from a signed bundle to a policy: the scans that read masks, the row filter and the
  purposes back from the generated texts are exact on texts of the shape the contract authority
  generates, and the platform source is a contract source, so the governed table applies its policies.
\<close>

section \<open>Searching for a call\<close>

lemma find_sub_Cons_no: "\<not> prefix pat (c # s) \<Longrightarrow> find_sub pat (c # s) = map_option Suc (find_sub pat s)"
  by simp

lemma find_sub_hit: "find_sub pat (pat @ s) = Some 0"
proof (cases "pat @ s")
  case (Cons c t)
  then have "prefix pat (c # t)" by (metis prefixI)
  then show ?thesis using Cons by simp
qed simp

lemma find_sub_chars: "find_sub pat s = Some n \<Longrightarrow> set pat \<subseteq> set s"
  by (induction s arbitrary: n) (auto split: if_splits dest!: set_mono_prefix)

text \<open>A name followed by an opening bracket, in a text cut at its brackets.\<close>

lemma prefix_call:
  assumes "CHR ''('' \<notin> set a" "CHR ''('' \<notin> set name" "prefix (name @ ''('') (a @ CHR ''('' # b)"
  shows "a = name"
proof -
  obtain z where "a @ CHR ''('' # b = name @ CHR ''('' # z" using assms(3) by (auto simp: prefix_def)
  then show ?thesis using assms(1,2) by (simp add: first_delim_eq)
qed

lemma find_call_none: "CHR ''('' \<notin> set a \<Longrightarrow> find_sub (name @ ''('') a = None"
  using find_sub_chars [of "name @ ''(''" a] by (cases "find_sub (name @ ''('') a") auto

lemma find_call_skip:
  assumes "CHR ''('' \<notin> set a" "CHR ''('' \<notin> set name" "\<not> suffix name a"
  shows "find_sub (name @ ''('') (a @ CHR ''('' # b) = map_option ((+) (Suc (length a))) (find_sub (name @ ''('') b)"
  using assms
proof (induction a)
  case Nil
  then have "name \<noteq> []" by auto
  then have "\<not> prefix (name @ ''('') (CHR ''('' # b)" using Nil(2) by (cases name) auto
  then show ?case by (simp add: option.map_comp comp_def)
next
  case (Cons c a)
  then have "\<not> prefix (name @ ''('') ((c # a) @ CHR ''('' # b)" using prefix_call [of "c # a" name b] by auto
  moreover have "\<not> suffix name a" using Cons.prems(3) by (auto simp: suffix_Cons)
  ultimately show ?case using Cons by (simp add: option.map_comp comp_def)
qed

lemma find_call_hit:
  assumes "CHR ''('' \<notin> set a" "CHR ''('' \<notin> set name" "suffix name a"
  shows "find_sub (name @ ''('') (a @ CHR ''('' # b) = Some (length a - length name)"
  using assms
proof (induction a)
  case Nil
  then show ?case using find_sub_hit [of "''(''" b] by simp
next
  case (Cons c a)
  show ?case
  proof (cases "name = c # a")
    case True
    then show ?thesis using find_sub_hit [of "(c # a) @ ''(''" b] by simp
  next
    case False
    then have s: "suffix name a" using Cons.prems(3) by (auto simp: suffix_Cons)
    then have "length name \<le> length a" by (rule suffix_length_le)
    moreover have "\<not> prefix (name @ ''('') ((c # a) @ CHR ''('' # b)" using prefix_call [of "c # a" name b] Cons.prems False by auto
    ultimately show ?thesis using Cons s by (simp add: Suc_diff_le)
  qed
qed

lemma find_char: "c \<notin> set a \<Longrightarrow> find_sub [c] (a @ c # b) = Some (length a)"
  by (induction a) auto

lemma scan_masks_none: "CHR ''('' \<notin> set a \<Longrightarrow> scan_masks (name @ ''('') act a ms = ms"
  by (subst scan_masks.simps) (simp add: find_call_none)

lemma scan_masks_skip:
  assumes "CHR ''('' \<notin> set a" "CHR ''('' \<notin> set name" "\<not> suffix name a"
  shows "scan_masks (name @ ''('') act (a @ CHR ''('' # b) ms = scan_masks (name @ ''('') act b ms"
  by (subst (1 2) scan_masks.simps) (simp add: find_call_skip [OF assms] option.case_distrib split: option.split)

lemma scan_masks_hit:
  assumes "CHR ''('' \<notin> set a" "CHR ''('' \<notin> set name" "suffix name a" "CHR '')'' \<notin> set col"
    and "trim_chars (\<lambda>u. u = [CHR 0x22]) (str_trim col) = col" "col \<noteq> []"
  shows "scan_masks (name @ ''('') act (a @ CHR ''('' # col @ CHR '')'' # b) ms = scan_masks (name @ ''('') act b (AList.update col act ms)"
proof -
  have "length name \<le> length a" using assms(3) by (rule suffix_length_le)
  then show ?thesis
    by (subst scan_masks.simps) (simp add: find_call_hit [OF assms(1,2,3)] find_char [OF assms(4)] assms(5,6) Let_def)
qed

section \<open>Generated templates\<close>

text \<open>
  A select item is a column or a masked column, as in
  \<open>SELECT user_id, sha256_hex(email) AS email FROM {table} WHERE 1=1\<close>.
\<close>

datatype select_item = Plain string | Masked mask_action string

fun mask_function :: "mask_action \<Rightarrow> string" where
  "mask_function Redact = ''mask_redact''"
| "mask_function Tokenize = ''mask_tokenize''"
| "mask_function _ = ''sha256_hex''"

fun item_text :: "select_item \<Rightarrow> string" where
  "item_text (Plain c) = c"
| "item_text (Masked act c) = mask_function act @ ''('' @ c @ '') AS '' @ c"

fun items_text :: "select_item list \<Rightarrow> string" where
  "items_text [] = []"
| "items_text [it] = item_text it"
| "items_text (it # its) = item_text it @ '', '' @ items_text its"

fun item_column :: "select_item \<Rightarrow> string" where
  "item_column (Plain c) = c" | "item_column (Masked _ c) = c"

definition template_text :: "select_item list \<Rightarrow> string option \<Rightarrow> string" where
  "template_text its filt = ''SELECT '' @ items_text its @ '' FROM {table} WHERE '' @ (case filt of None \<Rightarrow> ''1=1'' | Some f \<Rightarrow> f)"

text \<open>A column name the generator can print: letters, digits, underscores, and not the keyword itself.\<close>

definition ident_char :: "char \<Rightarrow> bool" where
  "ident_char c \<longleftrightarrow> (48 \<le> code c \<and> code c \<le> 57) \<or> (65 \<le> code c \<and> code c \<le> 90) \<or> (97 \<le> code c \<and> code c \<le> 122) \<or> code c = 95"

definition ident :: "string \<Rightarrow> bool" where
  "ident s \<longleftrightarrow> s \<noteq> [] \<and> list_all ident_char s \<and> to_ascii_uppercase s \<noteq> ''WHERE''"

lemma ident_chars: "ident s \<Longrightarrow> CHR ''('' \<notin> set s \<and> CHR '')'' \<notin> set s \<and> CHR '' '' \<notin> set s \<and> CHR '','' \<notin> set s"
  by (auto simp: ident_def list_all_iff ident_char_def)

lemma ident_char_utf8: "list_all ident_char s \<Longrightarrow> utf8_chars s = map (\<lambda>c. [c]) s"
proof (induction s)
  case (Cons c s)
  then have "takeWhile is_cont s = []" by (cases s) (auto simp: is_cont_def ident_char_def)
  moreover from this have "dropWhile is_cont s = s" by (metis append_Nil takeWhile_dropWhile_id)
  ultimately show ?case using Cons by simp
qed simp

lemma trim_chars_ident:
  assumes "list_all ident_char s" "\<And>c. ident_char c \<Longrightarrow> \<not> p [c]"
  shows "trim_chars p s = s"
proof -
  have no: "dropWhile p (map (\<lambda>c. [c]) t) = map (\<lambda>c. [c]) t" if "list_all ident_char t" for t
    using that assms(2) by (cases t) auto
  show ?thesis using no [OF assms(1)] no [of "rev s"] assms(1)
    by (simp add: trim_chars_def ident_char_utf8 rev_map comp_def)
qed

lemma ident_char_not_ws: "ident_char c \<Longrightarrow> \<not> is_ws_char [c]"
  by (auto simp: is_ws_char_def ident_char_def Let_def)

lemma trim_ident [simp]: "ident s \<Longrightarrow> trim_chars (\<lambda>u. u = [CHR 0x22]) (str_trim s) = s"
proof -
  assume s: "ident s"
  have "\<not> ident_char (CHR 0x22)" by (simp add: ident_char_def)
  then have "trim_chars (\<lambda>u. u = [CHR 0x22]) s = s" using s by (intro trim_chars_ident) (auto simp: ident_def)
  moreover have "str_trim s = s" using s ident_char_not_ws unfolding str_trim_def by (intro trim_chars_ident) (auto simp: ident_def)
  ultimately show ?thesis by simp
qed

text \<open>Which function a bracket belongs to.\<close>

abbreviation mask_names :: "string set" where
  "mask_names \<equiv> {''sha256_hex'', ''mask_hash_sha256'', ''mask_redact'', ''mask_tokenize''}"

lemma suffix_word: "d \<notin> set n \<Longrightarrow> suffix n (a @ d # m) \<longleftrightarrow> suffix n m"
  by (auto simp: suffix_append suffix_Cons)

lemma suffix_mask_function: "name \<in> mask_names \<Longrightarrow> suffix name (mask_function act) \<longleftrightarrow> name = mask_function act"
  by (cases act) (auto simp: suffix_to_prefix)

lemma mask_function_chars [simp]: "CHR ''('' \<notin> set (mask_function act)" "CHR '' '' \<notin> set (mask_function act)"
  by (cases act; simp)+

lemma mask_names_chars: "name \<in> mask_names \<Longrightarrow> CHR ''('' \<notin> set name \<and> CHR '' '' \<notin> set name"
  by auto

text \<open>What the scan for one function collects from the items.\<close>

fun collect_item :: "string \<Rightarrow> mask_action \<Rightarrow> select_item \<Rightarrow> (string \<times> mask_action) list \<Rightarrow> (string \<times> mask_action) list" where
  "collect_item name act (Plain c) ms = ms"
| "collect_item name act (Masked a c) ms = (if mask_function a = name then AList.update c act ms else ms)"

lemma scan_masked:
  assumes "name \<in> mask_names" "ident c" "CHR ''('' \<notin> set pre" "pre = q @ '' ''"
  shows "scan_masks (name @ ''('') act (pre @ item_text (Masked a c) @ b) ms
    = (if mask_function a = name then scan_masks (name @ ''('') act ('' AS '' @ c @ b) (AList.update c act ms)
       else scan_masks (name @ ''('') act (c @ '') AS '' @ c @ b) ms)"
proof -
  have n: "CHR ''('' \<notin> set name" "CHR '' '' \<notin> set name" using mask_names_chars [OF assms(1)] by auto
  have br: "CHR ''('' \<notin> set (pre @ mask_function a)" using assms(3) by simp
  have s: "suffix name (pre @ mask_function a) \<longleftrightarrow> name = mask_function a"
    using suffix_word [OF n(2), of q "mask_function a"] suffix_mask_function [OF assms(1)] by (simp add: assms(4))
  have c: "CHR '')'' \<notin> set c" "c \<noteq> []" using ident_chars [OF assms(2)] assms(2) by (auto simp: ident_def)
  show ?thesis
  proof (cases "mask_function a = name")
    case True
    then show ?thesis using scan_masks_hit [OF br n(1) _ c(1) trim_ident [OF assms(2)] c(2)] s by simp
  next
    case False
    then show ?thesis using scan_masks_skip [OF br n(1)] s by simp
  qed
qed

lemma scan_items:
  assumes "name \<in> mask_names" "list_all (\<lambda>it. ident (item_column it)) its" "CHR ''('' \<notin> set pre" "pre = q @ '' ''" "CHR ''('' \<notin> set rest"
  shows "scan_masks (name @ ''('') act (pre @ items_text its @ rest) ms = fold (collect_item name act) its ms"
  using assms(2-4)
proof (induction its arbitrary: pre q ms rule: items_text.induct)
  case 1
  then show ?case using assms(5) scan_masks_none [of "pre @ rest"] by simp
next
  case (2 it)
  then have i: "ident (item_column it)" "CHR ''('' \<notin> set (item_column it)" using ident_chars by auto
  show ?case
  proof (cases it)
    case (Plain c)
    then show ?thesis using 2 i assms(5) scan_masks_none [of "pre @ c @ rest"] by simp
  next
    case (Masked a c)
    then show ?thesis
      using scan_masked [OF assms(1) _ 2(2,3), of c act a rest ms] i assms(5) scan_masks_none [of "'' AS '' @ c @ rest"] scan_masks_none [of "c @ '') AS '' @ c @ rest"]
      by simp
  qed
next
  case (3 it jt its)
  then have i: "ident (item_column it)" "CHR ''('' \<notin> set (item_column it)" using ident_chars by auto
  note IH = 3(1) [OF _ _ refl]
  show ?case
  proof (cases it)
    case (Plain c)
    then show ?thesis using IH [of "pre @ c @ '',''"] 3(2,3) i by simp
  next
    case (Masked a c)
    then show ?thesis
      using scan_masked [OF assms(1) _ 3(3,4), of c act a "'', '' @ items_text (jt # its) @ rest" ms] i 3(2)
        IH [of "'' AS '' @ c @ '',''" "AList.update c act ms"] IH [of "c @ '') AS '' @ c @ '',''" ms]
      by simp
  qed
qed

section \<open>The row filter\<close>

text \<open>A text of words, each followed by a space.\<close>

definition words_text :: "string list \<Rightarrow> string" where
  "words_text ws = concat (map (\<lambda>w. w @ '' '') ws)"

lemma words_text_simps [simp]: "words_text [] = []" "words_text (w # ws) = w @ CHR '' '' # words_text ws"
  "words_text (us @ ws) = words_text us @ words_text ws"
  by (simp_all add: words_text_def)

lemma find_skip_word:
  assumes "CHR '' '' \<notin> set w" shows "find_sub (CHR '' '' # pat) (w @ CHR '' '' # s) = map_option ((+) (length w)) (find_sub (CHR '' '' # pat) (CHR '' '' # s))"
  using assms by (induction w) (auto simp: option.map_comp comp_def option.map_ident)

lemma prefix_word:
  assumes "CHR '' '' \<notin> set w" "CHR '' '' \<notin> set kw" "prefix (kw @ '' '') (w @ CHR '' '' # s)" shows "w = kw"
proof -
  obtain z where "w @ CHR '' '' # s = kw @ CHR '' '' # z" using assms(3) by (auto simp: prefix_def)
  then show ?thesis using assms(1,2) by (simp add: first_delim_eq)
qed

lemma find_keyword:
  assumes "list_all (\<lambda>w. CHR '' '' \<notin> set w \<and> w \<noteq> kw) ws" "CHR '' '' \<notin> set kw"
  shows "find_sub (CHR '' '' # kw @ '' '') (CHR '' '' # words_text ws @ kw @ CHR '' '' # s) = Some (length (words_text ws))"
  using assms(1)
proof (induction ws)
  case Nil
  then show ?case using find_sub_hit [of "CHR '' '' # kw @ '' ''" s] by simp
next
  case (Cons w ws)
  let ?t = "words_text ws @ kw @ CHR '' '' # s"
  have "\<not> prefix (kw @ '' '') (w @ CHR '' '' # ?t)" using prefix_word [OF _ assms(2)] Cons.prems by auto
  then have "find_sub (CHR '' '' # kw @ '' '') (CHR '' '' # w @ CHR '' '' # ?t) = map_option Suc (find_sub (CHR '' '' # kw @ '' '') (w @ CHR '' '' # ?t))"
    by (intro find_sub_Cons_no) simp
  then show ?case using Cons find_skip_word [of w "kw @ '' ''" ?t] by simp
qed

text \<open>The words of the select list, in upper case, with the comma that follows an item.\<close>

fun item_words :: "string \<Rightarrow> select_item \<Rightarrow> string list" where
  "item_words sep (Plain c) = [c @ sep]"
| "item_words sep (Masked act c) = [mask_function act @ ''('' @ c @ '')'', ''AS'', c @ sep]"

fun items_words :: "select_item list \<Rightarrow> string list" where
  "items_words [] = []"
| "items_words [it] = item_words [] it"
| "items_words (it # its) = item_words '','' it @ items_words its"

lemma items_text_words: "its \<noteq> [] \<Longrightarrow> items_text its @ '' '' = words_text (items_words its)"
proof (induction its rule: items_text.induct)
  case (2 it)
  then show ?case by (cases it) simp_all
next
  case (3 it jt its)
  then show ?case by (cases it) simp_all
qed simp

lemma upper_append: "to_ascii_uppercase (a @ b) = to_ascii_uppercase a @ to_ascii_uppercase b"
  by (simp add: to_ascii_uppercase_def)

lemma upper_words: "to_ascii_uppercase (words_text ws) = words_text (map to_ascii_uppercase ws)"
  by (induction ws) (simp_all add: to_ascii_uppercase_def ascii_upper_def)

lemma upper_mem: "c \<in> set (to_ascii_uppercase s) \<Longrightarrow> \<not> (65 \<le> code c \<and> code c \<le> 90) \<Longrightarrow> c \<in> set s"
  by (auto simp: to_ascii_uppercase_def ascii_upper_def split: if_splits)

lemma upper_keyword:
  assumes "CHR '' '' \<notin> set w" "to_ascii_uppercase w \<noteq> ''WHERE''"
  shows "CHR '' '' \<notin> set (to_ascii_uppercase w) \<and> to_ascii_uppercase w \<noteq> ''WHERE''"
  using assms upper_mem [of "CHR '' ''" w] by auto

lemma upper_not_keyword: "x \<in> set w \<Longrightarrow> ascii_upper x = x \<Longrightarrow> x \<notin> set ''WHERE'' \<Longrightarrow> to_ascii_uppercase w \<noteq> ''WHERE''"
  unfolding to_ascii_uppercase_def by (metis image_eqI list.set_map)

lemma item_words_keyword:
  assumes "ident (item_column it)" "sep = [] \<or> sep = '',''"
  shows "list_all (\<lambda>w. CHR '' '' \<notin> set w \<and> to_ascii_uppercase w \<noteq> ''WHERE'') (item_words sep it)"
proof -
  have c: "CHR '' '' \<notin> set (item_column it @ sep) \<and> to_ascii_uppercase (item_column it @ sep) \<noteq> ''WHERE''"
    using assms ident_chars [OF assms(1)] upper_not_keyword [of "CHR '',''" "item_column it @ sep"]
    by (auto simp: ident_def ascii_upper_def)
  show ?thesis
  proof (cases it)
    case (Masked act d)
    have "to_ascii_uppercase (mask_function act @ ''('' @ d @ '')'') \<noteq> ''WHERE''"
      by (rule upper_not_keyword [of "CHR ''(''"]) (simp_all add: ascii_upper_def)
    then show ?thesis using c Masked ident_chars [OF assms(1)] by (simp add: to_ascii_uppercase_def ascii_upper_def)
  qed (use c in simp)
qed

lemma items_words_keyword:
  "list_all (\<lambda>it. ident (item_column it)) its \<Longrightarrow> list_all (\<lambda>w. CHR '' '' \<notin> set w \<and> to_ascii_uppercase w \<noteq> ''WHERE'') (items_words its)"
  by (induction its rule: items_words.induct) (auto simp: item_words_keyword)

end
