(* ===== verification/Platform_Equivalence.thy ===== *)
theory Platform_Equivalence
  imports Platform_Policy
begin

text \<open>
  The platform source against the JSON source: for a contract that both can express, the bundle the
  contract authority generates resolves to the policy the JSON contract resolves to. And the platform
  source is a contract source: the governed table applies the policies it maps.
\<close>

section \<open>The generated texts are read back\<close>

lemma scan_template:
  assumes "name \<in> mask_names" "list_all (\<lambda>it. ident (item_column it)) its" "CHR ''('' \<notin> set (case filt of None \<Rightarrow> [] | Some f \<Rightarrow> f)"
  shows "scan_masks (name @ ''('') act (template_text its filt) ms = fold (collect_item name act) its ms"
proof -
  have "scan_masks (name @ ''('') act (''SELECT '' @ items_text its @ ('' FROM {table} WHERE '' @ (case filt of None \<Rightarrow> ''1=1'' | Some f \<Rightarrow> f))) ms
      = fold (collect_item name act) its ms"
    using assms by (intro scan_items [where q = "''SELECT''"]) (auto split: option.splits)
  then show ?thesis by (simp add: template_text_def)
qed

lemma map_of_collect:
  "map_of (fold (collect_item name act) its ms) n = (if \<exists>a. Masked a n \<in> set its \<and> mask_function a = name then Some act else map_of ms n)"
proof (induction its arbitrary: ms)
  case (Cons it its)
  then show ?case by (cases it) (auto simp: update_conv')
qed simp

text \<open>The masks a template can express.\<close>

definition expressible :: "mask_action set" where
  "expressible = {Redact, HashSha256, Tokenize}"

lemma mask_function_expressible:
  "a \<in> expressible \<Longrightarrow> (mask_function a = ''mask_tokenize'' \<longleftrightarrow> a = Tokenize) \<and> (mask_function a = ''mask_redact'' \<longleftrightarrow> a = Redact)
    \<and> (mask_function a = ''sha256_hex'' \<longleftrightarrow> a = HashSha256) \<and> mask_function a \<noteq> ''mask_hash_sha256''"
  "mask_function Tokenize = ''mask_tokenize''" "mask_function Redact = ''mask_redact''" "mask_function HashSha256 = ''sha256_hex''"
  by (auto simp: expressible_def)

lemma masks_of_template:
  assumes "list_all (\<lambda>it. ident (item_column it)) its" "distinct (map item_column its)" "\<And>a n. Masked a n \<in> set its \<Longrightarrow> a \<in> expressible"
    and "CHR ''('' \<notin> set (case filt of None \<Rightarrow> [] | Some f \<Rightarrow> f)"
  shows "map_of (masks_from_sql (template_text its filt)) n = Some a \<longleftrightarrow> Masked a n \<in> set its"
proof -
  have one: "a = b" if "Masked a n \<in> set its" "Masked b n \<in> set its" for a b
    using that assms(2) by (metis item_column.simps(2) select_item.inject(2) inj_onD distinct_map)
  note scan = scan_template [OF _ assms(1) assms(4)]
  have "map_of (masks_from_sql (template_text its filt)) n =
      (if \<exists>b. Masked b n \<in> set its \<and> mask_function b = ''mask_tokenize'' then Some Tokenize
       else if \<exists>b. Masked b n \<in> set its \<and> mask_function b = ''mask_redact'' then Some Redact
       else if \<exists>b. Masked b n \<in> set its \<and> mask_function b = ''mask_hash_sha256'' then Some HashSha256
       else if \<exists>b. Masked b n \<in> set its \<and> mask_function b = ''sha256_hex'' then Some HashSha256 else None)"
    using scan [of "''sha256_hex''"] scan [of "''mask_hash_sha256''"] scan [of "''mask_redact''"] scan [of "''mask_tokenize''"]
    by (simp add: masks_from_sql_def mask_functions_def map_of_collect)
  moreover have "(\<exists>b. Masked b n \<in> set its \<and> mask_function b = ''mask_tokenize'') \<longleftrightarrow> Masked Tokenize n \<in> set its"
    "(\<exists>b. Masked b n \<in> set its \<and> mask_function b = ''mask_redact'') \<longleftrightarrow> Masked Redact n \<in> set its"
    "(\<exists>b. Masked b n \<in> set its \<and> mask_function b = ''sha256_hex'') \<longleftrightarrow> Masked HashSha256 n \<in> set its"
    "(\<exists>b. Masked b n \<in> set its \<and> mask_function b = ''mask_hash_sha256'') \<longleftrightarrow> False"
    using assms(3) [of _ n] mask_function_expressible by blast+
  ultimately have m: "map_of (masks_from_sql (template_text its filt)) n = (if Masked Tokenize n \<in> set its then Some Tokenize
       else if Masked Redact n \<in> set its then Some Redact else if Masked HashSha256 n \<in> set its then Some HashSha256 else None)"
    by (simp only: if_False)
  have "Masked a n \<in> set its \<Longrightarrow> a = Redact \<or> a = HashSha256 \<or> a = Tokenize" using assms(3) by (auto simp: expressible_def)
  then show ?thesis using one [of _ a] m by (auto split: if_splits dest: one)
qed

text \<open>A filter clause that survives: trimmed, without brackets, and not the trivial one.\<close>

definition plain_filter :: "string \<Rightarrow> bool" where
  "plain_filter f \<longleftrightarrow> str_trim f = f \<and> CHR ''('' \<notin> set f
     \<and> concat (filter (\<lambda>u. \<not> is_ws_char u) (utf8_chars f)) \<notin> {[], ''1=1''}"

lemma trivial_filter: "str_trim ''1=1'' = ''1=1''" "concat (filter (\<lambda>u. \<not> is_ws_char u) (utf8_chars ''1=1'')) = ''1=1''"
  by code_simp+

lemma upper_Cons: "to_ascii_uppercase (c # s) = ascii_upper c # to_ascii_uppercase s" "to_ascii_uppercase [] = []"
  by (simp_all add: to_ascii_uppercase_def)

lemma filter_of_template:
  assumes "its \<noteq> []" "list_all (\<lambda>it. ident (item_column it)) its" "\<And>f. filt = Some f \<Longrightarrow> plain_filter f"
  shows "row_filter_from_sql (template_text its filt) = filt"
proof -
  define x where "x = (case filt of None \<Rightarrow> ''1=1'' | Some f \<Rightarrow> f)"
  define ws where "ws = items_words its @ [''FROM'', ''{table}'']"
  have "template_text its filt = ''SELECT'' @ CHR '' '' # words_text ws @ ''WHERE'' @ CHR '' '' # x"
    using items_text_words [OF assms(1)] by (simp add: template_text_def x_def ws_def)
  then have t: "template_text its filt = (''SELECT'' @ CHR '' '' # words_text ws) @ ''WHERE '' @ x" by simp
  have kw: "list_all (\<lambda>w. CHR '' '' \<notin> set w \<and> w \<noteq> ''WHERE'') (map to_ascii_uppercase ws)"
  proof -
    have "list_all (\<lambda>w. CHR '' '' \<notin> set w \<and> w \<noteq> ''WHERE'') (map to_ascii_uppercase (items_words its))"
      using items_words_keyword [OF assms(2)] upper_keyword by (auto simp: list_all_iff)
    moreover have "list_all (\<lambda>w. CHR '' '' \<notin> set w \<and> w \<noteq> ''WHERE'') (map to_ascii_uppercase [''FROM'', ''{table}''])" by code_simp
    ultimately show ?thesis by (simp add: ws_def)
  qed
  have "to_ascii_uppercase (template_text its filt)
      = ''SELECT'' @ CHR '' '' # words_text (map to_ascii_uppercase ws) @ ''WHERE'' @ CHR '' '' # to_ascii_uppercase x"
    by (simp add: t upper_append upper_words upper_Cons ascii_upper_def)
  then have pos: "find_sub '' WHERE '' (to_ascii_uppercase (template_text its filt)) = Some (6 + length (words_text ws))"
    using find_keyword [OF kw, of "to_ascii_uppercase x"] find_skip_word [of "''SELECT''" "''WHERE ''"] upper_words [of ws] length_map_ascii(1) [of "words_text ws"]
    by simp
  have "drop (6 + length (words_text ws) + length '' WHERE '') (template_text its filt) = x"
  proof -
    define pre where "pre = ''SELECT'' @ CHR '' '' # words_text ws @ ''WHERE ''"
    have "template_text its filt = pre @ x" "6 + length (words_text ws) + length '' WHERE '' = length pre" by (simp_all add: t pre_def)
    then show ?thesis by simp
  qed
  then show ?thesis using pos assms(3) trivial_filter
    by (auto simp: row_filter_from_sql_def x_def plain_filter_def Let_def split: option.splits)
qed

text \<open>The purpose gate of a bundle.\<close>

definition gate_line :: "string \<Rightarrow> string" where
  "gate_line p = CHR 0x0A # ''allow if { input.declared_purpose == '' @ CHR 0x22 # p @ CHR 0x22 # '' }''"

definition gate_text :: "string list \<Rightarrow> string" where
  "gate_text ps = ''default allow := false'' @ concat (map gate_line ps)"

lemma find_purpose:
  "find_sub ''declared_purpose'' (gate_line p @ s) = Some 18"
  "find_sub ''declared_purpose'' ('' }'' @ gate_line p @ s) = Some 20"
  "find_sub ''declared_purpose'' (''default allow := false'' @ gate_line p @ s) = Some 40"
  by (simp_all add: gate_line_def)

lemma scan_gate_line:
  assumes "CHR 0x22 \<notin> set p" "find_sub ''declared_purpose'' (a @ gate_line p @ s) = Some (length a + 18)"
  shows "scan_purposes (a @ gate_line p @ s) = p # scan_purposes ('' }'' @ s)"
proof -
  have 2: "find_sub [CHR 0x22] ('' == '' @ CHR 0x22 # p @ CHR 0x22 # '' }'' @ s) = Some 4" by simp
  have 3: "find_sub [CHR 0x22] (p @ CHR 0x22 # '' }'' @ s) = Some (length p)" by (rule find_char [OF assms(1)])
  have d: "drop (length a + 18 + length ''declared_purpose'') (a @ gate_line p @ s) = '' == '' @ CHR 0x22 # p @ CHR 0x22 # '' }'' @ s"
    by (simp add: gate_line_def)
  show ?thesis by (subst scan_purposes.simps) (simp add: assms(2) d [simplified] 2 [simplified] 3 [simplified] Let_def)
qed

lemma scan_gate_lines: "list_all (\<lambda>p. CHR 0x22 \<notin> set p) ps \<Longrightarrow> scan_purposes ('' }'' @ concat (map gate_line ps)) = ps"
proof (induction ps)
  case Nil
  then show ?case by (subst scan_purposes.simps) simp
next
  case (Cons p ps)
  then show ?case using scan_gate_line [of p "'' }''" "concat (map gate_line ps)"] find_purpose(2) by simp
qed

lemma scan_gate: "list_all (\<lambda>p. CHR 0x22 \<notin> set p) ps \<Longrightarrow> scan_purposes (gate_text ps) = ps"
proof (cases ps)
  case Nil
  then show ?thesis by (subst scan_purposes.simps) (simp add: gate_text_def)
next
  case (Cons p qs)
  assume "list_all (\<lambda>p. CHR 0x22 \<notin> set p) ps"
  then show ?thesis using Cons scan_gate_line [of p "''default allow := false''" "concat (map gate_line qs)"] find_purpose(3) scan_gate_lines [of qs]
    by (simp add: gate_text_def)
qed

section \<open>The two sources agree\<close>

definition item_of :: "json_column \<Rightarrow> select_item" where
  "item_of col = (case declared_action col of None \<Rightarrow> Plain (col_name col) | Some a \<Rightarrow> Masked a (col_name col))"

text \<open>The bundle for a contract, in the shape of the contract authority's generated texts.\<close>

definition generated_bundle :: "json_contract \<Rightarrow> 64 word \<Rightarrow> compiled_bundle" where
  "generated_bundle c v = \<lparr>manifest = \<lparr>bm_contract_id = jc_contract_id c, bm_contract_version = v, compiled_at_unix_ms = 1\<rparr>, wasm_modules = [],
     rego_bundles = [\<lparr>rb_name = ''policy-purpose-gate'', rb_source = gate_text (jc_purposes c)\<rparr>],
     sql_templates = [\<lparr>st_name = ''row-filter-owner-read'', st_template = template_text (map (\<lambda>col. Plain (col_name col)) (jc_columns c)) None\<rparr>,
       \<lparr>st_name = ''row-filter-non-owner-read'', st_template = template_text (map item_of (jc_columns c)) (jc_row_filter c)\<rparr>],
     resolution_map = [\<lparr>dataset_id = jc_owner_tenant c @ ''/'' @ jc_contract_id c, operation = ''read'', check_ref = ''policy-purpose-gate''\<rparr>]\<rparr>"

definition both_express :: "json_contract \<Rightarrow> bool" where
  "both_express c \<longleftrightarrow> jc_columns c \<noteq> [] \<and> list_all (\<lambda>col. ident (col_name col)) (jc_columns c) \<and> distinct (map col_name (jc_columns c))
     \<and> list_all (\<lambda>col. case col_mask col of None \<Rightarrow> True | Some m \<Rightarrow> parse_mask_action m \<in> Inr ` insert Noop expressible) (jc_columns c)
     \<and> jc_dp_columns c = [] \<and> list_all (\<lambda>p. CHR 0x22 \<notin> set p) (jc_purposes c)
     \<and> (case jc_row_filter c of None \<Rightarrow> True | Some f \<Rightarrow> plain_filter f) \<and> CHR ''/'' \<notin> set (jc_owner_tenant c) \<and> jc_owner_tenant c \<noteq> []"

definition same_policy :: "resolved_policy \<Rightarrow> resolved_policy \<Rightarrow> bool" where
  "same_policy p q \<longleftrightarrow> contract_id p = contract_id q \<and> contract_version p = contract_version q \<and> policy_tenant p = policy_tenant q
     \<and> is_allowed p = is_allowed q \<and> map_of (column_masks p) = map_of (column_masks q) \<and> row_filter p = row_filter q \<and> dp_columns p = dp_columns q"

lemma item_column_item_of [simp]: "item_column (item_of col) = col_name col"
  by (auto simp: item_of_def split: option.splits)

lemma effective_action_distinct:
  assumes "distinct (map col_name cols)"
  shows "effective_action cols n = Some a \<longleftrightarrow> Masked a n \<in> item_of ` set cols"
proof -
  have keep: "fold (\<lambda>col r. if col_name col = n \<and> declared_action col \<noteq> None then declared_action col else r) cs r = r"
    if "n \<notin> col_name ` set cs" for cs r
    using that by (induction cs) auto
  have "fold (\<lambda>col r. if col_name col = n \<and> declared_action col \<noteq> None then declared_action col else r) cols r = Some a
      \<longleftrightarrow> Masked a n \<in> item_of ` set cols \<or> r = Some a \<and> (\<nexists>b. Masked b n \<in> item_of ` set cols)" for r
    using assms
  proof (induction cols arbitrary: r)
    case (Cons col cols)
    have m: "Masked b n \<in> item_of ` set cols \<Longrightarrow> n \<in> col_name ` set cols" for b
      by (auto simp: item_of_def split: option.splits)
    have i: "Masked b n = item_of col \<longleftrightarrow> col_name col = n \<and> declared_action col = Some b" for b
      by (auto simp: item_of_def split: option.splits)
    show ?case
    proof (cases "col_name col = n \<and> declared_action col \<noteq> None")
      case True
      then have "n \<notin> col_name ` set cols" using Cons.prems by auto
      then have no: "Masked b n \<notin> item_of ` set cols" for b using m by blast
      show ?thesis using True keep [OF \<open>n \<notin> col_name ` set cols\<close>, of "declared_action col"] by (auto simp: i no simp del: image_iff)
    next
      case False
      then show ?thesis using Cons by (auto simp: i)
    qed
  qed simp
  then show ?thesis by (simp add: effective_action_def)
qed

lemma generated_lookups:
  "bundle_purposes (generated_bundle c v) = Some (scan_purposes (gate_text (jc_purposes c)))"
  "non_owner_template (generated_bundle c v) = Some (template_text (map item_of (jc_columns c)) (jc_row_filter c))"
proof -
  have "str_contains ''policy-purpose-gate'' ''purpose''" "\<not> str_contains ''row-filter-owner-read'' ''non-owner''"
    "str_contains ''row-filter-non-owner-read'' ''non-owner''" by code_simp+
  then show "bundle_purposes (generated_bundle c v) = Some (scan_purposes (gate_text (jc_purposes c)))"
    "non_owner_template (generated_bundle c v) = Some (template_text (map item_of (jc_columns c)) (jc_row_filter c))"
    by (simp_all add: bundle_purposes_def non_owner_template_def generated_bundle_def)
qed

lemma generated_masks:
  assumes "both_express c"
  shows "map_of (masks_from_sql (template_text (map item_of (jc_columns c)) (jc_row_filter c))) n = effective_action (jc_columns c) n"
proof -
  have e: "a \<in> expressible" if "Masked a n \<in> item_of ` set (jc_columns c)" for a n
    using that assms by (fastforce simp: both_express_def list_all_iff item_of_def declared_action_def split: option.splits sum.splits if_splits)
  have "map_of (masks_from_sql (template_text (map item_of (jc_columns c)) (jc_row_filter c))) n = Some a \<longleftrightarrow> effective_action (jc_columns c) n = Some a" for a
    using assms masks_of_template [of "map item_of (jc_columns c)" "jc_row_filter c" n a] e effective_action_distinct [of "jc_columns c" n a]
    by (auto simp: both_express_def list_all_iff plain_filter_def comp_def split: option.splits)
  then show ?thesis by (metis option.exhaust)
qed

lemma generated_agrees:
  assumes "both_express c" "map_of cs ds = Some c" "jc_version c = show_nat (unat v)" "sf_bundle f = generated_bundle c v"
  shows "\<exists>p. resolve cs ds who = Inr p \<and> same_policy p (map_bundle_to_policy f who)"
proof -
  have c: "jc_columns c \<noteq> []" "list_all (\<lambda>col. ident (col_name col)) (jc_columns c)" "jc_dp_columns c = []"
    "list_all (\<lambda>p. CHR 0x22 \<notin> set p) (jc_purposes c)" "CHR ''/'' \<notin> set (jc_owner_tenant c)" "jc_owner_tenant c \<noteq> []"
    and f: "\<And>f. jc_row_filter c = Some f \<Longrightarrow> plain_filter f"
    using assms(1) by (auto simp: both_express_def)
  have "is_ok (collect_masks (jc_columns c) [])"
    unfolding collect_masks_ok
  proof (intro ballI allI impI)
    fix col m
    assume "col \<in> set (jc_columns c)" "col_mask col = Some m"
    then have "parse_mask_action m \<in> Inr ` insert Noop expressible" using assms(1) by (auto simp: both_express_def list_all_iff)
    then show "is_ok (parse_mask_action m)" by auto
  qed
  then obtain ms where ms: "collect_masks (jc_columns c) [] = Inr ms" by (auto simp: is_ok_iff)
  have filt: "row_filter_from_sql (template_text (map item_of (jc_columns c)) (jc_row_filter c)) = jc_row_filter c"
    using c f by (intro filter_of_template) (simp_all add: list_all_iff)
  have masks: "map_of (masks_from_sql (template_text (map item_of (jc_columns c)) (jc_row_filter c))) = map_of ms"
    using generated_masks [OF assms(1)] collect_masks_effective [OF ms] by auto
  have own: "owner_tenant f = Some (jc_owner_tenant c)"
    using split_on_first [OF c(5), of "jc_contract_id c"] by (simp add: owner_tenant_def assms(4) generated_bundle_def)
  have man: "manifest (generated_bundle c v) = \<lparr>bm_contract_id = jc_contract_id c, bm_contract_version = v, compiled_at_unix_ms = 1\<rparr>"
    by (simp add: generated_bundle_def)
  have q: "same_policy p (map_bundle_to_policy f who)" if "resolve cs ds who = Inr p" for p
    using that ms filt masks scan_gate [OF c(4)] c(3,6) assms(2,3)
    by (auto simp: resolve_def get_contract_def same_policy_def map_bundle_to_policy_def own man assms(4) generated_lookups Let_def allow_all_def
        is_allowed_def split: if_splits)
  have "is_ok (resolve cs ds who)" using assms(2) ms by (simp add: resolve_def get_contract_def)
  then obtain p where "resolve cs ds who = Inr p" unfolding is_ok_iff by blast
  then show ?thesis using q by blast
qed


section \<open>The platform source is a contract source\<close>

lemma scan_masks_keys:
  "distinct (map fst ms) \<Longrightarrow> distinct (map fst (scan_masks func act rest ms))"
  "Noop \<notin> snd ` set ms \<Longrightarrow> act \<noteq> Noop \<Longrightarrow> Noop \<notin> snd ` set (scan_masks func act rest ms)"
proof (induction func act rest ms rule: scan_masks.induct)
  case (1 func act rest ms)
  case 1
  show ?case using "1.IH"(1) 1 by (subst scan_masks.simps) (auto simp: Let_def distinct_update split: option.splits)
next
  case (1 func act rest ms)
  case 2
  have "Noop \<notin> snd ` set (AList.update k act ms)" for k using 2 snd_set_update [of k act ms] by blast
  then show ?case using "1.IH"(2) 2 by (subst scan_masks.simps) (auto simp: Let_def split: option.splits)
qed

lemma masks_from_sql_keys: "distinct (map fst (masks_from_sql sql))" "Noop \<notin> snd ` set (masks_from_sql sql)"
  unfolding masks_from_sql_def mask_functions_def fold_simps prod.case
  by (intro scan_masks_keys(1), simp) (intro scan_masks_keys(2), simp_all)

lemma map_bundle_keys: "distinct (map fst (column_masks (map_bundle_to_policy f who)))" "Noop \<notin> snd ` set (column_masks (map_bundle_to_policy f who))"
  using masks_from_sql_keys by (auto simp: map_bundle_to_policy_def Let_def allow_all_def split: option.splits)

interpretation platform_source: contract_source "platform_resolve get from_slice K P s" for get from_slice K P s
  by unfold_locales (auto simp: platform_resolve_def and_then_eq_Inr map_bundle_keys)

text \<open>
  C6: platform bundles reach the plan. For an engine over the platform source, whenever the catalog
  hands out a table and a scan of it plans, the bundle was fetched for that name, its signature verified
  if a key is configured, its policy allows the caller, and the plan applies exactly the masks and the
  row filter mapped from it.
\<close>

theorem platform_policies_enforced:
  assumes "serde_json_spec to_vec from_slice rr"
    and "griot_table to_vec from_slice uuid (platform_resolve get from_slice K P s) binding who name = Inr (Some t)"
    and "governed_plan from_slice t raw w = Inr (g, w')"
  shows "\<exists>f a r m. fetch get from_slice K P s name = Inr f \<and> is_allowed (map_bundle_to_policy f who)
    \<and> (case verifying_key s of None \<Rightarrow> True | Some vk \<Rightarrow> verify K P vk f = Inr ())
    \<and> (g = MaskingExec m (RowFilterExec r (ContractApprovedExec a raw))
       \<or> (\<exists>l. g = LaplaceNoiseExec l (MaskingExec m (RowFilterExec r (ContractApprovedExec a raw)))))
    \<and> row_filter_expr r = row_filter (map_bundle_to_policy f who)
    \<and> (\<forall>col. map_of (column_policies m) col = map_option policy_of_action (map_of (column_masks (map_bundle_to_policy f who)) col))"
proof -
  obtain p a r m where h: "platform_resolve get from_slice K P s name who = Inr p" "is_allowed p" "row_filter_expr r = row_filter p"
    "g = MaskingExec m (RowFilterExec r (ContractApprovedExec a raw))
       \<or> (\<exists>l. g = LaplaceNoiseExec l (MaskingExec m (RowFilterExec r (ContractApprovedExec a raw))))"
    "\<And>col. map_of (column_policies m) col = (case map_of (column_masks p) col of
             Some act \<Rightarrow> if act = Noop then None else Some (policy_of_action act) | None \<Rightarrow> None)"
    using platform_source.table_masks [OF assms] by blast
  obtain f where f: "fetch get from_slice K P s name = Inr f" "p = map_bundle_to_policy f who"
    using h(1) by (auto simp: platform_resolve_def and_then_eq_Inr)
  have v: "case verifying_key s of None \<Rightarrow> True | Some vk \<Rightarrow> verify K P vk f = Inr ()"
    using f(1) by (auto simp: fetch_def Let_def and_then_eq_Inr map_err_eq_Inr split: http_outcome.splits if_splits option.splits)
  have "map_of (column_masks p) col \<noteq> Some Noop" for col
    using map_bundle_keys(2) [of f who] f(2) by (force dest: map_of_SomeD)
  then have "map_of (column_policies m) col = map_option policy_of_action (map_of (column_masks p) col)" for col
    using h(5) [of col] by (auto split: option.splits)
  then show ?thesis using f v h(2,3,4) by (intro exI [of _ f] exI [of _ a] exI [of _ r] exI [of _ m]) simp
qed

end
