(* ===== verification/Platform_Scenario.thy ===== *)
theory Platform_Scenario
  imports Scenario Platform_Equivalence
begin

text \<open>
  A contract served by the platform: the JSON document of its generated bundle, fetched without a
  verification key, and the properties of the platform source applied to it.
\<close>

definition orders_contract :: json_contract where
  "orders_contract = \<lparr>jc_contract_id = ''demo_v1'', jc_version = ''3'', jc_dataset = ''demo_v1'', jc_parquet = ''orders.parquet'',
     jc_owner_tenant = ''acme'', jc_purposes = [''analytics''],
     jc_columns = [\<lparr>col_name = ''amount'', col_mask = Some ''redact''\<rparr>, \<lparr>col_name = ''region'', col_mask = None\<rparr>],
     jc_row_filter = Some ''region = EU'', jc_dp_columns = []\<rparr>"

definition orders_file :: signed_bundle_file where
  "orders_file = \<lparr>sf_bundle = generated_bundle orders_contract 3, signature_hex = [],
     metadata = \<lparr>bundle_hash_hex = [], signed_at_unix_ms = 5, key_generation = 1\<rparr>\<rparr>"

definition orders_json :: json where
  "orders_json = JObj [
     (''bundle'', JObj [
        (''manifest'', JObj [(''contract_id'', JStr ''demo_v1''), (''contract_version'', JInt 3), (''compiled_at_unix_ms'', JInt 1)]),
        (''wasm_modules'', JArr []),
        (''rego_bundles'', JArr [JObj [(''name'', JStr ''policy-purpose-gate''), (''source'', JStr (gate_text [''analytics'']))]]),
        (''sql_templates'', JArr [
           JObj [(''name'', JStr ''row-filter-owner-read''), (''template'', JStr (template_text [Plain ''amount'', Plain ''region''] None))],
           JObj [(''name'', JStr ''row-filter-non-owner-read''),
             (''template'', JStr (template_text [Masked Redact ''amount'', Plain ''region''] (Some ''region = EU'')))]]),
        (''resolution_map'', JObj [(''entries'', JArr [
           JObj [(''dataset_id'', JStr ''acme/demo_v1''), (''operation'', JStr ''read''), (''check_ref'', JStr ''policy-purpose-gate'')]])])]),
     (''signature_hex'', JStr []),
     (''metadata'', JObj [(''bundle_hash_hex'', JStr []), (''signed_at_unix_ms'', JInt 5), (''key_generation'', JInt 1)])]"

lemmas de_defs = de_signed_bundle_def de_metadata_def de_compiled_bundle_def de_manifest_def de_wasm_def de_rego_def de_sql_template_def
  de_resolution_map_def de_entry_def de_u64_def de_u32_def de_uint_def de_vec_def struct_fields_def required_def

lemma orders_items: "map item_of (jc_columns orders_contract) = [Masked Redact ''amount'', Plain ''region'']"
  by code_simp

lemma orders_parsed: "de_signed_bundle orders_json = Some orders_file"
  using orders_items by (simp add: orders_json_def de_defs orders_file_def generated_bundle_def) (simp add: orders_contract_def)

definition orders_http :: http_get where
  "orders_http url auth = HttpResponse 200 ''200 OK'' (Some (unary_to_vec orders_json))"

abbreviation orders_source :: "unit platform_bundle_source" where
  "orders_source \<equiv> new_platform_source ''https://t03''"

lemma orders_fetched: "fetch orders_http unary_from_slice crypto_ref P orders_source ''demo_v1'' = Inr orders_file"
  by (simp add: fetch_def orders_http_def new_platform_source_def from_json_def orders_parsed Let_def)

lemma orders_expressible: "both_express orders_contract"
  by code_simp

definition orders_p256 :: "(unit, bytes) p256" where
  "orders_p256 = \<lparr>sig_from_der = Some, ecdsa_verify = (\<lambda>_ _ _. False)\<rparr>"

lemma orders_version: "jc_version orders_contract = show_nat (unat (3 :: 64 word))"
  by (simp add: orders_contract_def) code_simp


lemma orders_policy:
  "decision (map_bundle_to_policy orders_file bob) = Allow" "contract_id (map_bundle_to_policy orders_file bob) = ''demo_v1''"
  "dp_columns (map_bundle_to_policy orders_file bob) = []"
  "map_of (column_masks (map_bundle_to_policy orders_file bob)) ''amount'' = Some Redact"
  "row_filter (map_bundle_to_policy orders_file bob) = Some ''region = EU''"
proof -
  define q where "q = map_bundle_to_policy orders_file bob"
  have "map_of [(''demo_v1'', orders_contract)] ''demo_v1'' = Some orders_contract" "sf_bundle orders_file = generated_bundle orders_contract 3"
    by (simp_all add: orders_file_def)
  from generated_agrees [OF orders_expressible this(1) orders_version this(2)]
  obtain p where pq: "resolve [(''demo_v1'', orders_contract)] ''demo_v1'' bob = Inr p" "same_policy p q"
    unfolding q_def by blast
  have "resolve [(''demo_v1'', orders_contract)] ''demo_v1'' bob = Inr \<lparr>contract_id = ''demo_v1'', contract_version = ''3'', policy_tenant = ''acme'',
     decision = Allow, column_masks = [(''amount'', Redact)], row_filter = Some ''region = EU'', dp_columns = []\<rparr>" by code_simp
  then have p: "p = \<lparr>contract_id = ''demo_v1'', contract_version = ''3'', policy_tenant = ''acme'',
     decision = Allow, column_masks = [(''amount'', Redact)], row_filter = Some ''region = EU'', dp_columns = []\<rparr>" using pq(1) by simp
  show "decision (map_bundle_to_policy orders_file bob) = Allow" "contract_id (map_bundle_to_policy orders_file bob) = ''demo_v1''"
    "dp_columns (map_bundle_to_policy orders_file bob) = []"
    "map_of (column_masks (map_bundle_to_policy orders_file bob)) ''amount'' = Some Redact"
    "row_filter (map_bundle_to_policy orders_file bob) = Some ''region = EU''"
    using pq(2) unfolding q_def [symmetric] p by (auto simp: same_policy_def is_allowed_def split: decision.splits dest: fun_cong [of _ _ "''amount''"])
qed

theorem platform_policies_enforced_witness:
  "\<exists>t g w' m p. griot_table unary_to_vec unary_from_slice 7 (platform_resolve orders_http unary_from_slice crypto_ref orders_p256 orders_source)
        (\<lambda>_. Inr sales_table) bob ''demo_v1'' = Inr (Some t)
     \<and> governed_plan unary_from_slice t (DfExec scan_node []) world0 = Inr (g, w')
     \<and> g = MaskingExec m p \<and> map_of (column_policies m) ''amount'' = Some PRedact"
proof -
  define p where "p = map_bundle_to_policy orders_file bob"
  define t where "t = new_provider unary_to_vec unary_from_slice 7 sales_table p"
  have r: "griot_table unary_to_vec unary_from_slice 7 (platform_resolve orders_http unary_from_slice crypto_ref orders_p256 orders_source)
        (\<lambda>_. Inr sales_table) bob ''demo_v1'' = Inr (Some t)"
    using orders_policy(1) by (simp add: griot_table_def platform_resolve_def orders_fetched t_def p_def)
  obtain g w' where g: "governed_plan unary_from_slice t (DfExec scan_node []) world0 = Inr (g, w')"
    using governed_plan_plans [OF serde_json_spec_unary, of p 7 sales_table "DfExec scan_node []" world0] map_bundle_keys(1) orders_policy(2,3)
    unfolding t_def p_def by auto
  obtain f a r' m where f: "fetch orders_http unary_from_slice crypto_ref orders_p256 orders_source ''demo_v1'' = Inr f"
    and h: "g = MaskingExec m (RowFilterExec r' (ContractApprovedExec a (DfExec scan_node [])))
       \<or> (\<exists>l. g = LaplaceNoiseExec l (MaskingExec m (RowFilterExec r' (ContractApprovedExec a (DfExec scan_node [])))))"
    "map_of (column_policies m) ''amount'' = map_option policy_of_action (map_of (column_masks (map_bundle_to_policy f bob)) ''amount'')"
    using platform_policies_enforced [OF serde_json_spec_unary r g] by blast
  have "f = orders_file" using f by (simp add: orders_fetched)
  then have m: "map_of (column_policies m) ''amount'' = Some PRedact" using h(2) orders_policy(4) by simp
  have nodp: "\<not> ctp_has_dp t" using orders_policy(3) by (simp add: t_def p_def new_provider_def Let_def has_dp_def)
  have "\<exists>m' p'. g = MaskingExec m' p'" by (rule governed_plan_inv [OF g]) (use nodp in auto)
  then show ?thesis using r g h(1) m by blast
qed

end
