(* ===== verification/Noninterference.thy ===== *)
theory Noninterference
  imports Scenario
begin

text \<open>
  What the answer of a governed scan can reveal: two data sources that differ only in hidden rows and
  in what the masks hide give the same answer, batches, errors and effects alike.
\<close>

section \<open>Data that a policy cannot tell apart\<close>

text \<open>The characters a partial mask shows of a value, last first.\<close>

definition shown_tail :: "string \<Rightarrow> string list" where
  "shown_tail v = take 4 (rev (utf8_chars v))"

text \<open>
  Columns that look the same under a mask: redacted and nulled ones of the same type with nulls in the
  same places, partially masked strings with the same tails, and otherwise only equal ones.
\<close>

definition column_alike :: "mask_policy option \<Rightarrow> array \<Rightarrow> array \<Rightarrow> bool" where
  "column_alike p a b \<longleftrightarrow> a = b
     \<or> ((p = Some PRedact \<or> p = Some PNull) \<and> array_ok a \<and> array_ok b \<and> data_type_of a = data_type_of b \<and> null_mask a = null_mask b)
     \<or> (p = Some PPartial \<and> (\<exists>xs ys. a = StringArray xs \<and> b = StringArray ys
          \<and> map (map_option shown_tail) xs = map (map_option shown_tail) ys))"

definition batch_alike :: "(string \<times> mask_policy) list \<Rightarrow> record_batch \<Rightarrow> record_batch \<Rightarrow> bool" where
  "batch_alike ps b1 b2 \<longleftrightarrow> batch_schema b1 = batch_schema b2
     \<and> list_all2 (\<lambda>(f, a) (f', b). f' = f \<and> column_alike (map_of ps (field_name f)) a b)
          (zip (batch_schema b1) (batch_columns b1)) (zip (batch_schema b2) (batch_columns b2))
     \<and> (ps = [] \<longrightarrow> batch_columns b1 = batch_columns b2)"

text \<open>
  Items of the raw scan: the rows that the filter keeps must look alike, the rows it drops may differ in
  any way.
\<close>

definition item_alike :: "exec_env \<Rightarrow> string option \<Rightarrow> (string \<times> mask_policy) list \<Rightarrow> df_error + record_batch \<Rightarrow> df_error + record_batch \<Rightarrow> bool" where
  "item_alike env f ps x y \<longleftrightarrow> (case (x, y) of
       (Inl e, Inl e') \<Rightarrow> e' = e
     | (Inr b1, Inr b2) \<Rightarrow>
         (case (filter_item (x_arrow env) (x_sql env) (x_expr env) f b1, filter_item (x_arrow env) (x_sql env) (x_expr env) f b2) of
            (Inl e, Inl e') \<Rightarrow> e' = e
          | (Inr k1, Inr k2) \<Rightarrow> batch_alike ps k1 k2
          | _ \<Rightarrow> False)
     | _ \<Rightarrow> False)"

definition data_alike :: "exec_env \<Rightarrow> string option \<Rightarrow> (string \<times> mask_policy) list
    \<Rightarrow> (df_error + (df_error + record_batch) list) \<times> world \<Rightarrow> (df_error + (df_error + record_batch) list) \<times> world \<Rightarrow> bool" where
  "data_alike env f ps r1 r2 \<longleftrightarrow> snd r1 = snd r2
     \<and> (case (fst r1, fst r2) of
          (Inl e, Inl e') \<Rightarrow> e' = e
        | (Inr xs, Inr ys) \<Rightarrow> list_all2 (item_alike env f ps) xs ys
        | _ \<Rightarrow> False)"

section \<open>Masking\<close>

lemma map_option_factor:
  assumes "\<And>u v. h u = h v \<Longrightarrow> g u = g v" "map (map_option h) xs = map (map_option h) ys"
  shows "map (map_option g) xs = map (map_option g) ys"
  using assms(2)
proof (induction xs arbitrary: ys)
  case (Cons x xs)
  then obtain y ys' where y: "ys = y # ys'" "map_option h x = map_option h y" "map (map_option h) xs = map (map_option h) ys'" by auto
  then have "map_option g x = map_option g y" by (cases x; cases y) (auto dest: assms(1))
  then show ?case using Cons.IH y by simp
qed simp

lemma column_alike_masked:
  assumes "column_alike (Some p) a b" "p \<noteq> PNoop"
  shows "apply_mask_to_column A K a n p = apply_mask_to_column A K b n p"
proof -
  have "shown_tail u = shown_tail v \<Longrightarrow> mask_string_value K u PPartial = mask_string_value K v PPartial" for u v
    by (simp add: mask_string_value_def shown_tail_def)
  note tails = map_option_factor [of shown_tail, OF this]
  have part: "apply_mask_to_column A K (StringArray xs) n PPartial = apply_mask_to_column A K (StringArray ys) n PPartial"
    if "map (map_option shown_tail) xs = map (map_option shown_tail) ys" for xs ys
    using tails [OF _ that] by (simp add: apply_mask_to_column_def is_string_producing_def)
  from assms(1) consider "a = b"
    | "p = PRedact \<or> p = PNull" "array_ok a" "array_ok b" "data_type_of a = data_type_of b" "null_mask a = null_mask b"
    | xs ys where "p = PPartial" "a = StringArray xs" "b = StringArray ys" "map (map_option shown_tail) xs = map (map_option shown_tail) ys"
    by (auto simp: column_alike_def)
  then show ?thesis
  proof cases
    case 2
    then show ?thesis by (intro redact_no_leak)
  next
    case 3
    then show ?thesis using part [OF 3(4)] by (simp only:)
  qed simp
qed

lemma mask_field_alike:
  "column_alike (map_of ps (field_name f)) a b \<Longrightarrow> mask_field_column A K ps (f, a) = mask_field_column A K ps (f, b)"
proof (cases "map_of ps (field_name f)")
  case None
  assume "column_alike (map_of ps (field_name f)) a b"
  then show ?thesis using None by (simp add: mask_field_column_def column_alike_def)
next
  case (Some p)
  assume "column_alike (map_of ps (field_name f)) a b"
  then have c: "column_alike (Some p) a b" using Some by simp
  show ?thesis
  proof (cases "p = PNoop")
    case True
    then show ?thesis using Some by (simp add: mask_field_column_def) (use c True in \<open>simp add: column_alike_def\<close>)
  next
    case False
    then show ?thesis using Some column_alike_masked [OF c False] by (simp add: mask_field_column_def)
  qed
qed

lemma map_r_alike: "list_all2 (\<lambda>x y. g x = g y) xs ys \<Longrightarrow> map_r g xs = map_r g ys"
  by (induction rule: list_all2_induct) simp_all

lemma mask_item_alike:
  assumes "batch_alike ps b1 b2"
  shows "mask_item A K ps s b1 = mask_item A K ps s b2"
proof (cases "ps = []")
  case True
  then show ?thesis using assms by (cases b1; cases b2) (simp add: mask_item_def batch_alike_def)
next
  case False
  have "list_all2 (\<lambda>x y. mask_field_column A K ps x = mask_field_column A K ps y)
      (zip (batch_schema b1) (batch_columns b1)) (zip (batch_schema b2) (batch_columns b2))"
    using assms unfolding batch_alike_def by (auto elim!: list_all2_mono intro: mask_field_alike)
  from map_r_alike [OF this] show ?thesis using False by (simp add: mask_item_def apply_masking_to_batch_def)
qed

section \<open>Running the plan\<close>

lemma run_stages_df: "run_stages (env\<lparr>x_df := d\<rparr>) sts b w = run_stages env sts b w"
proof (induction sts arbitrary: b w)
  case (Cons st sts)
  have "run_stage (env\<lparr>x_df := d\<rparr>) st b w = run_stage env st b w" by (cases st) (simp_all add: dp_item_def Let_def)
  then show ?case using Cons.IH by (auto split: sum.splits prod.splits)
qed simp

lemma stages_alike:
  assumes "item_alike env f ps (Inr b1) (Inr b2)"
  shows "run_stages env (StFilter f # StMask ps s # sts) b1 w = run_stages env (StFilter f # StMask ps s # sts) b2 w"
  using assms mask_item_alike [of ps _ _ "x_arrow env" "x_crypto env" s]
  by (auto simp: item_alike_def split: sum.splits)

lemma run_stages_keep:
  "run_stages env (StFilter f # StMask ps s # sts) b w = (Inr b', sts', w') \<Longrightarrow> \<exists>q. sts' = StFilter f # StMask ps s # q"
  by (auto split: sum.splits prod.splits)

lemma drive_alike:
  "list_all2 (item_alike env f ps) xs ys \<Longrightarrow>
     drive env xs (StFilter f # StMask ps s # sts) w = drive (env\<lparr>x_df := d\<rparr>) ys (StFilter f # StMask ps s # sts) w"
proof (induction arbitrary: sts w rule: list_all2_induct)
  case (Cons x xs y ys)
  show ?case
  proof (cases x)
    case (Inl e)
    then show ?thesis using Cons.hyps(1) by (auto simp: item_alike_def split: sum.splits)
  next
    case x: (Inr b1)
    then obtain b2 where y: "y = Inr b2" using Cons.hyps(1) by (auto simp: item_alike_def split: sum.splits)
    let ?sts = "StFilter f # StMask ps s # sts"
    obtain r sts' w' where r: "run_stages env ?sts b2 w = (r, sts', w')" by (metis prod_cases3)
    have r1: "run_stages env ?sts b1 w = (r, sts', w')" using stages_alike [of env f ps b1 b2 s sts w] Cons.hyps(1) x y r by simp
    have r2: "run_stages (env\<lparr>x_df := d\<rparr>) ?sts b2 w = (r, sts', w')" using r by (simp only: run_stages_df)
    show ?thesis
    proof (cases r)
      case (Inl e)
      then show ?thesis using r1 r2 x y by (simp del: run_stages.simps)
    next
      case (Inr b')
      then obtain q where q: "sts' = StFilter f # StMask ps s # q" using run_stages_keep r by blast
      show ?thesis using r1 r2 x y Inr q Cons.IH [of q w'] by (simp del: run_stages.simps)
    qed
  qed
qed simp


section \<open>Two sources\<close>

text \<open>The sales table with redacted amounts, and a source with other amounts and other hidden rows.\<close>

definition redacted_policy :: resolved_policy where
  "redacted_policy = sales_policy\<lparr>column_masks := [(''amount'', Redact)]\<rparr>"

definition redacted_provider :: contract_table_provider where
  "redacted_provider = new_provider unary_to_vec unary_from_slice 7 sales_table redacted_policy"

definition other_batch :: record_batch where
  "other_batch = \<lparr>batch_schema = sales_schema,
     batch_columns = [StringArray [Some ''FR'', Some ''EU''], Int64Array [Some 7, Some 99]]\<rparr>"

definition other_df :: "df_node \<Rightarrow> plan list \<Rightarrow> nat \<Rightarrow> world \<Rightarrow> (df_error + (df_error + record_batch) list) \<times> world" where
  "other_df n cs part w = (Inr (if node_schema n = sales_schema then [Inr other_batch] else []), w)"

lemma other_filtered: "filter_item arrow_ref sql_ref expr_ref (Some ''region = EU'') other_batch
    = Inr (other_batch\<lparr>batch_columns := [StringArray [Some ''EU''], Int64Array [Some 99]]\<rparr>)"
  by code_simp

lemma redacted_parsed:
  "parse_row_filter unary_from_slice (ctp_bundle redacted_provider) = Inr (Some ''region = EU'')"
  "parse_masking_bundle unary_from_slice (ctp_bundle redacted_provider) = Inr [(''amount'', PRedact)]"
proof -
  have t: "ctp_bundle redacted_provider = to_bundle_handle unary_to_vec 7 redacted_policy"
    by (simp add: redacted_provider_def new_provider_def Let_def)
  show "parse_row_filter unary_from_slice (ctp_bundle redacted_provider) = Inr (Some ''region = EU'')"
    using parse_row_filter_policy [OF serde_json_spec_unary, of 7 redacted_policy] t by (simp add: redacted_policy_def sales_policy_def)
  have d: "distinct (map fst (column_masks redacted_policy))" by (simp add: redacted_policy_def sales_policy_def)
  obtain ps where q: "parse_masking_bundle unary_from_slice (ctp_bundle redacted_provider) = Inr ps" "distinct (map fst ps)"
    "\<forall>col. map_of ps col = (case map_of (column_masks redacted_policy) col of
       Some act \<Rightarrow> if act = Noop then None else Some (policy_of_action act) | None \<Rightarrow> None)"
    using parse_masking_bundle_policy [OF serde_json_spec_unary d, of 7] unfolding t by blast
  have ps: "map_of ps col = (if col = ''amount'' then Some PRedact else None)" for col
    unfolding q(3) [rule_format] by (simp add: redacted_policy_def)
  have "ps = [(''amount'', PRedact)]" using q(2) ps by (rule single_entry)
  then show "parse_masking_bundle unary_from_slice (ctp_bundle redacted_provider) = Inr [(''amount'', PRedact)]" using q(1) by simp
qed

lemma sales_alike: "data_alike env_ref (Some ''region = EU'') [(''amount'', PRedact)] (x_df env_ref scan_node [] part v) (other_df scan_node [] part v)"
proof -
  have "batch_alike [(''amount'', PRedact)] (sales_batch\<lparr>batch_columns := [StringArray [Some ''EU''], Int64Array [Some 10]]\<rparr>)
      (other_batch\<lparr>batch_columns := [StringArray [Some ''EU''], Int64Array [Some 99]]\<rparr>)"
    by (simp add: batch_alike_def column_alike_def sales_batch_def other_batch_def sales_schema_def in_i64_def)
  then have "item_alike env_ref (Some ''region = EU'') [(''amount'', PRedact)] (Inr sales_batch) (Inr other_batch)"
    by (simp add: item_alike_def env_ref_def sales_filtered other_filtered)
  then show ?thesis by (simp add: data_alike_def other_df_def) (simp add: env_ref_def scan_node_def)
qed


end
