(* ===== verification/Enforcement_Events.thy ===== *)
theory Enforcement_Events
  imports Governed_Table
begin

text \<open>
  The enforcement events the physical operators record (\<open>drain_events\<close> in \<open>src/src/physical\<close>). Every
  operator has a list of them, but only the approval marker ever adds to its own.
\<close>

section \<open>Model\<close>

definition row_filter_drain_events :: "row_filter_exec \<Rightarrow> world \<Rightarrow> physical_enforcement_event list \<times> world" where
  "row_filter_drain_events x w = drain_events (rf_id x) w"

definition masking_drain_events :: "masking_exec \<Rightarrow> world \<Rightarrow> physical_enforcement_event list \<times> world" where
  "masking_drain_events x w = drain_events (mk_id x) w"

definition laplace_drain_events :: "laplace_noise_exec \<Rightarrow> world \<Rightarrow> physical_enforcement_event list \<times> world" where
  "laplace_drain_events x w = drain_events (ln_id x) w"

definition epsilon_consumed :: "laplace_noise_exec \<Rightarrow> world \<Rightarrow> f64 option" where
  "epsilon_consumed x w = eps_cells w (ln_id x)"

section \<open>Who records events\<close>

text \<open>DataFusion's nodes do not write into the lists of the operators.\<close>

definition df_leaves_events :: "exec_env \<Rightarrow> bool" where
  "df_leaves_events env \<longleftrightarrow> (\<forall>n cs part w. event_cells (snd (x_df env n cs part w)) = event_cells w)"

lemma run_stages_events: "event_cells (snd (snd (run_stages env sts b w))) = event_cells w"
proof (induction sts arbitrary: b w)
  case (Cons st sts)
  have "event_cells (snd (snd (run_stage env st b w))) = event_cells w"
    by (cases st) (auto simp: dp_item_def Let_def split: prod.splits sum.splits)
  then show ?case using Cons.IH by (auto split: prod.splits sum.splits) (metis snd_conv)+
qed simp

lemma drive_events: "event_cells (snd (drive env its sts w)) = event_cells w"
proof (induction env its sts w rule: drive.induct)
  case (3 env b its sts w)
  obtain r sts' w' where r: "run_stages env sts b w = (r, sts', w')" by (metis prod_cases3)
  have "event_cells w' = event_cells w" using run_stages_events [of env sts b w] r by simp
  then show ?case using 3 r by (cases r) (auto split: prod.splits sum.splits)
qed simp_all

lemma governed_plan_fresh:
  assumes "governed_plan fs t inner w = Inr (g, w1)"
  shows "\<exists>a r m. ca_bundle a = ctp_bundle t \<and> ca_id a = next_id w \<and> rf_id r = next_id w + 1 \<and> mk_id m = next_id w + 2
    \<and> event_cells w1 (ca_id a) = [] \<and> event_cells w1 (rf_id r) = [] \<and> event_cells w1 (mk_id m) = []
    \<and> (g = MaskingExec m (RowFilterExec r (ContractApprovedExec a inner))
       \<or> (\<exists>l. g = LaplaceNoiseExec l (MaskingExec m (RowFilterExec r (ContractApprovedExec a inner)))
            \<and> ln_id l = next_id w + 4 \<and> event_cells w1 (ln_id l) = []))"
  using assms
  by (auto simp: governed_plan_def new_contract_approved_def new_row_filter_def new_masking_def new_permissive_def build_laplace_def
      alloc_node_def alloc_tracker_def Let_def and_then_eq_Inr split: if_splits)

definition approval_event :: "contract_bundle_handle \<Rightarrow> physical_enforcement_event" where
  "approval_event b = \<lparr>operator_name = ''ContractApprovedExec'', detail = ''contract '' @ quoted (bundle_contract_id b) @ '' approved for execution''\<rparr>"

text \<open>
  After a governed scan of a leaf was planned and run, successfully or not, the approval marker has
  recorded one event and the row filter, the masking and the noise operators none, whatever they did
  to the rows.
\<close>

theorem enforcement_unrecorded:
  assumes "df_leaves_events env" "governed_plan fs t (DfExec n cs) w = Inr (g, w1)"
    and "w2 = snd (collect_partition env g part w1)"
  shows "\<exists>a r m. fst (drain_events (ca_id a) w2) = [approval_event (ctp_bundle t)]
    \<and> fst (row_filter_drain_events r w2) = [] \<and> fst (masking_drain_events m w2) = []
    \<and> (g = MaskingExec m (RowFilterExec r (ContractApprovedExec a (DfExec n cs)))
       \<or> (\<exists>l. g = LaplaceNoiseExec l (MaskingExec m (RowFilterExec r (ContractApprovedExec a (DfExec n cs))))
            \<and> fst (laplace_drain_events l w2) = []))"
proof -
  obtain a r m where h: "ca_bundle a = ctp_bundle t" "ca_id a = next_id w" "rf_id r = next_id w + 1" "mk_id m = next_id w + 2"
    "event_cells w1 (ca_id a) = []" "event_cells w1 (rf_id r) = []" "event_cells w1 (mk_id m) = []"
    and g: "g = MaskingExec m (RowFilterExec r (ContractApprovedExec a (DfExec n cs)))
       \<or> (\<exists>l. g = LaplaceNoiseExec l (MaskingExec m (RowFilterExec r (ContractApprovedExec a (DfExec n cs))))
            \<and> ln_id l = next_id w + 4 \<and> event_cells w1 (ln_id l) = [])"
    using governed_plan_fresh [OF assms(2)] by blast
  let ?w = "emit_approval_event a w1"
  obtain x v where x: "x_df env n cs part ?w = (x, v)" by fastforce
  have v: "event_cells v = event_cells ?w" using assms(1) x unfolding df_leaves_events_def by (metis snd_conv)
  have "event_cells w2 = event_cells ?w"
    using g
  proof (elim disjE exE conjE)
    assume "g = MaskingExec m (RowFilterExec r (ContractApprovedExec a (DfExec n cs)))"
    then show ?thesis using x v by (simp add: assms(3) masked_stack_runs drive_events split: sum.splits)
  next
    fix l assume "g = LaplaceNoiseExec l (MaskingExec m (RowFilterExec r (ContractApprovedExec a (DfExec n cs))))"
    then show ?thesis using x v by (simp add: assms(3) noised_stack_runs drive_events split: sum.splits)
  qed
  then have e: "event_cells w2 i = (if i = ca_id a then event_cells w1 i @ [approval_event (ctp_bundle t)] else event_cells w1 i)" for i
    by (simp add: emit_approval_event_def push_event_def approval_event_def h(1))
  have "fst (drain_events (ca_id a) w2) = [approval_event (ctp_bundle t)] \<and> fst (row_filter_drain_events r w2) = []
      \<and> fst (masking_drain_events m w2) = []"
    using h e by (simp add: drain_events_def row_filter_drain_events_def masking_drain_events_def)
  moreover have "fst (laplace_drain_events l w2) = []" if "ln_id l = next_id w + 4" "event_cells w1 (ln_id l) = []" for l
    using h e that by (simp add: drain_events_def laplace_drain_events_def)
  ultimately show ?thesis using g by blast
qed

end
