(* ===== verification/Uds_Frames.thy ===== *)
theory Uds_Frames
  imports Wire_Bytes Griot_Errors
begin

text \<open>
  Unix domain sockets and the length-prefixed frames the two socket clients of the sources exchange over
  them. A socket is a parameter: what a connection to a path answers to the bytes written to it.
\<close>

section \<open>Sockets\<close>

text \<open>
  Connecting fails, writing the request fails, or the peer sends some bytes and closes. \<open>read_exact\<close>
  fails when fewer bytes are left than asked for.
\<close>

datatype uds_outcome = UdsUnreachable | UdsWriteFailed | UdsStream bytes

type_synonym uds = "string \<Rightarrow> bytes \<Rightarrow> uds_outcome"

definition read_exact :: "nat \<Rightarrow> bytes \<Rightarrow> (bytes \<times> bytes) option" where
  "read_exact n s = (if length s < n then None else Some (take n s, drop n s))"

definition frame :: "bytes \<Rightarrow> bytes" where
  "frame body = be_bytes 4 (length body) @ body"

definition of_be :: "bytes \<Rightarrow> nat" where
  "of_be bs = of_le (rev bs)"

text \<open>
  The response of both protocols: a big-endian length of at most \<open>limit\<close> bytes, then the document; with
  what follows it. \<open>io\<close> and \<open>protocol\<close> are the error constructors of the client.
\<close>

definition read_document :: "'e \<Rightarrow> (string \<Rightarrow> 'e) \<Rightarrow> nat \<Rightarrow> string \<Rightarrow> bytes \<Rightarrow> 'e + bytes \<times> bytes" where
  "read_document io protocol limit what s =
     and_then (ok_or io (read_exact 4 s)) (\<lambda>(len_bytes, s1).
     (let n = of_be len_bytes in
       if n = 0 \<or> n > limit then Inl (protocol (what @ show_nat n))
       else ok_or io (read_exact n s1)))"

section \<open>Frames\<close>

lemma of_be_bytes: "of_be (be_bytes n v) = v mod 256 ^ n"
  by (simp add: of_be_def be_bytes_def of_le_bytes)

lemma read_exact_prefix: "length a = n \<Longrightarrow> read_exact n (a @ b) = Some (a, b)"
  by (auto simp: read_exact_def)

lemma read_document_frame:
  assumes "doc \<noteq> []" "length doc \<le> limit" "limit < 2 ^ 32"
  shows "read_document io protocol limit what (frame doc @ s) = Inr (doc, s)"
proof -
  have "length doc < 256 ^ 4" using assms(2,3) by simp
  then show ?thesis using assms
    by (simp add: read_document_def frame_def read_exact_prefix of_be_bytes Let_def)
qed

lemma le_bytes_of_le: "length bs = n \<Longrightarrow> le_bytes n (of_le bs) = bs"
proof (induction bs arbitrary: n)
  case Nil
  then show ?case by (simp add: le_bytes_def)
next
  case (Cons c bs)
  then obtain m where n: "n = Suc m" "length bs = m" by auto
  have c: "code c < (256 :: nat)" by (metis char_of_char of_char_of mod_less_divisor zero_less_numeral)
  have "(char_of (code c + 256 * of_le bs) :: char) = char_of (code c)"
    by (metis char_of_mod_256 mod_mult_self2)
  then show ?case using Cons.IH [OF n(2)] c by (simp add: n(1) le_bytes_Suc)
qed

lemma be_bytes_of_be: "length bs = n \<Longrightarrow> be_bytes n (of_be bs) = bs"
  using le_bytes_of_le [of "rev bs" n] by (simp add: be_bytes_def of_be_def)

lemma read_exact_split: "read_exact n s = Some (a, b) \<Longrightarrow> s = a @ b \<and> length a = n"
  by (auto simp: read_exact_def split: if_splits)

text \<open>A document is read exactly from a frame that holds it.\<close>

lemma read_document_iff:
  assumes "limit < 2 ^ 32"
  shows "read_document io protocol limit what s = Inr (doc, rest) \<longleftrightarrow> s = frame doc @ rest \<and> doc \<noteq> [] \<and> length doc \<le> limit"
proof
  assume "read_document io protocol limit what s = Inr (doc, rest)"
  then obtain lb s1 where s: "read_exact 4 s = Some (lb, s1)" "of_be lb \<noteq> 0" "of_be lb \<le> limit" "read_exact (of_be lb) s1 = Some (doc, rest)"
    by (auto simp: read_document_def and_then_eq_Inr ok_or_eq_Inr Let_def split: if_splits)
  have lb: "s = lb @ s1" "length lb = 4" and doc: "s1 = doc @ rest" "length doc = of_be lb"
    using s(1,4) by (auto dest: read_exact_split)
  have "be_bytes 4 (length doc) = lb" unfolding doc(2) by (rule be_bytes_of_be [OF lb(2)])
  then have "frame doc = lb @ doc" by (simp only: frame_def)
  moreover have "doc \<noteq> []" using doc(2) s(2) by (metis list.size(3))
  moreover have "length doc \<le> limit" unfolding doc(2) by (rule s(3))
  ultimately show "s = frame doc @ rest \<and> doc \<noteq> [] \<and> length doc \<le> limit" by (simp only: lb(1) doc(1) append_assoc simp_thms)
next
  assume "s = frame doc @ rest \<and> doc \<noteq> [] \<and> length doc \<le> limit"
  then have h: "s = frame doc @ rest" "doc \<noteq> []" "length doc \<le> limit" by blast+
  show "read_document io protocol limit what s = Inr (doc, rest)" unfolding h(1) by (rule read_document_frame [OF h(2,3) assms])
qed

end
