(* ===== verification/Storaged_Client.thy ===== *)
theory Storaged_Client
  imports Uds_Frames
begin

text \<open>
  \<open>src/src/storaged_client.rs\<close>: the client of the storage daemon's byte-read socket. Every
  request opens a connection of its own.
\<close>

section \<open>Model\<close>

datatype storaged_error =
    AccessDenied string string
  | RangeError string nat nat
  | SocketUnreachable string
  | StoragedProtocol string
  | StoragedIo

definition byte_read_request :: "string \<Rightarrow> 64 word \<Rightarrow> 64 word \<Rightarrow> string \<Rightarrow> string \<Rightarrow> json" where
  "byte_read_request asset_id off len tenant jwt = JObj [(''opcode'', JStr ''0x30''), (''asset_id'', JStr asset_id), (''offset'', JInt (uint off)),
     (''length'', JInt (uint len)), (''tenant_id'', JStr tenant), (''principal_jwt'', JStr jwt)]"

record byte_read_response_header =
  hd_error :: "string option"
  hd_error_code :: "string option"
  hd_byte_count :: "nat option"

definition de_header :: "json \<Rightarrow> byte_read_response_header option" where
  "de_header j = Option.bind (struct_fields [''error'', ''error_code'', ''byte_count''] j) (\<lambda>fs.
     Option.bind (defaulted fs ''error'' None (de_option de_string)) (\<lambda>e.
     Option.bind (defaulted fs ''error_code'' None (de_option de_string)) (\<lambda>c.
     Option.bind (defaulted fs ''byte_count'' None (de_option (de_uint 64))) (\<lambda>n.
       Some \<lparr>hd_error = e, hd_error_code = c, hd_byte_count = n\<rparr>))))"

definition asset_stat_request :: "string \<Rightarrow> string \<Rightarrow> string \<Rightarrow> json" where
  "asset_stat_request asset_id tenant jwt = JObj [(''opcode'', JStr ''0x31''), (''asset_id'', JStr asset_id),
     (''tenant_id'', JStr tenant), (''principal_jwt'', JStr jwt)]"

record asset_stat_response =
  stat_size :: nat
  stat_content_type :: string
  stat_format_version :: string

definition de_stat :: "json \<Rightarrow> asset_stat_response option" where
  "de_stat j = Option.bind (struct_fields [''size'', ''content_type'', ''format_version''] j) (\<lambda>fs.
     Option.bind (required fs ''size'' (de_uint 64)) (\<lambda>n.
     Option.bind (required fs ''content_type'' de_string) (\<lambda>c.
     Option.bind (required fs ''format_version'' de_string) (\<lambda>v.
       Some \<lparr>stat_size = n, stat_content_type = c, stat_format_version = v\<rparr>))))"

record storaged_client =
  sc_socket_path :: string

definition new_storaged_client :: "string \<Rightarrow> storaged_client" where
  "new_storaged_client path = \<lparr>sc_socket_path = path\<rparr>"

text \<open>Connecting and writing the request frame; the result is what the peer sends.\<close>

definition storaged_exchange :: "uds \<Rightarrow> storaged_client \<Rightarrow> bytes \<Rightarrow> storaged_error + bytes" where
  "storaged_exchange uds c request = (case uds (sc_socket_path c) (frame request) of
     UdsUnreachable \<Rightarrow> Inl (SocketUnreachable (sc_socket_path c))
   | UdsWriteFailed \<Rightarrow> Inl StoragedIo
   | UdsStream s \<Rightarrow> Inr s)"

definition read_error :: "string \<Rightarrow> 64 word \<Rightarrow> 64 word \<Rightarrow> string option \<Rightarrow> string \<Rightarrow> storaged_error" where
  "read_error asset_id off len error_code msg = (let code = (case error_code of None \<Rightarrow> ''UNKNOWN'' | Some c \<Rightarrow> c) in
     if code = ''ACCESS_DENIED'' then AccessDenied asset_id msg
     else if code = ''RANGE_ERROR'' then RangeError asset_id (unat off) (unat len)
     else StoragedProtocol (''T04 error ['' @ code @ '']: '' @ msg))"

text \<open>
  The buffer for the payload is allocated for the announced count: more than \<open>isize::MAX\<close> bytes panic
  (\<open>None\<close>).
\<close>

definition read_payload :: "nat \<Rightarrow> bytes \<Rightarrow> (storaged_error + bytes) option" where
  "read_payload byte_count s = (if 2 ^ 63 \<le> byte_count then None
     else Some (and_then (ok_or StoragedIo (read_exact byte_count s)) (\<lambda>(payload, _). Inr payload)))"

definition read_bytes :: "to_vec \<Rightarrow> from_slice \<Rightarrow> uds \<Rightarrow> storaged_client \<Rightarrow> string \<Rightarrow> 64 word \<Rightarrow> 64 word \<Rightarrow> string \<Rightarrow> string
    \<Rightarrow> (storaged_error + bytes) option" where
  "read_bytes to_vec from_slice uds c asset_id off len tenant jwt =
     (case and_then (storaged_exchange uds c (to_vec (byte_read_request asset_id off len tenant jwt))) (\<lambda>s.
           and_then (read_document StoragedIo StoragedProtocol (4 * 1024 * 1024) ''invalid response header length: '' s) (\<lambda>(header_bytes, rest).
           and_then (ok_or (StoragedProtocol ''response header deserialization: '') (Option.bind (from_slice header_bytes) de_header)) (\<lambda>header.
             Inr (header, rest)))) of
        Inl e \<Rightarrow> Some (Inl e)
      | Inr (header, rest) \<Rightarrow> (case hd_error header of
          Some msg \<Rightarrow> Some (Inl (read_error asset_id off len (hd_error_code header) msg))
        | None \<Rightarrow> read_payload (case hd_byte_count header of None \<Rightarrow> unat len | Some n \<Rightarrow> n) rest))"

text \<open>\<open>Value::get\<close> and \<open>as_str\<close>: a parsed object keeps the last of repeated members.\<close>

definition value_str :: "json \<Rightarrow> string \<Rightarrow> string option" where
  "value_str j k = (case j of JObj kvs \<Rightarrow> Option.bind (map_of (rev kvs) k) de_string | _ \<Rightarrow> None)"

definition stat_error :: "from_slice \<Rightarrow> string \<Rightarrow> bytes \<Rightarrow> storaged_error" where
  "stat_error from_slice asset_id resp = (case Option.bind (from_slice resp) (\<lambda>j. map_option (Pair j) (value_str j ''error'')) of
     Some (j, msg) \<Rightarrow> (let code = (case value_str j ''error_code'' of None \<Rightarrow> ''UNKNOWN'' | Some c \<Rightarrow> c) in
       if code = ''ACCESS_DENIED'' then AccessDenied asset_id msg
       else StoragedProtocol (''T04 stat error ['' @ code @ '']: '' @ msg))
   | None \<Rightarrow> StoragedProtocol ''stat response deserialization: '')"

definition stat_asset :: "to_vec \<Rightarrow> from_slice \<Rightarrow> uds \<Rightarrow> storaged_client \<Rightarrow> string \<Rightarrow> string \<Rightarrow> string \<Rightarrow> storaged_error + asset_stat_response" where
  "stat_asset to_vec from_slice uds c asset_id tenant jwt =
     and_then (storaged_exchange uds c (to_vec (asset_stat_request asset_id tenant jwt))) (\<lambda>s.
     and_then (read_document StoragedIo StoragedProtocol 65536 ''invalid stat response length: '' s) (\<lambda>(resp, _).
     ok_or (stat_error from_slice asset_id resp) (Option.bind (from_slice resp) de_stat)))"

section \<open>The daemon\<close>

text \<open>
  What the daemon documents: it holds assets, decides per asset, tenant and principal who may read, and
  answers a read of a range with a header and the bytes of that range, with \<open>RANGE_ERROR\<close> when the
  range leaves the asset and with \<open>ACCESS_DENIED\<close> when the principal may not read.
\<close>

record t04 =
  t04_asset :: "string \<Rightarrow> bytes option"
  t04_allows :: "string \<Rightarrow> string \<Rightarrow> string \<Rightarrow> bool"
  t04_content_type :: "string \<Rightarrow> string"
  t04_format_version :: "string \<Rightarrow> string"

definition readable :: "t04 \<Rightarrow> string \<Rightarrow> string \<Rightarrow> string \<Rightarrow> bytes option" where
  "readable T asset_id tenant jwt = (if t04_allows T asset_id tenant jwt then t04_asset T asset_id else None)"

definition error_doc :: "string \<Rightarrow> string \<Rightarrow> json" where
  "error_doc msg ec = JObj [(''error'', JStr msg), (''error_code'', JStr ec)]"

definition count_doc :: "nat \<Rightarrow> json" where
  "count_doc n = JObj [(''byte_count'', JInt (int n))]"

definition stat_doc :: "nat \<Rightarrow> string \<Rightarrow> string \<Rightarrow> json" where
  "stat_doc n ctype version = JObj [(''size'', JInt (int n)), (''content_type'', JStr ctype), (''format_version'', JStr version)]"

definition read_reply :: "to_vec \<Rightarrow> t04 \<Rightarrow> string \<Rightarrow> 64 word \<Rightarrow> 64 word \<Rightarrow> string \<Rightarrow> string \<Rightarrow> bytes" where
  "read_reply to_vec T asset_id off len tenant jwt = (case readable T asset_id tenant jwt of
     None \<Rightarrow> frame (to_vec (error_doc ''denied'' ''ACCESS_DENIED''))
   | Some data \<Rightarrow> if unat off + unat len \<le> length data then frame (to_vec (count_doc (unat len))) @ take (unat len) (drop (unat off) data)
       else frame (to_vec (error_doc ''range'' ''RANGE_ERROR'')))"

definition stat_reply :: "to_vec \<Rightarrow> t04 \<Rightarrow> string \<Rightarrow> string \<Rightarrow> string \<Rightarrow> bytes" where
  "stat_reply to_vec T asset_id tenant jwt = (case readable T asset_id tenant jwt of
     None \<Rightarrow> frame (to_vec (error_doc ''denied'' ''ACCESS_DENIED''))
   | Some data \<Rightarrow> frame (to_vec (stat_doc (length data) (t04_content_type T asset_id) (t04_format_version T asset_id))))"

text \<open>A socket behind which the daemon serves, with documents that fit the limits and assets below 2^63 bytes.\<close>

definition serves :: "to_vec \<Rightarrow> uds \<Rightarrow> string \<Rightarrow> t04 \<Rightarrow> bool" where
  "serves to_vec uds path T \<longleftrightarrow>
     (\<forall>a off len t j. uds path (frame (to_vec (byte_read_request a off len t j))) = UdsStream (read_reply to_vec T a off len t j))
     \<and> (\<forall>a t j. uds path (frame (to_vec (asset_stat_request a t j))) = UdsStream (stat_reply to_vec T a t j))
     \<and> (\<forall>n < 2 ^ 64. length (to_vec (count_doc n)) \<le> 65536)
     \<and> length (to_vec (error_doc ''denied'' ''ACCESS_DENIED'')) \<le> 65536 \<and> length (to_vec (error_doc ''range'' ''RANGE_ERROR'')) \<le> 65536
     \<and> (\<forall>a data. t04_asset T a = Some data \<longrightarrow> length data < 2 ^ 63
          \<and> length (to_vec (stat_doc (length data) (t04_content_type T a) (t04_format_version T a))) \<le> 65536)"

lemma de_docs:
  "de_header (count_doc n) = (if n < 2 ^ 64 then Some \<lparr>hd_error = None, hd_error_code = None, hd_byte_count = Some n\<rparr> else None)"
  "de_header (error_doc msg ec) = Some \<lparr>hd_error = Some msg, hd_error_code = Some ec, hd_byte_count = None\<rparr>"
  "de_stat (error_doc msg ec) = None" "value_str (error_doc msg ec) ''error'' = Some msg" "value_str (error_doc msg ec) ''error_code'' = Some ec"
  "n < 2 ^ 64 \<Longrightarrow> de_stat (stat_doc n c v) = Some \<lparr>stat_size = n, stat_content_type = c, stat_format_version = v\<rparr>"
  by (auto simp: de_header_def count_doc_def error_doc_def stat_doc_def de_stat_def struct_fields_def defaulted_def required_def de_option_def
    de_uint_def value_str_def)

lemma docs_ok: "n < 2 ^ 64 \<Longrightarrow> json_ok (count_doc n)" "json_ok (error_doc msg ec)" "n < 2 ^ 64 \<Longrightarrow> json_ok (stat_doc n c v)"
  by (auto simp: count_doc_def error_doc_def stat_doc_def)

lemma docs_floats [simp]: "map_floats f (count_doc n) = count_doc n" "map_floats f (error_doc msg ec) = error_doc msg ec"
  "map_floats f (stat_doc n c v) = stat_doc n c v"
  by (simp_all add: count_doc_def error_doc_def stat_doc_def)

lemma docs_reread:
  assumes "serde_json_spec to_vec from_slice rr"
  shows "n < 2 ^ 64 \<Longrightarrow> to_vec (count_doc n) \<noteq> [] \<and> from_slice (to_vec (count_doc n)) = Some (count_doc n)"
    "to_vec (error_doc msg ec) \<noteq> [] \<and> from_slice (to_vec (error_doc msg ec)) = Some (error_doc msg ec)"
    "n < 2 ^ 64 \<Longrightarrow> to_vec (stat_doc n c v) \<noteq> [] \<and> from_slice (to_vec (stat_doc n c v)) = Some (stat_doc n c v)"
  using assms docs_ok unfolding serde_json_spec_def by fastforce+

text \<open>What a read of a range must give.\<close>

definition slice_of :: "t04 \<Rightarrow> string \<Rightarrow> 64 word \<Rightarrow> 64 word \<Rightarrow> string \<Rightarrow> string \<Rightarrow> storaged_error + bytes" where
  "slice_of T asset_id off len tenant jwt = (case readable T asset_id tenant jwt of
     None \<Rightarrow> Inl (AccessDenied asset_id ''denied'')
   | Some data \<Rightarrow> if unat off + unat len \<le> length data then Inr (take (unat len) (drop (unat off) data))
       else Inl (RangeError asset_id (unat off) (unat len)))"

lemma readable_asset: "readable T a t j = Some data \<Longrightarrow> t04_asset T a = Some data"
  by (simp add: readable_def split: if_splits)

lemma read_bytes_slice:
  assumes "serde_json_spec to_vec from_slice rr" "serves to_vec uds (sc_socket_path c) T"
  shows "read_bytes to_vec from_slice uds c a off len t j = Some (slice_of T a off len t j)"
proof -
  have len: "unat len < 2 ^ 64" by (rule less_le_trans [OF unsigned_less]) simp
  have ex: "storaged_exchange uds c (to_vec (byte_read_request a off len t j)) = Inr (read_reply to_vec T a off len t j)"
    using assms(2) by (simp add: storaged_exchange_def serves_def)
  have fits: "length (to_vec (count_doc (unat len))) \<le> 4 * 1024 * 1024" "length (to_vec (error_doc ''denied'' ''ACCESS_DENIED'')) \<le> 4 * 1024 * 1024"
    "length (to_vec (error_doc ''range'' ''RANGE_ERROR'')) \<le> 4 * 1024 * 1024"
    using assms(2) len unfolding serves_def by (fastforce intro: order.trans)+
  note doc = docs_reread [OF assms(1)]
  show ?thesis
  proof (cases "readable T a t j")
    case None
    then show ?thesis using doc(2) [of "''denied''" "''ACCESS_DENIED''"] fits(2) read_document_frame [of _ "4 * 1024 * 1024" StoragedIo StoragedProtocol _ "[]"]
      by (simp add: read_bytes_def ex read_reply_def slice_of_def de_docs read_error_def)
  next
    case (Some data)
    show ?thesis
    proof (cases "unat off + unat len \<le> length data")
      case True
      have small: "unat len < 2 ^ 63" using readable_asset [OF Some] assms(2) True by (fastforce simp: serves_def)
      then show ?thesis using Some True doc(1) [OF len] fits(1) len read_document_frame [of _ "4 * 1024 * 1024" StoragedIo StoragedProtocol]
        by (simp add: read_bytes_def ex read_reply_def slice_of_def de_docs read_payload_def read_exact_def)
    next
      case False
      then show ?thesis using Some doc(2) [of "''range''" "''RANGE_ERROR''"] fits(3) read_document_frame [of _ "4 * 1024 * 1024" StoragedIo StoragedProtocol _ "[]"]
        by (simp add: read_bytes_def ex read_reply_def slice_of_def de_docs read_error_def)
    qed
  qed
qed

lemma stat_asset_size:
  assumes "serde_json_spec to_vec from_slice rr" "serves to_vec uds (sc_socket_path c) T"
  shows "stat_asset to_vec from_slice uds c a t j = (case readable T a t j of
     None \<Rightarrow> Inl (AccessDenied a ''denied'')
   | Some data \<Rightarrow> Inr \<lparr>stat_size = length data, stat_content_type = t04_content_type T a, stat_format_version = t04_format_version T a\<rparr>)"
proof -
  have ex: "storaged_exchange uds c (to_vec (asset_stat_request a t j)) = Inr (stat_reply to_vec T a t j)"
    using assms(2) by (simp add: storaged_exchange_def serves_def)
  note doc = docs_reread [OF assms(1)]
  show ?thesis
  proof (cases "readable T a t j")
    case None
    have "length (to_vec (error_doc ''denied'' ''ACCESS_DENIED'')) \<le> 65536" using assms(2) by (simp add: serves_def)
    then show ?thesis using None doc(2) [of "''denied''" "''ACCESS_DENIED''"] read_document_frame [of _ 65536 StoragedIo StoragedProtocol _ "[]"]
      by (simp add: stat_asset_def ex stat_reply_def de_docs stat_error_def)
  next
    case (Some data)
    have "length data < 2 ^ 63" and fit: "length (to_vec (stat_doc (length data) (t04_content_type T a) (t04_format_version T a))) \<le> 65536"
      using readable_asset [OF Some] assms(2) by (auto simp: serves_def)
    then have "length data < 2 ^ 64" by simp
    then show ?thesis using Some doc(3) [of "length data"] fit read_document_frame [of _ 65536 StoragedIo StoragedProtocol _ "[]"]
      by (simp add: stat_asset_def ex stat_reply_def de_docs)
  qed
qed

end
