(* ===== verification/Lance_Table.thy ===== *)
theory Lance_Table
  imports Storaged_Client Arrow_Model
begin

text \<open>
  \<open>src/src/lance_table.rs\<close>: the read-only object store whose reads go to the storage daemon, and the
  table provider over a Lance dataset. The \<open>lance\<close> crate, the URL parser and the in-memory table of
  DataFusion are parameters.
\<close>

section \<open>The object store\<close>

datatype lance_table_error =
    LtStoraged storaged_error
  | LanceOpen string
  | NotLance string string

datatype object_error = NotSupported string | ObjectGeneric storaged_error

record storaged_object_store =
  os_client :: storaged_client
  os_asset_id :: string
  os_tenant_id :: string
  os_principal_jwt :: string
  os_size :: "64 word"

text \<open>The libraries a store and a provider call, and the wall clock.\<close>

record io_env =
  io_to_vec :: to_vec
  io_from_slice :: from_slice
  io_uds :: uds

definition new_object_store :: "io_env \<Rightarrow> string \<Rightarrow> string \<Rightarrow> string \<Rightarrow> string \<Rightarrow> lance_table_error + storaged_object_store" where
  "new_object_store E asset_id tenant jwt path = (let client = new_storaged_client path in
     and_then (map_err LtStoraged (stat_asset (io_to_vec E) (io_from_slice E) (io_uds E) client asset_id tenant jwt)) (\<lambda>stat.
       Inr \<lparr>os_client = client, os_asset_id = asset_id, os_tenant_id = tenant, os_principal_jwt = jwt, os_size = word_of_nat (stat_size stat)\<rparr>))"

definition store_display :: "storaged_object_store \<Rightarrow> string" where
  "store_display st = ''StoragedObjectStore(asset='' @ os_asset_id st @ '')''"

record object_meta =
  om_location :: string
  om_last_modified :: nat
  om_size :: nat

record get_result =
  gr_payload :: bytes
  gr_meta :: object_meta
  gr_range :: "nat \<times> nat"

datatype get_range = Bounded "64 word" "64 word" | Offset "64 word" | Suffix "64 word"

definition store_read :: "io_env \<Rightarrow> storaged_object_store \<Rightarrow> 64 word \<Rightarrow> 64 word \<Rightarrow> (object_error + bytes) option" where
  "store_read E st off len = map_option (map_err ObjectGeneric)
     (read_bytes (io_to_vec E) (io_from_slice E) (io_uds E) (os_client st) (os_asset_id st) off len (os_tenant_id st) (os_principal_jwt st))"

definition read_only :: "object_error + 'a" where
  "read_only = Inl (NotSupported ''StoragedObjectStore is read-only'')"

definition store_put :: "string \<Rightarrow> bytes \<Rightarrow> object_error + 'a" where
  "store_put location payload = read_only"

definition store_put_multipart :: "string \<Rightarrow> object_error + 'a" where
  "store_put_multipart location = read_only"

definition store_get :: "io_env \<Rightarrow> nat \<Rightarrow> storaged_object_store \<Rightarrow> string \<Rightarrow> (object_error + get_result) option" where
  "store_get E now st location = map_option (\<lambda>r. and_then r (\<lambda>bytes.
     Inr \<lparr>gr_payload = bytes, gr_meta = \<lparr>om_location = location, om_last_modified = now, om_size = length bytes\<rparr>, gr_range = (0, unat (os_size st))\<rparr>))
     (store_read E st 0 (os_size st))"

text \<open>\<open>saturating_sub\<close>; and \<open>end - start\<close>, which panics in a checked build when the range is reversed.\<close>

definition saturating_sub :: "64 word \<Rightarrow> 64 word \<Rightarrow> 64 word" where
  "saturating_sub a b = (if b \<le> a then a - b else 0)"

definition checked_sub :: "64 word \<Rightarrow> 64 word \<Rightarrow> 64 word option" where
  "checked_sub a b = (if b \<le> a then Some (a - b) else None)"

definition range_of_request :: "64 word \<Rightarrow> get_range option \<Rightarrow> (64 word \<times> 64 word) option" where
  "range_of_request sz rng = (case rng of
     None \<Rightarrow> Some (0, sz)
   | Some (Bounded a b) \<Rightarrow> map_option (Pair a) (checked_sub b a)
   | Some (Offset off) \<Rightarrow> Some (off, saturating_sub sz off)
   | Some (Suffix s) \<Rightarrow> Some (saturating_sub sz s, s))"

definition store_get_opts :: "io_env \<Rightarrow> nat \<Rightarrow> storaged_object_store \<Rightarrow> string \<Rightarrow> get_range option \<Rightarrow> (object_error + get_result) option" where
  "store_get_opts E now st location rng = Option.bind (range_of_request (os_size st) rng) (\<lambda>(off, len).
     map_option (\<lambda>r. and_then r (\<lambda>bytes.
       Inr \<lparr>gr_payload = bytes, gr_meta = \<lparr>om_location = location, om_last_modified = now, om_size = unat (os_size st)\<rparr>, gr_range = (unat off, unat (off + len))\<rparr>))
       (store_read E st off len))"

definition store_get_range :: "io_env \<Rightarrow> storaged_object_store \<Rightarrow> string \<Rightarrow> 64 word \<Rightarrow> 64 word \<Rightarrow> (object_error + bytes) option" where
  "store_get_range E st location a b = Option.bind (checked_sub b a) (store_read E st a)"

definition store_head :: "nat \<Rightarrow> storaged_object_store \<Rightarrow> string \<Rightarrow> object_error + object_meta" where
  "store_head now st location = Inr \<lparr>om_location = location, om_last_modified = now, om_size = unat (os_size st)\<rparr>"

definition store_delete :: "string \<Rightarrow> object_error + unit" where
  "store_delete location = read_only"

definition store_list :: "string option \<Rightarrow> object_meta list" where
  "store_list pre = []"

definition store_list_with_delimiter :: "string option \<Rightarrow> object_error + string list \<times> object_meta list" where
  "store_list_with_delimiter pre = Inr ([], [])"

definition store_copy :: "string \<Rightarrow> string \<Rightarrow> object_error + unit" where
  "store_copy source target = read_only"

definition store_rename :: "string \<Rightarrow> string \<Rightarrow> object_error + unit" where
  "store_rename source target = read_only"

definition store_copy_if_not_exists :: "string \<Rightarrow> string \<Rightarrow> object_error + unit" where
  "store_copy_if_not_exists source target = read_only"

section \<open>The table provider\<close>

text \<open>
  A dataset: its schema in Arrow's form, and a scan of some columns with an optional limit. Opening one
  sees the URL and default read options only.
\<close>

record lance_dataset =
  ds_schema :: "string + schema"
  ds_scan :: "string list option \<Rightarrow> int option \<Rightarrow> df_error + record_batch list"

record lance_ops =
  url_parse :: "string \<Rightarrow> string + unit"
  dataset_open :: "string \<Rightarrow> string + lance_dataset"

record lance_table_provider =
  lt_dataset :: lance_dataset
  lt_schema :: schema

definition open_lance_table :: "io_env \<Rightarrow> lance_ops \<Rightarrow> string \<Rightarrow> string \<Rightarrow> string \<Rightarrow> string \<Rightarrow> lance_table_error + lance_table_provider" where
  "open_lance_table E L asset_id tenant jwt path =
     and_then (new_object_store E asset_id tenant jwt path) (\<lambda>store.
     (let url = ''griotfs://'' @ asset_id in
     and_then (map_err (\<lambda>e. LanceOpen (''URL parse error for '' @ quoted url @ '': '' @ e)) (url_parse L url)) (\<lambda>_.
     and_then (map_err (\<lambda>e. LanceOpen (''lance::Dataset::open: '' @ e)) (dataset_open L url)) (\<lambda>dataset.
     and_then (map_err (\<lambda>e. LanceOpen (''lance schema to arrow: '' @ e)) (ds_schema dataset)) (\<lambda>arrow_schema.
       Inr \<lparr>lt_dataset = dataset, lt_schema = arrow_schema\<rparr>)))))"

text \<open>DataFusion's \<open>MemTable\<close>: making one from partitions, and its scan.\<close>

record ('m, 'x, 'p) mem_ops =
  mem_try_new :: "schema \<Rightarrow> record_batch list list \<Rightarrow> df_error + 'm"
  mem_scan :: "'m \<Rightarrow> nat list option \<Rightarrow> 'x list \<Rightarrow> nat option \<Rightarrow> df_error + 'p"

text \<open>\<open>n as i64\<close>.\<close>

definition as_i64 :: "64 word \<Rightarrow> int" where
  "as_i64 n = sint n"

text \<open>\<open>schema.field(i)\<close> panics for an index out of range (\<open>None\<close>).\<close>

definition projected_names :: "schema \<Rightarrow> nat list \<Rightarrow> string list option" where
  "projected_names s proj = (if list_all (\<lambda>i. i < length s) proj then Some (map (\<lambda>i. field_name (s ! i)) proj) else None)"

definition lance_scan :: "('m, 'x, 'p) mem_ops \<Rightarrow> lance_table_provider \<Rightarrow> nat list option \<Rightarrow> 'x list \<Rightarrow> 64 word option \<Rightarrow> (df_error + 'p) option" where
  "lance_scan M t projection filters limit =
     map_option (\<lambda>names.
       and_then (ds_scan (lt_dataset t) names (map_option as_i64 limit)) (\<lambda>batches.
       and_then (mem_try_new M (lt_schema t) [batches]) (\<lambda>mem_table.
         mem_scan M mem_table projection filters (map_option unat limit))))
       (case projection of None \<Rightarrow> Some None | Some proj \<Rightarrow> map_option Some (projected_names (lt_schema t) proj))"

section \<open>What the store serves\<close>

abbreviation io_spec :: "io_env \<Rightarrow> string \<Rightarrow> t04 \<Rightarrow> (f64 \<Rightarrow> f64) \<Rightarrow> bool" where
  "io_spec E path T rr \<equiv> serde_json_spec (io_to_vec E) (io_from_slice E) rr \<and> serves (io_to_vec E) (io_uds E) path T"

lemma new_object_store_data:
  assumes "io_spec E path T rr" "new_object_store E asset_id tenant jwt path = Inr st"
  obtains data where "readable T asset_id tenant jwt = Some data" "unat (os_size st) = length data" "length data < 2 ^ 63"
    "\<forall>off len. store_read E st off len = Some (if unat off + unat len \<le> length data then Inr (take (unat len) (drop (unat off) data))
       else Inl (ObjectGeneric (RangeError asset_id (unat off) (unat len))))"
proof -
  let ?c = "new_storaged_client path"
  have sp: "serde_json_spec (io_to_vec E) (io_from_slice E) rr" "serves (io_to_vec E) (io_uds E) (sc_socket_path ?c) T"
    using assms(1) by (simp_all add: new_storaged_client_def)
  obtain data where data: "readable T asset_id tenant jwt = Some data" "st = \<lparr>os_client = ?c, os_asset_id = asset_id, os_tenant_id = tenant,
       os_principal_jwt = jwt, os_size = word_of_nat (length data)\<rparr>"
    using assms(2) by (auto simp: new_object_store_def Let_def and_then_eq_Inr map_err_eq_Inr stat_asset_size [OF sp] split: option.splits)
  have l: "length data < 2 ^ 63" using readable_asset [OF data(1)] sp(2) by (auto simp: serves_def)
  then have "length data < 2 ^ LENGTH(64)" by simp
  then have "unat (os_size st) = length data" by (simp add: data(2) unsigned_of_nat take_bit_nat_eq_self)
  moreover have "store_read E st off len = Some (if unat off + unat len \<le> length data then Inr (take (unat len) (drop (unat off) data))
       else Inl (ObjectGeneric (RangeError asset_id (unat off) (unat len))))" for off len
    by (simp add: store_read_def data(2) read_bytes_slice [OF sp] slice_of_def data(1))
  ultimately show thesis using that [OF data(1)] l by blast
qed

text \<open>What a request for a part of an object of \<open>n\<close> bytes asks for, as offset and length.\<close>

fun requested :: "nat \<Rightarrow> get_range option \<Rightarrow> nat \<times> nat" where
  "requested n None = (0, n)"
| "requested n (Some (Bounded a b)) = (unat a, unat b - unat a)"
| "requested n (Some (Offset off)) = (unat off, n - unat off)"
| "requested n (Some (Suffix s)) = (n - unat s, unat s)"

fun reversed :: "get_range option \<Rightarrow> bool" where
  "reversed (Some (Bounded a b)) = (unat b < unat a)"
| "reversed _ = False"

lemma range_of_request_exact:
  assumes "unat sz = n"
  shows "\<not> reversed rng \<Longrightarrow> \<exists>off len. range_of_request sz rng = Some (off, len) \<and> (unat off, unat len) = requested n rng"
    "reversed rng \<Longrightarrow> range_of_request sz rng = None"
  using assms
  by (cases rng; (cases "the rng")?; auto simp: range_of_request_def checked_sub_def saturating_sub_def unat_sub word_le_nat_alt)+


section \<open>What the provider serves\<close>

text \<open>
  The dataset is not read through the store. Two callers for whom an asset can be stat'ed get the
  same provider for it, whatever their tenants, tokens and daemons are: the store made for a caller is
  not passed on to the library that opens the dataset.
\<close>

theorem open_ignores_store:
  assumes "open_lance_table E L asset_id tenant jwt path = Inr t" "new_object_store E' asset_id tenant' jwt' path' = Inr st"
  shows "open_lance_table E' L asset_id tenant' jwt' path' = Inr t"
  using assms by (auto simp: open_lance_table_def Let_def and_then_eq_Inr)

text \<open>What is relied on: a scan of some columns gives batches of these columns, and an in-memory table
  takes only batches of its schema.\<close>

definition scan_spec :: "lance_dataset \<Rightarrow> bool" where
  "scan_spec d \<longleftrightarrow> (\<forall>names lim bs. ds_scan d (Some names) lim = Inr bs \<longrightarrow> (\<forall>b\<in>set bs. map field_name (batch_schema b) = names))"

definition mem_spec :: "('m, 'x, 'p) mem_ops \<Rightarrow> bool" where
  "mem_spec M \<longleftrightarrow> (\<forall>s bs m. mem_try_new M s [bs] = Inr m \<longrightarrow> (\<forall>b\<in>set bs. length (batch_schema b) = length s))"

text \<open>
  A projected scan of a Lance table returns no data. When fewer (or more) columns are asked for than
  the table has, the scan fails unless the dataset yields no batch: the projected batches do not fit the
  table's full schema.
\<close>

theorem projected_scan_empty:
  assumes "scan_spec (lt_dataset t)" "mem_spec M" "length proj \<noteq> length (lt_schema t)"
    and "lance_scan M t (Some proj) filters limit = Some (Inr plan)"
  shows "ds_scan (lt_dataset t) (projected_names (lt_schema t) proj) (map_option as_i64 limit) = Inr []"
proof -
  obtain names where n: "projected_names (lt_schema t) proj = Some names" "length names = length proj"
    using assms(4) by (auto simp: lance_scan_def projected_names_def split: if_splits)
  obtain bs m where bs: "ds_scan (lt_dataset t) (Some names) (map_option as_i64 limit) = Inr bs" "mem_try_new M (lt_schema t) [bs] = Inr m"
    using assms(4) n(1) by (auto simp: lance_scan_def and_then_eq_Inr)
  have "bs = []"
  proof (rule ccontr)
    assume "bs \<noteq> []"
    then obtain b where b: "b \<in> set bs" by (cases bs) auto
    then have "map field_name (batch_schema b) = names" using assms(1) bs(1) by (auto simp: scan_spec_def)
    then have "length (batch_schema b) = length proj" using n(2) by (metis length_map)
    moreover have "length (batch_schema b) = length (lt_schema t)" using assms(2) bs(2) b unfolding mem_spec_def by blast
    ultimately show False using assms(3) by simp
  qed
  then show ?thesis using n(1) bs(1) by simp
qed

section \<open>A daemon to run against\<close>

text \<open>A printer with a short text for the documents the daemon sends, and the unary one for the rest.\<close>

definition wire_docs :: "json list" where
  "wire_docs = [error_doc ''denied'' ''ACCESS_DENIED'', error_doc ''range'' ''RANGE_ERROR'', stat_doc 5 ''application/x-lance'' ''2'']"

fun index_of :: "'a \<Rightarrow> 'a list \<Rightarrow> nat" where
  "index_of x [] = 0"
| "index_of x (y # ys) = (if x = y then 0 else Suc (index_of x ys))"

definition count_value :: "json \<Rightarrow> nat option" where
  "count_value v = (case v of JObj [(k, JInt i)] \<Rightarrow> if k = ''byte_count'' \<and> 0 \<le> i \<and> i < 2 ^ 64 then Some (nat i) else None | _ \<Rightarrow> None)"

definition wire_to_vec :: to_vec where
  "wire_to_vec v = (case count_value v of
     Some n \<Rightarrow> CHR ''c'' # le_bytes 8 n
   | None \<Rightarrow> if v \<in> set wire_docs then CHR ''d'' # replicate (index_of v wire_docs) (CHR ''d'') else CHR ''u'' # unary_to_vec v)"

definition wire_from_slice :: from_slice where
  "wire_from_slice bs = (case bs of [] \<Rightarrow> None
     | c # r \<Rightarrow> if c = CHR ''c'' then Some (count_doc (of_le r)) else if c = CHR ''d'' then Some (wire_docs ! length r) else unary_from_slice r)"

lemma index_of: "x \<in> set xs \<Longrightarrow> index_of x xs < length xs \<and> xs ! index_of x xs = x"
  by (induction xs) auto

lemma count_value_doc: "count_value v = Some n \<longleftrightarrow> v = count_doc n \<and> n < 2 ^ 64"
proof
  assume "count_value v = Some n"
  then show "v = count_doc n \<and> n < 2 ^ 64"
    by (auto simp: count_value_def count_doc_def split: json.splits list.splits prod.splits if_splits)
next
  assume "v = count_doc n \<and> n < 2 ^ 64"
  then show "count_value v = Some n" by (simp add: count_value_def count_doc_def)
qed

lemma wire_reread: "wire_from_slice (wire_to_vec v) = Some v"
proof (cases "count_value v")
  case None
  then show ?thesis using index_of [of v wire_docs] by (simp add: wire_to_vec_def wire_from_slice_def)
next
  case (Some n)
  then have "v = count_doc n" "n mod 256 ^ 8 = n" by (simp_all add: count_value_doc)
  then show ?thesis using Some by (simp add: wire_to_vec_def wire_from_slice_def of_le_bytes)
qed

lemma serde_json_spec_wire: "serde_json_spec wire_to_vec wire_from_slice (\<lambda>x. x)"
  by (simp add: serde_json_spec_def wire_reread) (simp add: wire_to_vec_def split: option.splits)

definition demo_t04 :: t04 where
  "demo_t04 = \<lparr>t04_asset = (\<lambda>a. if a = ''a1'' then Some ''hello'' else None), t04_allows = (\<lambda>_ _ jwt. jwt = ''jwt''),
     t04_content_type = (\<lambda>_. ''application/x-lance''), t04_format_version = (\<lambda>_. ''2'')\<rparr>"

definition member_str :: "(string \<times> json) list \<Rightarrow> string \<Rightarrow> string" where
  "member_str kvs k = (case map_of kvs k of Some (JStr s) \<Rightarrow> s | _ \<Rightarrow> [])"

definition member_u64 :: "(string \<times> json) list \<Rightarrow> string \<Rightarrow> 64 word" where
  "member_u64 kvs k = (case map_of kvs k of Some (JInt i) \<Rightarrow> word_of_int i | _ \<Rightarrow> 0)"

definition demo_uds :: uds where
  "demo_uds path request = (case wire_from_slice (drop 4 request) of
     Some (JObj kvs) \<Rightarrow> UdsStream (if member_str kvs ''opcode'' = ''0x30''
       then read_reply wire_to_vec demo_t04 (member_str kvs ''asset_id'') (member_u64 kvs ''offset'') (member_u64 kvs ''length'')
         (member_str kvs ''tenant_id'') (member_str kvs ''principal_jwt'')
       else stat_reply wire_to_vec demo_t04 (member_str kvs ''asset_id'') (member_str kvs ''tenant_id'') (member_str kvs ''principal_jwt''))
   | _ \<Rightarrow> UdsUnreachable)"

definition demo_io :: io_env where
  "demo_io = \<lparr>io_to_vec = wire_to_vec, io_from_slice = wire_from_slice, io_uds = demo_uds\<rparr>"

lemma drop_frame [simp]: "drop 4 (frame body) = body"
  by (simp add: frame_def)

lemma wire_short: "n < 2 ^ 64 \<Longrightarrow> length (wire_to_vec (count_doc n)) = 9" "d \<in> set wire_docs \<Longrightarrow> length (wire_to_vec d) \<le> 9"
proof -
  assume "n < 2 ^ 64"
  then have "count_value (count_doc n) = Some n" by (simp add: count_value_doc)
  then show "length (wire_to_vec (count_doc n)) = 9" by (simp add: wire_to_vec_def)
next
  assume "d \<in> set wire_docs"
  then show "length (wire_to_vec d) \<le> 9" using index_of [of d wire_docs]
    by (auto simp: wire_to_vec_def wire_docs_def split: option.splits)
qed

lemma demo_serves: "serves wire_to_vec demo_uds path demo_t04"
proof -
  have "length (wire_to_vec (error_doc ''denied'' ''ACCESS_DENIED'')) \<le> 9" "length (wire_to_vec (error_doc ''range'' ''RANGE_ERROR'')) \<le> 9"
    "length (wire_to_vec (stat_doc 5 ''application/x-lance'' ''2'')) \<le> 9"
    by (rule wire_short(2), simp add: wire_docs_def)+
  moreover have "demo_uds path (frame (wire_to_vec (byte_read_request a off len t j))) = UdsStream (read_reply wire_to_vec demo_t04 a off len t j)" for a off len t j
    by (simp add: demo_uds_def wire_reread) (simp add: byte_read_request_def member_str_def member_u64_def)
  moreover have "demo_uds path (frame (wire_to_vec (asset_stat_request a t j))) = UdsStream (stat_reply wire_to_vec demo_t04 a t j)" for a t j
    by (simp add: demo_uds_def wire_reread) (simp add: asset_stat_request_def member_str_def)
  moreover have "data = ''hello''" if "t04_asset demo_t04 a = Some data" for a data
    using that by (simp add: demo_t04_def split: if_splits)
  moreover have "length ''hello'' = 5" "t04_content_type demo_t04 a = ''application/x-lance''" "t04_format_version demo_t04 a = ''2''" for a
    by (simp_all add: demo_t04_def)
  moreover have "length (wire_to_vec (count_doc n)) \<le> 65536" if "n < 2 ^ 64" for n using wire_short(1) [OF that] by simp
  ultimately show ?thesis unfolding serves_def by (intro conjI allI impI) (force simp del: list.size)+
qed

lemma demo_io_spec: "io_spec demo_io path demo_t04 (\<lambda>x. x)"
  using serde_json_spec_wire demo_serves by (simp add: demo_io_def)

definition demo_store :: storaged_object_store where
  "demo_store = \<lparr>os_client = \<lparr>sc_socket_path = ''/run/t04''\<rparr>, os_asset_id = ''a1'', os_tenant_id = ''globex'', os_principal_jwt = ''jwt'', os_size = 5\<rparr>"

lemma demo_store_opened: "new_object_store demo_io ''a1'' ''globex'' ''jwt'' ''/run/t04'' = Inr demo_store"
proof -
  have sp: "serde_json_spec wire_to_vec wire_from_slice (\<lambda>x. x)" "serves wire_to_vec demo_uds (sc_socket_path \<lparr>sc_socket_path = ''/run/t04''\<rparr>) demo_t04"
    using serde_json_spec_wire demo_serves by auto
  show ?thesis
    by (simp add: new_object_store_def demo_io_def new_storaged_client_def stat_asset_size [OF sp] readable_def demo_store_def Let_def) (simp add: demo_t04_def)
qed


definition demo_schema :: schema where
  "demo_schema = [\<lparr>field_name = ''x'', field_type = Int64, nullable = True\<rparr>, \<lparr>field_name = ''y'', field_type = Int64, nullable = True\<rparr>]"

text \<open>A dataset that has no rows, and one that has.\<close>

definition demo_dataset :: "bool \<Rightarrow> lance_dataset" where
  "demo_dataset rows = \<lparr>ds_schema = Inr demo_schema, ds_scan = (\<lambda>names lim. Inr (if rows then [\<lparr>batch_schema =
     (case names of None \<Rightarrow> demo_schema | Some ns \<Rightarrow> map (\<lambda>n. \<lparr>field_name = n, field_type = Int64, nullable = True\<rparr>) ns), batch_columns = []\<rparr>] else []))\<rparr>"

definition demo_lance :: lance_ops where
  "demo_lance = \<lparr>url_parse = (\<lambda>_. Inr ()), dataset_open = (\<lambda>_. Inr (demo_dataset True))\<rparr>"

definition demo_mem :: "(nat, unit, nat) mem_ops" where
  "demo_mem = \<lparr>mem_try_new = (\<lambda>s ps. if list_all (list_all (\<lambda>b. length (batch_schema b) = length s)) ps then Inr (length s) else Inl (DfPlan ''mismatch'')),
     mem_scan = (\<lambda>m _ _ _. Inr m)\<rparr>"

theorem open_ignores_store_witness:
  "open_lance_table demo_io demo_lance ''a1'' ''acme'' ''jwt'' ''/run/other'' = Inr \<lparr>lt_dataset = demo_dataset True, lt_schema = demo_schema\<rparr>"
proof -
  have "open_lance_table demo_io demo_lance ''a1'' ''globex'' ''jwt'' ''/run/t04'' = Inr \<lparr>lt_dataset = demo_dataset True, lt_schema = demo_schema\<rparr>"
    by (simp add: open_lance_table_def demo_store_opened demo_lance_def demo_dataset_def Let_def)
  moreover have "is_ok (new_object_store demo_io ''a1'' ''acme'' ''jwt'' ''/run/other'')"
  proof -
    have sp: "serde_json_spec wire_to_vec wire_from_slice (\<lambda>x. x)" "serves wire_to_vec demo_uds (sc_socket_path \<lparr>sc_socket_path = ''/run/other''\<rparr>) demo_t04"
      using serde_json_spec_wire demo_serves by auto
    show ?thesis by (simp add: new_object_store_def demo_io_def new_storaged_client_def stat_asset_size [OF sp] readable_def Let_def) (simp add: demo_t04_def)
  qed
  ultimately show ?thesis using open_ignores_store unfolding is_ok_iff by blast
qed

theorem projected_scan_empty_witness:
  "ds_scan (demo_dataset False) (Some [''y'']) None = Inr []
   \<and> lance_scan demo_mem \<lparr>lt_dataset = demo_dataset True, lt_schema = demo_schema\<rparr> (Some [1]) [] None = Some (Inl (DfPlan ''mismatch''))"
proof
  have d: "scan_spec (demo_dataset False)" by (auto simp: scan_spec_def demo_dataset_def)
  have m: "mem_spec demo_mem" by (auto simp: mem_spec_def demo_mem_def list_all_iff split: if_splits)
  have s: "lance_scan demo_mem \<lparr>lt_dataset = demo_dataset False, lt_schema = demo_schema\<rparr> (Some [1]) [] None = Some (Inr 2)"
    by (simp add: demo_dataset_def demo_mem_def demo_schema_def lance_scan_def projected_names_def)
  have "ds_scan (demo_dataset False) (projected_names demo_schema [1]) (map_option as_i64 None) = Inr []"
    using projected_scan_empty [OF _ m _ s] d by (simp add: demo_schema_def)
  then show "ds_scan (demo_dataset False) (Some [''y'']) None = Inr []"
    by (simp add: projected_names_def demo_schema_def)
qed (simp add: demo_dataset_def demo_mem_def demo_schema_def lance_scan_def projected_names_def)

end
