(* ===== verification/Lance_Registration.thy ===== *)
theory Lance_Registration
  imports Engine_Shell Lance_Table
begin

text \<open>
  Registering a Lance table with the engine shell: \<open>K04DEngine::register_lance_table\<close> (\<open>src/src/lib.rs\<close>)
  over \<open>LanceTableProvider::open\<close> (\<open>src/src/lance_table.rs\<close>), the object store and the daemon's client, with
  the messages of their errors.
\<close>

section \<open>Model\<close>

text \<open>The messages; \<open>io\<close> is the text of an I/O error.\<close>

fun storaged_message :: "string \<Rightarrow> storaged_error \<Rightarrow> string" where
  "storaged_message io (AccessDenied a why) = ''storaged access denied for asset '' @ quoted a @ '': '' @ why"
| "storaged_message io (RangeError a off len) =
     ''storaged range error for asset '' @ quoted a @ '': offset='' @ show_nat off @ '', length='' @ show_nat len"
| "storaged_message io (SocketUnreachable path) = ''storaged socket unreachable at '' @ quoted path @ '': '' @ io"
| "storaged_message io (StoragedProtocol why) = ''storaged protocol error: '' @ why"
| "storaged_message io StoragedIo = ''storaged I/O error: '' @ io"

fun lance_message :: "string \<Rightarrow> lance_table_error \<Rightarrow> string" where
  "lance_message io (LtStoraged e) = ''storaged error: '' @ storaged_message io e"
| "lance_message io (LanceOpen why) = ''lance dataset open error: '' @ why"
| "lance_message io (NotLance a ct) = ''asset '' @ quoted a @ '' is not a Lance dataset (content_type='' @ quoted ct @ '')''"

text \<open>A session whose Lance tables are opened by the provider of the repository; \<open>key\<close> names providers.\<close>

definition lance_session :: "io_env \<Rightarrow> lance_ops \<Rightarrow> string \<Rightarrow> (lance_table_provider \<Rightarrow> nat) \<Rightarrow> 'x session_ops \<Rightarrow> 'x session_ops" where
  "lance_session E L io key S = S\<lparr>lance_open := (\<lambda>asset_id tenant jwt path.
     and_then (map_err (lance_message io) (open_lance_table E L asset_id tenant jwt path)) (\<lambda>t. Inr (key t)))\<rparr>"

section \<open>What is registered\<close>

lemma open_lance_readable:
  assumes "io_spec E path T rr" "open_lance_table E L asset_id tenant jwt path = Inr t"
  shows "readable T asset_id tenant jwt \<noteq> None \<and> dataset_open L (''griotfs://'' @ asset_id) = Inr (lt_dataset t) \<and> ds_schema (lt_dataset t) = Inr (lt_schema t)"
proof -
  obtain st where st: "new_object_store E asset_id tenant jwt path = Inr st"
    and t: "dataset_open L (''griotfs://'' @ asset_id) = Inr (lt_dataset t)" "ds_schema (lt_dataset t) = Inr (lt_schema t)"
    using assms(2) by (auto simp: open_lance_table_def Let_def and_then_eq_Inr map_err_eq_Inr)
  obtain data where "readable T asset_id tenant jwt = Some data" by (rule new_object_store_data [OF assms(1) st])
  then show ?thesis using t by simp
qed

text \<open>
  Over a serving daemon a Lance table is registered only for an asset that the caller may read, under
  the provider opened for it, and the contract bundle of the engine is left alone; for an
  asset the caller may not read the registration fails, naming the asset, and nothing is registered.
\<close>

theorem register_lance_guarded:
  assumes "io_spec E (storaged_socket (ke_config e)) T rr"
    and "register_lance_table (lance_session E L io key S) name asset_id tenant jwt e = (res, e')"
  shows "ke_bundle e' = ke_bundle e
    \<and> (res = Inr () \<longrightarrow> (\<exists>t. readable T asset_id tenant jwt \<noteq> None \<and> dataset_open L (''griotfs://'' @ asset_id) = Inr (lt_dataset t)
         \<and> ds_schema (lt_dataset t) = Inr (lt_schema t)
         \<and> register_table S name (key t) (case ke_ctx e of Some x \<Rightarrow> x | None \<Rightarrow> session_new S) = (Inr (), the (ke_ctx e'))))
    \<and> (readable T asset_id tenant jwt = None \<longrightarrow>
         (\<exists>why. res = Inl (LanceRegistration asset_id why)) \<and> ke_ctx e' = Some (case ke_ctx e of Some x \<Rightarrow> x | None \<Rightarrow> session_new S))"
proof -
  define x where "x = (case ke_ctx e of Some x \<Rightarrow> x | None \<Rightarrow> session_new S)"
  define e1 where "e1 = e\<lparr>ke_ctx := Some x\<rparr>"
  have ctx: "ensure_ctx (lance_session E L io key S) e = (x, e1)"
    by (cases e) (auto simp: ensure_ctx_def lance_session_def x_def e1_def split: option.splits)
  show ?thesis
  proof (cases "open_lance_table E L asset_id tenant jwt (storaged_socket (ke_config e))")
    case (Inl why)
    then have "res = Inl (LanceRegistration asset_id (lance_message io why)) \<and> e' = e1"
      using assms(2) by (simp add: register_lance_table_def ctx) (simp add: lance_session_def e1_def)
    then show ?thesis by (simp add: e1_def x_def)
  next
    case (Inr t)
    obtain q x' where q: "register_table S name (key t) x = (q, x')" by fastforce
    have "res = map_err EngineDataFusion q" "e' = e1\<lparr>ke_ctx := Some x'\<rparr>" using assms(2) Inr q
      by (simp_all add: register_lance_table_def ctx) (simp_all add: lance_session_def e1_def)
    then show ?thesis using open_lance_readable [OF assms(1) Inr] q
      by (auto simp: e1_def x_def [symmetric] result_simps intro!: exI [of _ t])
  qed
qed

end
