(* ===== verification/T05_Client.thy ===== *)
theory T05_Client
  imports Uds_Frames
begin

text \<open>
  \<open>src/src/t05_client.rs\<close>: the client that has attestation envelopes signed by the notary over its
  socket.
\<close>

section \<open>Model\<close>

datatype t05_error =
    SigningRefused string
  | T05SocketUnreachable string
  | T05Protocol string
  | T05Io
  | T05Serialization string

definition sign_envelope_request :: "string \<Rightarrow> string \<Rightarrow> string \<Rightarrow> string \<Rightarrow> json" where
  "sign_envelope_request envelope_json engine_version tenant correlation_id = JObj [(''opcode'', JStr ''0x42''), (''envelope_json'', JStr envelope_json),
     (''engine_version'', JStr engine_version), (''tenant_id'', JStr tenant), (''correlation_id'', JStr correlation_id)]"

record sign_envelope_response =
  jws :: string
  kid :: string

definition de_sign_response :: "json \<Rightarrow> sign_envelope_response option" where
  "de_sign_response j = Option.bind (struct_fields [''jws'', ''kid''] j) (\<lambda>fs.
     Option.bind (required fs ''jws'' de_string) (\<lambda>s.
     Option.bind (required fs ''kid'' de_string) (\<lambda>k. Some \<lparr>jws = s, kid = k\<rparr>)))"

record t05_error_frame =
  ef_error :: string
  ef_error_code :: "string option"

definition de_error_frame :: "json \<Rightarrow> t05_error_frame option" where
  "de_error_frame j = Option.bind (struct_fields [''error'', ''error_code''] j) (\<lambda>fs.
     Option.bind (required fs ''error'' de_string) (\<lambda>e.
     Option.bind (defaulted fs ''error_code'' None (de_option de_string)) (\<lambda>c. Some \<lparr>ef_error = e, ef_error_code = c\<rparr>)))"

record t05_client =
  tc_socket_path :: string

definition new_t05_client :: "string \<Rightarrow> t05_client" where
  "new_t05_client path = \<lparr>tc_socket_path = path\<rparr>"

definition t05_exchange :: "uds \<Rightarrow> t05_client \<Rightarrow> bytes \<Rightarrow> t05_error + bytes" where
  "t05_exchange uds c request = (case uds (tc_socket_path c) (frame request) of
     UdsUnreachable \<Rightarrow> Inl (T05SocketUnreachable (tc_socket_path c))
   | UdsWriteFailed \<Rightarrow> Inl T05Io
   | UdsStream s \<Rightarrow> Inr s)"

text \<open>A response with a signature is one; anything else must be an error frame.\<close>

definition sign_outcome :: "from_slice \<Rightarrow> bytes \<Rightarrow> t05_error + sign_envelope_response" where
  "sign_outcome from_slice resp = (case Option.bind (from_slice resp) de_sign_response of
     Some success \<Rightarrow> if jws success \<noteq> [] then Inr success
       else and_then (ok_or (T05Protocol ''T05 response deserialization failed: '') (Option.bind (from_slice resp) de_error_frame)) (\<lambda>e. Inl (SigningRefused (ef_error e)))
   | None \<Rightarrow> and_then (ok_or (T05Protocol ''T05 response deserialization failed: '') (Option.bind (from_slice resp) de_error_frame)) (\<lambda>e. Inl (SigningRefused (ef_error e))))"

definition sign_envelope :: "to_vec \<Rightarrow> from_slice \<Rightarrow> uds \<Rightarrow> t05_client \<Rightarrow> string \<Rightarrow> string \<Rightarrow> string \<Rightarrow> string \<Rightarrow> t05_error + sign_envelope_response" where
  "sign_envelope to_vec from_slice uds c envelope_json engine_version tenant correlation_id =
     and_then (t05_exchange uds c (to_vec (sign_envelope_request envelope_json engine_version tenant correlation_id))) (\<lambda>s.
     and_then (read_document T05Io T05Protocol (1024 * 1024) ''invalid T05 response length: '' s) (\<lambda>(resp, _).
       sign_outcome from_slice resp))"

section \<open>Outcomes\<close>

text \<open>What the notary answered, when it answered a document within the limit.\<close>

definition answered :: "to_vec \<Rightarrow> from_slice \<Rightarrow> uds \<Rightarrow> t05_client \<Rightarrow> json \<Rightarrow> json \<Rightarrow> bool" where
  "answered to_vec from_slice uds c request answer \<longleftrightarrow> (\<exists>doc rest. uds (tc_socket_path c) (frame (to_vec request)) = UdsStream (frame doc @ rest)
     \<and> doc \<noteq> [] \<and> length doc \<le> 1024 * 1024 \<and> from_slice doc = Some answer)"

definition signature_of :: "json \<Rightarrow> sign_envelope_response option" where
  "signature_of j = (case de_sign_response j of Some r \<Rightarrow> if jws r \<noteq> [] then Some r else None | None \<Rightarrow> None)"

lemma sign_outcome_ok: "sign_outcome from_slice resp = Inr r \<longleftrightarrow> (\<exists>j. from_slice resp = Some j \<and> signature_of j = Some r)"
  by (auto simp: sign_outcome_def signature_of_def and_then_eq_Inr split: option.splits bind_splits if_splits)

lemma sign_outcome_refused:
  "sign_outcome from_slice resp = Inl (SigningRefused why) \<longleftrightarrow>
     (\<exists>j c. from_slice resp = Some j \<and> signature_of j = None \<and> de_error_frame j = Some \<lparr>ef_error = why, ef_error_code = c\<rparr>)"
proof -
  have e: "de_error_frame j = Some \<lparr>ef_error = why, ef_error_code = c\<rparr> \<longleftrightarrow> (\<exists>e. de_error_frame j = Some e \<and> ef_error e = why \<and> ef_error_code e = c)" for j c
    by auto
  show ?thesis unfolding e
    by (cases "from_slice resp") (auto simp: sign_outcome_def signature_of_def and_then_eq_Inl ok_or_def split: option.splits if_splits)
qed

text \<open>
  C34: only the notary's answer counts. An envelope is reported as signed exactly when the notary
  answered, within the size limit, a document with a non-empty signature, and the signature is the one
  in it; it is reported as refused exactly when the answer carries no signature but an error message.
  Every other answer, and no answer, is an error of its own, and never a signature.
\<close>

theorem sign_envelope_outcomes:
  "(sign_envelope to_vec from_slice uds c env version tenant cid = Inr r \<longleftrightarrow>
      (\<exists>j. answered to_vec from_slice uds c (sign_envelope_request env version tenant cid) j \<and> signature_of j = Some r))
   \<and> (sign_envelope to_vec from_slice uds c env version tenant cid = Inl (SigningRefused why) \<longleftrightarrow>
      (\<exists>j code. answered to_vec from_slice uds c (sign_envelope_request env version tenant cid) j \<and> signature_of j = None
         \<and> de_error_frame j = Some \<lparr>ef_error = why, ef_error_code = code\<rparr>))"
proof -
  let ?req = "to_vec (sign_envelope_request env version tenant cid)"
  have doc: "read_document T05Io T05Protocol 1048576 w s = Inr (d, rest) \<longleftrightarrow> s = frame d @ rest \<and> d \<noteq> [] \<and> length d \<le> 1048576" for w s d rest
    by (rule read_document_iff) simp
  have no: "read_document T05Io T05Protocol n w s \<noteq> Inl (SigningRefused why)" for n w s
    by (auto simp: read_document_def and_then_eq_Inl ok_or_def Let_def split: option.splits if_splits)
  have x: "t05_exchange uds c ?req = Inr s \<longleftrightarrow> uds (tc_socket_path c) (frame ?req) = UdsStream s" "t05_exchange uds c ?req \<noteq> Inl (SigningRefused why)" for s
    by (auto simp: t05_exchange_def split: uds_outcome.splits)
  have "sign_envelope to_vec from_slice uds c env version tenant cid = Inr r \<longleftrightarrow>
      (\<exists>doc rest. uds (tc_socket_path c) (frame ?req) = UdsStream (frame doc @ rest) \<and> doc \<noteq> [] \<and> length doc \<le> 1048576 \<and> sign_outcome from_slice doc = Inr r)"
    by (auto simp: sign_envelope_def and_then_eq_Inr x doc)
  moreover have "sign_envelope to_vec from_slice uds c env version tenant cid = Inl (SigningRefused why) \<longleftrightarrow>
      (\<exists>doc rest. uds (tc_socket_path c) (frame ?req) = UdsStream (frame doc @ rest) \<and> doc \<noteq> [] \<and> length doc \<le> 1048576
         \<and> sign_outcome from_slice doc = Inl (SigningRefused why))"
    by (auto simp: sign_envelope_def and_then_eq_Inl x doc no)
  ultimately show ?thesis by (auto simp: sign_outcome_ok sign_outcome_refused answered_def)
qed

end
