(* ===== verification/Result_Formatter.thy ===== *)
theory Result_Formatter
  imports Arrow_Model Serde_Json
begin

text \<open>
  \<open>src/src/result_formatter.rs\<close>: serialising enforced batches as Arrow IPC, Parquet or JSON lines. The
  file writers, the base64 encoder and the JSON printer are parameters.
\<close>

section \<open>Model\<close>

datatype formatter_error =
    ArrowIpcError string
  | ParquetError string
  | JsonError string
  | UnsupportedTypeForJson string string

datatype result_format = FormatArrow | FormatParquet | FormatJson

definition from_proto_i32 :: "int \<Rightarrow> result_format" where
  "from_proto_i32 v = (if v = 1 then FormatParquet else if v = 2 then FormatJson else FormatArrow)"

text \<open>A file writer's outcome for a schema and its batches (initialise, write each, finish); and the encoder.\<close>

record writers =
  ipc_file :: "schema \<Rightarrow> record_batch list \<Rightarrow> string + bytes"
  parquet_file :: "schema \<Rightarrow> record_batch list \<Rightarrow> string + bytes"
  base64_encode :: "bytes \<Rightarrow> string"
  json_to_string :: to_vec

text \<open>The value of a cell of an array type without a constructor of its own; a failed downcast gives the default.\<close>

fun other_cell :: "data_type \<Rightarrow> array \<Rightarrow> nat \<Rightarrow> cell option" where
  "other_cell t (OtherArray u xs) row = (if u = t then xs ! row else None)"
| "other_cell t _ row = None"

fun cell_int :: "cell option \<Rightarrow> int" where
  "cell_int (Some (CInt i)) = i" | "cell_int _ = 0"

fun cell_f64 :: "cell option \<Rightarrow> f64" where
  "cell_f64 (Some (CFloat x)) = x" | "cell_f64 _ = Fin 0"

fun cell_bytes :: "cell option \<Rightarrow> bytes" where
  "cell_bytes (Some (CBytes b)) = b" | "cell_bytes _ = []"

definition downcast_failed :: "string \<Rightarrow> string \<Rightarrow> formatter_error" where
  "downcast_failed ty col_name = JsonError (''downcast '' @ ty @ '' failed for col '' @ quoted col_name)"

text \<open>The \<open>Debug\<close> form of a \<open>dyn Any\<close>.\<close>

definition debug_any :: string where
  "debug_any = ''Any { .. }''"

fun typed_value :: "(bytes \<Rightarrow> string) \<Rightarrow> array \<Rightarrow> nat \<Rightarrow> string \<Rightarrow> data_type \<Rightarrow> formatter_error + json" where
  "typed_value b64 col row n DNull = Inr JNull"
| "typed_value b64 col row n Boolean = (case col of BooleanArray xs \<Rightarrow> Inr (JBool (the (xs ! row))) | _ \<Rightarrow> Inl (downcast_failed ''Boolean'' n))"
| "typed_value b64 col row n Int8 = Inr (JInt (cell_int (other_cell Int8 col row)))"
| "typed_value b64 col row n Int16 = Inr (JInt (cell_int (other_cell Int16 col row)))"
| "typed_value b64 col row n Int32 = Inr (JInt (cell_int (other_cell Int32 col row)))"
| "typed_value b64 col row n Int64 = (case col of Int64Array xs \<Rightarrow> Inr (JInt (the (xs ! row))) | _ \<Rightarrow> Inl (downcast_failed ''Int64'' n))"
| "typed_value b64 col row n UInt8 = Inr (JInt (cell_int (other_cell UInt8 col row)))"
| "typed_value b64 col row n UInt16 = Inr (JInt (cell_int (other_cell UInt16 col row)))"
| "typed_value b64 col row n UInt32 = Inr (JInt (cell_int (other_cell UInt32 col row)))"
| "typed_value b64 col row n UInt64 = Inr (JInt (cell_int (other_cell UInt64 col row)))"
| "typed_value b64 col row n Float32 = Inr (json_of_f64 (cell_f64 (other_cell Float32 col row)))"
| "typed_value b64 col row n Float64 = (case col of Float64Array xs \<Rightarrow> Inr (json_of_f64 (the (xs ! row))) | _ \<Rightarrow> Inl (downcast_failed ''Float64'' n))"
| "typed_value b64 col row n Utf8 = (case col of StringArray xs \<Rightarrow> Inr (JStr (the (xs ! row))) | _ \<Rightarrow> Inl (downcast_failed ''Utf8'' n))"
| "typed_value b64 col row n LargeUtf8 = (case col of LargeStringArray xs \<Rightarrow> Inr (JStr (the (xs ! row))) | _ \<Rightarrow> Inl (downcast_failed ''LargeUtf8'' n))"
| "typed_value b64 col row n Date32 = Inr (JStr debug_any)"
| "typed_value b64 col row n Date64 = Inr (JStr debug_any)"
| "typed_value b64 col row n (Timestamp _) = Inr (JStr debug_any)"
| "typed_value b64 col row n (Time32 _) = Inr (JStr debug_any)"
| "typed_value b64 col row n (Time64 _) = Inr (JStr debug_any)"
| "typed_value b64 col row n (Duration _) = Inr (JStr debug_any)"
| "typed_value b64 col row n (Interval _) = Inr (JStr debug_any)"
| "typed_value b64 col row n Binary = Inr (JStr (b64 (cell_bytes (other_cell Binary col row))))"
| "typed_value b64 col row n LargeBinary = Inr (JStr (b64 (cell_bytes (other_cell LargeBinary col row))))"
| "typed_value b64 col row n (FixedSizeBinary _) = Inr (JStr (b64 []))"
| "typed_value b64 col row n Float16 = Inr (json_of_f64 (cell_f64 (other_cell Float16 col row)))"
| "typed_value b64 col row n Utf8View = (case other_cell Utf8View col row of Some (CStr s) \<Rightarrow> Inr (JStr s) | _ \<Rightarrow> Inl (downcast_failed ''Utf8View'' n))"
| "typed_value b64 col row n BinaryView = Inr (JStr (b64 (cell_bytes (other_cell BinaryView col row))))"
| "typed_value b64 col row n _ = Inr JNull"

definition column_value_at :: "(bytes \<Rightarrow> string) \<Rightarrow> array \<Rightarrow> nat \<Rightarrow> string \<Rightarrow> data_type \<Rightarrow> formatter_error + json" where
  "column_value_at b64 col row n t = (if null_mask col ! row then Inr JNull else typed_value b64 col row n t)"

definition format_arrow :: "writers \<Rightarrow> record_batch list \<Rightarrow> formatter_error + bytes" where
  "format_arrow W batches = map_err ArrowIpcError (ipc_file W (batch_schema (hd batches)) batches)"

definition format_parquet :: "writers \<Rightarrow> record_batch list \<Rightarrow> formatter_error + bytes" where
  "format_parquet W batches = map_err ParquetError (parquet_file W (batch_schema (hd batches)) batches)"

text \<open>A row: \<open>serde_json::Map\<close> is ordered by key, and a repeated column name keeps the last value.\<close>

definition row_object :: "writers \<Rightarrow> record_batch \<Rightarrow> nat \<Rightarrow> formatter_error + json" where
  "row_object W b row = and_then (map_r (\<lambda>i. let f = batch_schema b ! i in
       and_then (column_value_at (base64_encode W) (batch_columns b ! i) row (field_name f) (field_type f)) (\<lambda>v. Inr (field_name f, v)))
       [0..<length (batch_columns b)])
     (\<lambda>kvs. Inr (JObj (btree_map (hash_map_of kvs))))"

definition batch_lines :: "writers \<Rightarrow> record_batch \<Rightarrow> formatter_error + bytes" where
  "batch_lines W b = and_then (map_r (row_object W b) [0..<num_rows b]) (\<lambda>objs. Inr (concat (map (\<lambda>v. json_to_string W v @ [CHR 0x0A]) objs)))"

definition format_json :: "writers \<Rightarrow> record_batch list \<Rightarrow> formatter_error + bytes" where
  "format_json W batches = and_then (map_r (batch_lines W) batches) (\<lambda>texts. Inr (concat texts))"

definition format_results :: "writers \<Rightarrow> record_batch list \<Rightarrow> result_format \<Rightarrow> formatter_error + bytes" where
  "format_results W batches fmt = (if batches = [] then Inr []
     else (case fmt of FormatArrow \<Rightarrow> format_arrow W batches | FormatParquet \<Rightarrow> format_parquet W batches | FormatJson \<Rightarrow> format_json W batches))"

section \<open>The document of a row\<close>

text \<open>What a cell stands for, by the array that holds it.\<close>

fun other_doc :: "(bytes \<Rightarrow> string) \<Rightarrow> data_type \<Rightarrow> cell \<Rightarrow> json" where
  "other_doc b64 t (CInt i) = (if t \<in> {Int8, Int16, Int32, UInt8, UInt16, UInt32, UInt64} then JInt i else JNull)"
| "other_doc b64 t (CFloat x) = (if t \<in> {Float16, Float32} then json_of_f64 x else JNull)"
| "other_doc b64 t (CStr s) = (if t = Utf8View then JStr s else JNull)"
| "other_doc b64 t (CBytes b) = (if t \<in> {Binary, LargeBinary, BinaryView} then JStr (b64 b) else JNull)"
| "other_doc b64 t (COpaque _) = JNull"

fun cell_doc :: "(bytes \<Rightarrow> string) \<Rightarrow> array \<Rightarrow> nat \<Rightarrow> json" where
  "cell_doc b64 (BooleanArray xs) r = (case xs ! r of None \<Rightarrow> JNull | Some v \<Rightarrow> JBool v)"
| "cell_doc b64 (Int64Array xs) r = (case xs ! r of None \<Rightarrow> JNull | Some v \<Rightarrow> JInt v)"
| "cell_doc b64 (Float64Array xs) r = (case xs ! r of None \<Rightarrow> JNull | Some v \<Rightarrow> json_of_f64 v)"
| "cell_doc b64 (StringArray xs) r = (case xs ! r of None \<Rightarrow> JNull | Some v \<Rightarrow> JStr v)"
| "cell_doc b64 (LargeStringArray xs) r = (case xs ! r of None \<Rightarrow> JNull | Some v \<Rightarrow> JStr v)"
| "cell_doc b64 (OtherArray t xs) r = (case xs ! r of None \<Rightarrow> JNull | Some c \<Rightarrow> other_doc b64 t c)"

fun complex_type :: "data_type \<Rightarrow> bool" where
  "complex_type (ListType _) = True" | "complex_type (ListViewType _) = True" | "complex_type (MapType _) = True" | "complex_type (Struct _) = True"
| "complex_type (Union _) = True" | "complex_type (Dictionary _) = True" | "complex_type (Decimal128 _) = True" | "complex_type (Decimal256 _) = True"
| "complex_type (RunEndEncoded _) = True" | "complex_type _ = False"

text \<open>The cells an array of a type can hold, for the types that have a JSON form of their own.\<close>

fun plain_cell :: "data_type \<Rightarrow> cell \<Rightarrow> bool" where
  "plain_cell t (CInt i) \<longleftrightarrow> t \<in> {Int8, Int16, Int32, UInt8, UInt16, UInt32, UInt64} \<and> - (2 ^ 63) \<le> i \<and> i < 2 ^ 64"
| "plain_cell t (CFloat x) \<longleftrightarrow> t \<in> {Float16, Float32}"
| "plain_cell t (CStr s) \<longleftrightarrow> t = Utf8View"
| "plain_cell t (CBytes b) \<longleftrightarrow> t \<in> {Binary, LargeBinary, BinaryView}"
| "plain_cell t (COpaque _) \<longleftrightarrow> complex_type t"

fun plain_array :: "array \<Rightarrow> bool" where
  "plain_array (OtherArray t xs) \<longleftrightarrow> (\<forall>x\<in>set xs. pred_option (plain_cell t) x)"
| "plain_array _ \<longleftrightarrow> True"

lemma plain_cell_value:
  "plain_cell t c \<Longrightarrow> xs ! row = Some c \<Longrightarrow> typed_value b64 (OtherArray t xs) row n t = Inr (other_doc b64 t c)"
  by (cases c; cases t) auto

lemma column_value_doc:
  assumes "array_ok a" "plain_array a" "row < array_len a"
  shows "column_value_at b64 a row n (data_type_of a) = Inr (cell_doc b64 a row)"
proof (cases a)
  case (OtherArray t xs)
  show ?thesis
  proof (cases "xs ! row")
    case (Some c)
    then have "plain_cell t c" using assms(2,3) OtherArray nth_mem [of row xs] by (force simp: pred_option_def)
    then show ?thesis using plain_cell_value [OF _ Some] Some assms(3) OtherArray by (simp add: column_value_at_def)
  qed (use assms(3) OtherArray in \<open>simp add: column_value_at_def\<close>)
qed (use assms(3) in \<open>auto simp: column_value_at_def split: option.splits\<close>)

definition row_doc :: "(bytes \<Rightarrow> string) \<Rightarrow> record_batch \<Rightarrow> nat \<Rightarrow> json" where
  "row_doc b64 b row = JObj (btree_map (hash_map_of (map2 (\<lambda>f a. (field_name f, cell_doc b64 a row)) (batch_schema b) (batch_columns b))))"

lemma row_object_doc:
  assumes "batch_ok b" "\<forall>a\<in>set (batch_columns b). plain_array a" "row < num_rows b"
  shows "row_object W b row = Inr (row_doc (base64_encode W) b row)"
proof -
  let ?s = "batch_schema b" and ?cs = "batch_columns b"
  have l: "length ?s = length ?cs" and ty: "\<And>i. i < length ?cs \<Longrightarrow> data_type_of (?cs ! i) = field_type (?s ! i)"
    using assms(1) by (auto simp: batch_ok_def batch_fits_def list_all2_conv_all_nth column_fits_def)
  have v: "column_value_at (base64_encode W) (?cs ! i) row (field_name (?s ! i)) (field_type (?s ! i)) = Inr (cell_doc (base64_encode W) (?cs ! i) row)"
    if "i < length ?cs" for i
  proof -
    have m: "?cs ! i \<in> set ?cs" using that by simp
    then have "array_ok (?cs ! i)" "plain_array (?cs ! i)" "row < array_len (?cs ! i)"
      using assms num_rows_len [OF assms(1) m] by (auto simp: batch_ok_def)
    from column_value_doc [OF this] show ?thesis using ty [OF that] by simp
  qed
  have "map_r (\<lambda>i. let f = ?s ! i in and_then (column_value_at (base64_encode W) (?cs ! i) row (field_name f) (field_type f)) (\<lambda>v. Inr (field_name f, v)))
       [0..<length ?cs] = map_r (\<lambda>i. Inr (field_name (?s ! i), cell_doc (base64_encode W) (?cs ! i) row)) [0..<length ?cs]"
    by (rule map_r_cong) (simp_all add: v Let_def)
  moreover have "map (\<lambda>i. (field_name (?s ! i), cell_doc (base64_encode W) (?cs ! i) row)) [0..<length ?cs]
      = map2 (\<lambda>f a. (field_name f, cell_doc (base64_encode W) a row)) ?s ?cs"
    by (rule nth_equalityI) (simp_all add: l)
  ultimately show ?thesis by (simp add: row_object_def row_doc_def map_r_Inr_map)
qed

section \<open>Reading the lines back\<close>

lemma split_lines:
  "list_all (\<lambda>v. d \<notin> set (p v)) vs \<Longrightarrow> split_on d (concat (map (\<lambda>v. p v @ [d]) vs)) = map p vs @ [[]]"
  by (induction vs) (simp_all add: split_on_first)

lemma set_hash_map_of: "set (hash_map_of kvs) \<subseteq> set kvs"
proof -
  have u: "set (AList.update k v al) \<subseteq> insert (k, v) (set al)" for k :: 'a and v :: 'b and al
    by (induction al) auto
  have "set (fold (\<lambda>(k, v) m. AList.update k v m) kvs al) \<subseteq> set al \<union> set kvs" for al
  proof (induction kvs arbitrary: al)
    case (Cons kv kvs)
    show ?case using Cons [of "AList.update (fst kv) (snd kv) al"] u [of "fst kv" "snd kv" al] by (cases kv) auto
  qed simp
  from this [of "[]"] show ?thesis by (simp add: hash_map_of_def)
qed

lemma json_of_f64_ok [simp]: "json_ok (json_of_f64 x)"
  by (simp add: json_of_f64_def)

lemma cell_doc_ok: "array_ok a \<Longrightarrow> plain_array a \<Longrightarrow> row < array_len a \<Longrightarrow> json_ok (cell_doc b64 a row)"
proof (cases a)
  case (Int64Array xs)
  assume "array_ok a" "row < array_len a"
  then have "pred_option in_i64 (xs ! row)" using Int64Array by simp
  then show ?thesis using Int64Array by (auto simp: in_i64_def split: option.splits)
next
  case (OtherArray t xs)
  assume "plain_array a" "row < array_len a"
  then have "pred_option (plain_cell t) (xs ! row)" using OtherArray by simp
  then show ?thesis using OtherArray by (auto split: option.splits) (rename_tac c, case_tac c, auto)
qed (auto split: option.splits)

lemma row_doc_ok:
  assumes "batch_ok b" "\<forall>a\<in>set (batch_columns b). plain_array a" "row < num_rows b"
  shows "json_ok (row_doc b64 b row)"
proof -
  have "json_ok (snd kv)" if kv: "kv \<in> set (hash_map_of (map2 (\<lambda>f a. (field_name f, cell_doc b64 a row)) (batch_schema b) (batch_columns b)))" for kv
  proof -
    obtain f a where a: "(f, a) \<in> set (zip (batch_schema b) (batch_columns b))" "kv = (field_name f, cell_doc b64 a row)"
      using kv set_hash_map_of by fastforce
    then have m: "a \<in> set (batch_columns b)" by (meson set_zip_rightD)
    then have "array_ok a" "plain_array a" "row < array_len a"
      using assms num_rows_len [OF assms(1) m] by (auto simp: batch_ok_def)
    then show ?thesis using a(2) by (simp add: cell_doc_ok)
  qed
  then show ?thesis by (simp add: row_doc_def)
qed

lemma batch_lines_text:
  assumes "batch_ok b" "\<forall>a\<in>set (batch_columns b). plain_array a"
  shows "batch_lines W b = Inr (concat (map (\<lambda>r. json_to_string W (row_doc (base64_encode W) b r) @ [CHR 0x0A]) [0..<num_rows b]))"
proof -
  have "map_r (row_object W b) [0..<num_rows b] = map_r (\<lambda>r. Inr (row_doc (base64_encode W) b r)) [0..<num_rows b]"
    by (rule map_r_cong) (simp_all add: row_object_doc [OF assms])
  then show ?thesis by (simp add: batch_lines_def map_r_Inr_map comp_def)
qed

definition all_rows :: "(bytes \<Rightarrow> string) \<Rightarrow> record_batch list \<Rightarrow> json list" where
  "all_rows b64 batches = concat (map (\<lambda>b. map (row_doc b64 b) [0..<num_rows b]) batches)"


section \<open>Dates\<close>

definition date_batch :: "int \<Rightarrow> record_batch" where
  "date_batch d = \<lparr>batch_schema = [\<lparr>field_name = ''day'', field_type = Date32, nullable = True\<rparr>], batch_columns = [OtherArray Date32 [Some (CInt d)]]\<rparr>"

text \<open>Any two dates give the same JSON result.\<close>

theorem dates_indistinct: "format_results W [date_batch d] FormatJson = format_results W [date_batch e] FormatJson"
  by (simp add: format_results_def format_json_def batch_lines_def row_object_def column_value_at_def date_batch_def num_rows_def Let_def)

section \<open>An instance\<close>

definition writers_ref :: writers where
  "writers_ref = \<lparr>ipc_file = (\<lambda>_ _. Inr ''ARROW1''), parquet_file = (\<lambda>_ _. Inr ''PAR1''), base64_encode = (\<lambda>b. b), json_to_string = unary_to_vec\<rparr>"

definition result_batch :: record_batch where
  "result_batch = \<lparr>batch_schema = [\<lparr>field_name = ''region'', field_type = Utf8, nullable = True\<rparr>, \<lparr>field_name = ''amount'', field_type = Int64, nullable = True\<rparr>],
     batch_columns = [StringArray [Some ''EU'', None], Int64Array [Some 10, Some 20]]\<rparr>"


end
