(* ===== verification/Python_Binding.thy ===== *)
theory Python_Binding
  imports Governed_Table Result_Formatter
begin

text \<open>
  \<open>src/bindings/python/src/lib.rs\<close>: the native module of the Python package. An error crosses the
  boundary as its text (\<open>show\<close>), the result as Arrow IPC bytes.
\<close>

datatype py_error = PyRuntimeError string

definition to_py :: "('e \<Rightarrow> string) \<Rightarrow> 'e \<Rightarrow> py_error" where
  "to_py show e = PyRuntimeError (show e)"

definition py_caller_new :: "string \<Rightarrow> string \<Rightarrow> string \<Rightarrow> string option \<Rightarrow> string option \<Rightarrow> caller" where
  "py_caller_new cid purp ten tier_opt class_opt = \<lparr>caller_id = cid, purpose = purp, tenant = ten,
     tier = (case tier_opt of None \<Rightarrow> ''bronze'' | Some t \<Rightarrow> t),
     classification = (case class_opt of None \<Rightarrow> ''internal'' | Some c \<Rightarrow> c)\<rparr>"

definition py_caller_repr :: "caller \<Rightarrow> string" where
  "py_caller_repr who = ''Caller(id='' @ quoted (caller_id who) @ '', purpose='' @ quoted (purpose who) @ '', tenant='' @ quoted (tenant who) @ '')''"

text \<open>\<open>runtime\<close> is the outcome of starting the executor, after the contracts are loaded.\<close>

definition py_engine :: "(contract_error \<Rightarrow> string) \<Rightarrow> string option \<Rightarrow> contract_error + griot_engine \<Rightarrow> py_error + griot_engine" where
  "py_engine show runtime loaded = and_then (map_err (to_py show) loaded) (\<lambda>inner.
     (case runtime of Some e \<Rightarrow> Inl (PyRuntimeError e) | None \<Rightarrow> Inr inner))"

definition py_from_json_contracts_dir where
  "py_from_json_contracts_dir show runtime from_slice disk mem_table entries = py_engine show runtime (from_json_contracts_dir from_slice disk mem_table entries)"

definition py_from_json_contracts where
  "py_from_json_contracts show runtime from_slice disk mem_table docs = py_engine show runtime (from_json_contracts from_slice disk mem_table docs)"

definition py_query :: "(engine_error \<Rightarrow> string) \<Rightarrow> (formatter_error \<Rightarrow> string) \<Rightarrow> writers \<Rightarrow> to_vec \<Rightarrow> from_slice \<Rightarrow> nat \<Rightarrow> session_env \<Rightarrow> griot_engine
    \<Rightarrow> string \<Rightarrow> caller \<Rightarrow> py_error + bytes" where
  "py_query show show_fmt W to_vec from_slice uuid S E sql who =
     and_then (map_err (to_py show) (query to_vec from_slice uuid S E sql who)) (\<lambda>batches.
       map_err (to_py show_fmt) (format_results W batches FormatArrow))"

text \<open>A Python caller without tier and classification is the engine's default caller.\<close>

lemma py_caller_default: "py_caller_new cid purp ten None None = new_caller cid purp ten"
  by (simp add: py_caller_new_def new_caller_def)

text \<open>The bytes are a file of exactly the engine's batches, or empty when there is none.\<close>

lemma py_query_bytes:
  "py_query show show_fmt W to_vec from_slice uuid S E sql who = Inr out \<longleftrightarrow>
     (\<exists>batches. query to_vec from_slice uuid S E sql who = Inr batches
        \<and> (if batches = [] then out = [] else ipc_file W (batch_schema (hd batches)) batches = Inr out))"
  by (auto simp: py_query_def and_then_eq_Inr map_err_eq_Inr format_results_def format_arrow_def)

lemma py_query_unsafe: "reject_unsafe_ddl sql = Inl e \<Longrightarrow> py_query show show_fmt W to_vec from_slice uuid S E sql who = Inl (PyRuntimeError (show e))"
  by (simp add: py_query_def query_def to_py_def)

end
