(* ===== verification/Spec2Isabelle.thy ===== *)
theory Spec2Isabelle
  imports Rule_Scenario Plan_Display Extension_Nodes Pool_Shutdown Platform_Signature Platform_Scenario Noninterference Enforcement_Events Lance_Registration T05_Client Python_Binding
begin

text \<open>
  Verification of the Griot governed query engine (\<open>src/src\<close> and \<open>src/bindings/python\<close>).

  \<^bold>\<open>The program.\<close> The engine answers SQL over tables that data contracts govern. A contract says who owns
  a table, for which purposes it may be read, which columns are masked, which rows are hidden and which
  columns are only answered under differential privacy. The program enforces this along two paths.
  \<^item> The library path. \<open>GriotEngine::query\<close> (\<open>engine.rs\<close>) refuses unsafe statements with the DDL
    guard (\<open>lib.rs\<close>), resolves every table of the catalog (\<open>catalog.rs\<close>, \<open>binding.rs\<close>) to a policy through
    a contract source (\<open>contract_source.rs\<close> for JSON contracts, \<open>platform/bundle_source.rs\<close> for signed
    bundles fetched over HTTP), and registers it wrapped in a \<open>ContractTableProvider\<close>
    (\<open>contract_table_provider.rs\<close>), whose scan stacks the physical operators of \<open>physical/\<close>: an approval
    marker, a row filter, masking and Laplace noise; an attestation operator tops a plan.
  \<^item> The service path. \<open>LongRunningPoolManager\<close> routes the statements of tenants to workers, each with a
    sealed \<open>K04DEngine\<close> (\<open>lib.rs\<close>) behind the DDL guard and a contract bundle, and answers repeated
    statements from a \<open>QueryCache\<close>. The rules of \<open>optimizer_rules/\<close> rewrite logical plans to the same ends.
  Beside the paths stand the read path from storage (\<open>lance_table.rs\<close> over \<open>storaged_client.rs\<close>), the
  notary client (\<open>t05_client.rs\<close>), the result formats (\<open>result_formatter.rs\<close>) and the Python module.

  \<^bold>\<open>Shared theories.\<close> \<open>Griot_Prelude\<close>: \<open>Result\<close> as a sum with the error on the left, byte strings, the
  string functions of the standard library that the sources call, and the collections of lemmas that the
  components' proofs use. \<open>F64\<close>: IEEE doubles with rounding, overflow, infinities and NaN written out over
  the rationals, so that the privacy parameters are compared as the code compares them. \<open>Griot_Errors\<close>: the
  error enums. \<open>Serde_Json\<close>: JSON values, the deserialisation that the derive macro gives (missing, null,
  duplicate and unknown fields), and the contract of the text layer. \<open>Crypto\<close>: SHA-256, hex and xxhash as
  a record of functions. \<open>Arrow_Model\<close>: data types, typed arrays with nulls, schemas, record batches and
  the checks of \<open>RecordBatch::try_new\<close>. \<open>Sql_Ast\<close>: the parser's tree as far as the sources match on it
  and the engine's expressions. \<open>Wire_Bytes\<close> and \<open>Uds_Frames\<close>: words as bytes and length-prefixed frames
  over a socket.
\<close>

text \<open>
  \<^bold>\<open>Components.\<close> Each theory has the definitions of one source file, in its order, with the names of the
  source; state is a record passed explicitly, an error is a value of the sum, a mutex makes one call one
  step.
  \<^item> \<open>Policy\<close> (\<open>policy.rs\<close>): mask actions and their codes, decisions, the resolved policy and its document.
  \<^item> \<open>Contract_Source\<close> (\<open>contract_source.rs\<close>): the contract documents, the store and \<open>resolve\<close>. Proved:
    the access matrix by tenant and purpose, and that no declared mask is lost.
  \<^item> \<open>Ddl_Guard\<close> (\<open>lib.rs\<close>): the comment stripper as a scan with a terminating measure and the deny list.
    Proved: the exact set of rejected statements, that comments in front change nothing, and the doubled
    quote with which a statement gets past the guard.
  \<^item> \<open>Physical_Plan\<close>, \<open>Row_Filter_Exec\<close>, \<open>Masking_Exec\<close>, \<open>Laplace_Noise_Exec\<close>, \<open>Attestation_Exec\<close>
    (\<open>physical/\<close>): construction, validation and per-batch work of each operator. \<open>Plan_Execution\<close> runs whole
    plans: streams of batches with the events and budget debits in their order. Proved: the filter keeps
    exactly the rows for which the predicate is true; masking is column by column, keeps nulls and leaks
    nothing for redaction; noise follows a debit of every column; an attestation binds query and result.
  \<^item> \<open>Plan_Invariants\<close>: plans as an inductive set over the constructors and \<open>with_new_children\<close>; every
    enforcement operator stands above a genuine approval, and every batch has the announced schema.
    \<open>Plan_Display\<close>: the explain lines of such plans, which never panic.
  \<^item> \<open>Governed_Table\<close> (\<open>contract_table_provider.rs\<close>, \<open>binding.rs\<close>, \<open>catalog.rs\<close>, \<open>engine.rs\<close>): from a table
    name to a governed scan. Proved: what the stack is, that it can always be built, what its batches are
    in terms of the raw ones, and that a query reaches tables only through it. \<open>Noninterference\<close>: whatever the
    policy hides, rows, redacted columns or the heads of partially masked strings, does not show in the result.
    \<open>Enforcement_Events\<close>: of the operators' event lists only the approval's is ever written.
  \<^item> \<open>Privacy_Budget\<close>, \<open>Logical_Plan\<close>, \<open>Contract_Check_Rule\<close>, \<open>Row_Filter_Rule\<close>, \<open>Masking_Rule\<close>,
    \<open>Dp_Noise_Rule\<close>, \<open>Rule_Pipeline\<close>, \<open>Extension_Nodes\<close> (\<open>optimizer_rules/\<close>): the tracker, the four rules and their plan nodes. Proved: each rule's
    exact effect on a plan, the composition of the four, the budget bound with its rounding, and the
    agreement of the logical with the physical translation of a filter.
  \<^item> \<open>Query_Cache\<close> (\<open>query_cache.rs\<close>), \<open>Engine_Shell\<close> (\<open>lib.rs\<close>), \<open>Worker_Pool\<close>
    (\<open>long_running_pool_manager.rs\<close>): cache, sealed engine and pool. The pool is an inductive step relation whose
    steps are the atomic pieces of submission, the worker loop and shutdown in any interleaving. Proved:
    hits are exact, the cache is bounded and its loop ends; statements are guarded; replies belong to the
    tenant and statement asked; every task is accounted for. \<open>Pool_Shutdown\<close> adds the call of \<open>shutdown\<close> with its
    polling and its deadline and the clock. Proved: the call returns, the workers run down, and what
    a queued task or a panicked worker make of it.
  \<^item> \<open>Platform_Bundle\<close>, \<open>Platform_Signature\<close>, \<open>Platform_Policy\<close>, \<open>Platform_Equivalence\<close>
    (\<open>platform/\<close>): signed bundles, their digest, verification and mapping to policies. Proved: what a
    signature covers and what it leaves open, that the mapping reads back what the contract authority generates,
    and that both contract sources then resolve alike.
  \<^item> \<open>Storaged_Client\<close>, \<open>Lance_Table\<close>, \<open>T05_Client\<close>, \<open>Result_Formatter\<close>, \<open>Python_Binding\<close>: the clients, the
    object store over the daemon, the formats and the native module. Proved: the store shows exactly the asset
    and refuses writes, the outcomes of signing, and that JSON lines read back as the rows. \<open>Lance_Registration\<close>
    puts the engine shell over the repository's own Lance provider.
  \<^item> \<open>Scenario\<close>, \<open>Rule_Scenario\<close>, \<open>Platform_Scenario\<close>: concrete tables, contracts, bundles and plans on which
    the properties are applied.
\<close>

text \<open>
  \<^bold>\<open>Interfaces.\<close> \<open>contract_source\<close> is the trait of that name: what \<open>resolve\<close> may return. The governed-table
  lemmas are proved in it, and it is interpreted on \<open>JsonContractSource\<close> (\<open>json_source\<close>) and on
  \<open>PlatformBundleSource\<close> (\<open>platform_source\<close>). \<open>enforcement_operator\<close> is the shared contract of the three
  enforcement constructors, interpreted on each. \<open>result_cache\<close> is what the pool expects of a cache,
  interpreted on \<open>QueryCache\<close> (\<open>query_results\<close>).

  \<^bold>\<open>Parameters.\<close> Code outside the repository is an argument, with its documented behaviour as a named
  predicate where a property needs it: \<open>serde_json_spec\<close> (parsing what was printed gives the value back),
  \<open>crypto_spec\<close> (digest lengths, hex), \<open>arrow_spec\<close> (batch construction, casts to text, the filter kernel),
  \<open>expr_engine_spec\<close> (an evaluated predicate has one value a row), \<open>transform_down_spec\<close> and \<open>rule_env_spec\<close> (plan traversal), \<open>lru_spec\<close>
  (the map of the \<open>lru\<close> crate), \<open>scan_spec\<close> and \<open>mem_spec\<close> (the Lance scanner and the in-memory table), and
  \<open>serves\<close> (the storage daemon's answers). \<open>plan_ops\<close>, \<open>session_ops\<close>, \<open>p256\<close>, \<open>writers\<close> and the HTTP client
  are used without assumptions beyond those a property states. Every such predicate has a reference instance
  (\<open>lru_ref\<close>, \<open>crypto_ref\<close> and so on) for which it is proved and on which the properties are applied. Sampling noise
  is a parameter: the stream of exponential samples is given, nothing is said of its distribution.

  \<^bold>\<open>Bounds and termination.\<close> Nothing runs on fuel. Recursive scans over text and plans end by the length
  or size of what is left. The eviction loop of the cache is a partial function, since it ends only when the
  map shrinks; that it always returns is proved, also when its byte counter is out of step. The polling of
  \<open>shutdown\<close> is a step relation with a bound on its length. Frame lengths
  are 32-bit and 64-bit words, with the limits of the sources (4 MiB, 1 MiB and 64 KiB) in the definitions.

  \<^bold>\<open>Not modelled.\<close>
  \<^item> \<open>Debug\<close>, \<open>as_any\<close> and log lines: they show values and change nothing. The texts
    of errors are modelled where a caller can see them.
  \<^item> Concurrency below one call: the sources lock around each operation of cache, tracker and registries,
    and the model takes each as one step.
  \<^item> \<open>platform/mod.rs\<close> (module declarations only), the unit tests inside the sources, build files, examples
    and the Python package around the native module.
\<close>

end
